(* ===== verification/Prelude.thy ===== *)
theory Prelude
  imports Main "HOL-Library.Word" "HOL-Library.AList"
begin

text \<open>
  Shared vocabulary of the npipe development: machine integers, byte strings, the outcome of
  a Rust call (\<open>Ok\<close>, an \<open>anyhow\<close> error, a panic, or an \<open>await\<close> that has not completed yet),
  the \<open>?\<close> operator on states, slicing with the panics written out, big-endian encodings,
  hash maps as association lists, and the two interfaces every component uses: a key/value
  table and a FIFO channel.
\<close>

unbundle bit_operations_syntax

named_theorems outcome_simps "sequencing of outcomes"
named_theorems handler_defs "definitions of the message handlers"

section \<open>Machine integers and byte strings\<close>

type_synonym u8 = "8 word"
type_synonym u16 = "16 word"
type_synonym u32 = "32 word"
type_synonym i32 = "32 word"
type_synonym i64 = "64 word"
type_synonym bytes = "u8 list"

text \<open>
  A Rust \<open>String\<close> is a sequence of bytes, an Isabelle \<open>string\<close> a list of 8-bit characters:
  \<open>as_bytes\<close> and \<open>from_bytes\<close> are the two readings. An \<open>i32\<close> is a word read with \<open>sint\<close>.
\<close>

definition byte_of_char :: "char \<Rightarrow> u8" where
  "byte_of_char c = of_nat (of_char c)"

definition char_of_byte :: "u8 \<Rightarrow> char" where
  "char_of_byte b = char_of (unat b)"

definition as_bytes :: "string \<Rightarrow> bytes" where
  "as_bytes s = map byte_of_char s"

definition from_bytes :: "bytes \<Rightarrow> string" where
  "from_bytes bs = map char_of_byte bs"

lemma unat_byte_of_char: "unat (byte_of_char c) = of_char c"
  by (simp add: byte_of_char_def unat_of_nat)

lemma char_of_byte_of_char [simp]: "char_of_byte (byte_of_char c) = c"
  by (simp add: char_of_byte_def unat_byte_of_char)

lemma byte_of_char_of_byte [simp]: "byte_of_char (char_of_byte b) = b"
proof -
  have "unat b < 2 ^ LENGTH(8)"
    by (rule unsigned_less)
  then show ?thesis
    by (simp add: byte_of_char_def char_of_byte_def of_char_of)
qed

lemma from_as_bytes [simp]: "from_bytes (as_bytes s) = s"
  by (simp add: from_bytes_def as_bytes_def comp_def)

lemma as_from_bytes [simp]: "as_bytes (from_bytes bs) = bs"
  by (simp add: from_bytes_def as_bytes_def comp_def)

lemma length_as_bytes [simp]: "length (as_bytes s) = length s"
  by (simp add: as_bytes_def)

lemma length_from_bytes [simp]: "length (from_bytes bs) = length bs"
  by (simp add: from_bytes_def)

lemma as_bytes_inject [simp]: "as_bytes s = as_bytes t \<longleftrightarrow> s = t"
  by (metis from_as_bytes)

lemma unat_u8_less: "unat (b :: u8) < 256"
proof -
  have "unat b < 2 ^ LENGTH(8)"
    by (rule unsigned_less)
  then show ?thesis by simp
qed

lemma unat_u32_less: "unat (w :: u32) < 4294967296"
proof -
  have "unat w < 2 ^ LENGTH(32)"
    by (rule unsigned_less)
  then show ?thesis by simp
qed

lemma unat_of_nat_u32: "k < 4294967296 \<Longrightarrow> unat (of_nat k :: u32) = k"
  by (simp add: unat_of_nat)

section \<open>Outcomes of Rust calls\<close>

text \<open>
  \<open>Err\<close> carries the text of an \<open>anyhow\<close> error. \<open>Panic\<close> is an unwinding panic. \<open>Pending\<close> is an
  \<open>await\<close> that cannot complete in the present state: the caller is suspended there.
\<close>

datatype 'a outcome = Ok (ok_val: 'a) | Err string | Panic | Pending

definition is_Ok :: "'a outcome \<Rightarrow> bool" where
  "is_Ok r = (case r of Ok _ \<Rightarrow> True | _ \<Rightarrow> False)"

fun bind_ok :: "'a outcome \<Rightarrow> ('a \<Rightarrow> 'b outcome) \<Rightarrow> 'b outcome" where
  "bind_ok (Ok a) f = f a"
| "bind_ok (Err e) f = Err e"
| "bind_ok Panic f = Panic"
| "bind_ok Pending f = Pending"

text \<open>An answer from outside: an error or a value.\<close>

definition io_result :: "string + 'a \<Rightarrow> 'a outcome" where
  "io_result r = (case r of Inl e \<Rightarrow> Err e | Inr a \<Rightarrow> Ok a)"

lemma io_result_Ok_iff: "io_result r = Ok a \<longleftrightarrow> r = Inr a"
  by (simp add: io_result_def split: sum.splits)

text \<open>The log: whether a specification of levels is understood, and whether its files can be opened.\<close>

record log_env =
  log_spec :: "string \<Rightarrow> string + unit"
  log_start :: "string + unit"

text \<open>The \<open>?\<close> operator: an error leaves the function with the state changed so far.\<close>

fun and_then :: "'a outcome \<times> 's \<Rightarrow> ('a \<Rightarrow> 's \<Rightarrow> 'b outcome \<times> 's) \<Rightarrow> 'b outcome \<times> 's" where
  "and_then (Ok a, s) f = f a s"
| "and_then (Err e, s) f = (Err e, s)"
| "and_then (Panic, s) f = (Panic, s)"
| "and_then (Pending, s) f = (Pending, s)"

lemma is_Ok_simps [simp]:
  "is_Ok (Ok a)" "\<not> is_Ok (Err e)" "\<not> is_Ok Panic" "\<not> is_Ok Pending"
  by (simp_all add: is_Ok_def)

lemma is_Ok_iff: "is_Ok r \<longleftrightarrow> (\<exists>a. r = Ok a)"
  by (cases r) simp_all

lemma bind_ok_Ok_iff: "bind_ok r f = Ok b \<longleftrightarrow> (\<exists>a. r = Ok a \<and> f a = Ok b)"
  by (cases r) simp_all

lemma bind_ok_Panic_iff: "bind_ok r f = Panic \<longleftrightarrow> r = Panic \<or> (\<exists>a. r = Ok a \<and> f a = Panic)"
  by (cases r) simp_all

lemma and_then_Ok_iff:
  "and_then p f = (Ok b, t) \<longleftrightarrow> (\<exists>a s. p = (Ok a, s) \<and> f a s = (Ok b, t))"
  by (cases p; cases "fst p") auto

lemma fst_and_then_Panic:
  "fst (and_then p f) = Panic \<longleftrightarrow>
     fst p = Panic \<or> (\<exists>a. fst p = Ok a \<and> fst (f a (snd p)) = Panic)"
  by (cases p; cases "fst p") auto

lemma fst_and_then:
  "fst (and_then p f) =
     (case fst p of Ok a \<Rightarrow> fst (f a (snd p)) | Err e \<Rightarrow> Err e | Panic \<Rightarrow> Panic | Pending \<Rightarrow> Pending)"
  by (cases p; cases "fst p") auto

lemma snd_and_then: "snd (and_then p f) = (case fst p of Ok a \<Rightarrow> snd (f a (snd p)) | _ \<Rightarrow> snd p)"
  by (cases p; cases "fst p") auto

lemmas and_then_proj = fst_and_then snd_and_then

lemma and_then_split:
  "P (and_then p f) \<longleftrightarrow>
     (\<forall>a s. p = (Ok a, s) \<longrightarrow> P (f a s)) \<and> (\<forall>e s. p = (Err e, s) \<longrightarrow> P (Err e, s)) \<and>
     (\<forall>s. p = (Panic, s) \<longrightarrow> P (Panic, s)) \<and> (\<forall>s. p = (Pending, s) \<longrightarrow> P (Pending, s))"
  by (cases p; cases "fst p") auto

lemma and_then_return [simp]: "and_then p (\<lambda>_ s. (Ok (), s)) = p"
  by (cases p; cases "fst p") auto

text \<open>An operation on each element in turn, up to the first that does not return \<open>Ok\<close>.\<close>

fun run_all :: "('a \<Rightarrow> 's \<Rightarrow> unit outcome \<times> 's) \<Rightarrow> 'a list \<Rightarrow> 's \<Rightarrow> unit outcome \<times> 's" where
  "run_all f [] s = (Ok (), s)"
| "run_all f (x # xs) s = and_then (f x s) (\<lambda>_ s. run_all f xs s)"

lemma run_all_append:
  "run_all f (xs @ ys) s = and_then (run_all f xs s) (\<lambda>_ s. run_all f ys s)"
proof (induction xs arbitrary: s)
  case (Cons x xs)
  then show ?case by (cases "f x s"; cases "fst (f x s)") auto
qed simp

lemmas outcome_iffs = bind_ok_Ok_iff bind_ok_Panic_iff and_then_Ok_iff

subsection \<open>Indexing and slicing\<close>

definition idx :: "'a list \<Rightarrow> nat \<Rightarrow> 'a outcome" where
  "idx xs i = (if i < length xs then Ok (xs ! i) else Panic)"

definition slice :: "'a list \<Rightarrow> nat \<Rightarrow> nat \<Rightarrow> 'a list outcome" where
  "slice xs a b = (if a \<le> b \<and> b \<le> length xs then Ok (take (b - a) (drop a xs)) else Panic)"

lemma idx_Ok_iff: "idx xs i = Ok x \<longleftrightarrow> i < length xs \<and> x = xs ! i"
  by (auto simp: idx_def)

lemma slice_Ok_iff:
  "slice xs a b = Ok ys \<longleftrightarrow> a \<le> b \<and> b \<le> length xs \<and> ys = take (b - a) (drop a xs)"
  by (auto simp: slice_def)

lemma idx_append [simp]: "i < length xs \<Longrightarrow> idx (xs @ ys) i = idx xs i"
  by (simp add: idx_def nth_append)

lemma slice_append [simp]: "b \<le> length xs \<Longrightarrow> slice (xs @ ys) a b = slice xs a b"
  by (auto simp: slice_def)

section \<open>Big-endian integers\<close>

definition u16_to_be_bytes :: "u16 \<Rightarrow> bytes" where
  "u16_to_be_bytes w = [ucast (drop_bit 8 w), ucast w]"

definition u16_from_be :: "u8 \<Rightarrow> u8 \<Rightarrow> u16" where
  "u16_from_be a b = push_bit 8 (ucast a) OR ucast b"

definition u32_to_be_bytes :: "u32 \<Rightarrow> bytes" where
  "u32_to_be_bytes w = [ucast (drop_bit 24 w), ucast (drop_bit 16 w), ucast (drop_bit 8 w), ucast w]"

definition u32_from_be :: "u8 \<Rightarrow> u8 \<Rightarrow> u8 \<Rightarrow> u8 \<Rightarrow> u32" where
  "u32_from_be a b c d =
     push_bit 24 (ucast a) OR push_bit 16 (ucast b) OR push_bit 8 (ucast c) OR ucast d"

lemma bit_u8_high [simp]: "8 \<le> n \<Longrightarrow> \<not> bit (b :: u8) n"
  using bit_imp_le_length [of b n] by auto

lemma u16_from_to_be [simp]: "u16_from_be (ucast (drop_bit 8 w)) (ucast w) = w"
  (is "?l = w")
proof (rule bit_word_eqI)
  fix n
  assume "n < LENGTH(16)"
  then show "bit ?l n = bit w n"
    by (cases "n < 8") (auto simp: u16_from_be_def bit_simps)
qed

lemma u16_to_from_be [simp]: "u16_to_be_bytes (u16_from_be a b) = [a, b]"
  by (auto simp: u16_to_be_bytes_def u16_from_be_def intro!: bit_word_eqI simp: bit_simps)

lemma u32_from_to_be [simp]:
  "u32_from_be (ucast (drop_bit 24 w)) (ucast (drop_bit 16 w)) (ucast (drop_bit 8 w)) (ucast w) = w"
  (is "?l = w")
proof (rule bit_word_eqI)
  fix n
  assume "n < LENGTH(32)"
  then consider "n < 8" | "8 \<le> n" "n < 16" | "16 \<le> n" "n < 24" | "24 \<le> n" "n < 32"
    by fastforce
  then show "bit ?l n = bit w n"
    by cases (auto simp: u32_from_be_def bit_simps)
qed

lemma u32_to_from_be [simp]: "u32_to_be_bytes (u32_from_be a b c d) = [a, b, c, d]"
  by (auto simp: u32_to_be_bytes_def u32_from_be_def intro!: bit_word_eqI simp: bit_simps)

lemma length_u16_to_be [simp]: "length (u16_to_be_bytes w) = 2"
  by (simp add: u16_to_be_bytes_def)

lemma length_u32_to_be [simp]: "length (u32_to_be_bytes w) = 4"
  by (simp add: u32_to_be_bytes_def)

section \<open>Tables: the interface of \<open>HashMap\<close>\<close>

text \<open>
  A \<open>HashMap\<close> is an association list with distinct keys; its order is the iteration order.
  What the components rely on is stated as an interface and discharged for the list.
\<close>

type_synonym ('k, 'v) hmap = "('k \<times> 'v) list"

abbreviation hm_get :: "('k, 'v) hmap \<Rightarrow> 'k \<Rightarrow> 'v option" where
  "hm_get \<equiv> map_of"

abbreviation hm_insert :: "'k \<Rightarrow> 'v \<Rightarrow> ('k, 'v) hmap \<Rightarrow> ('k, 'v) hmap" where
  "hm_insert \<equiv> AList.update"

abbreviation hm_remove :: "'k \<Rightarrow> ('k, 'v) hmap \<Rightarrow> ('k, 'v) hmap" where
  "hm_remove \<equiv> AList.delete"

definition hm_contains :: "('k, 'v) hmap \<Rightarrow> 'k \<Rightarrow> bool" where
  "hm_contains m k = (map_of m k \<noteq> None)"

definition hm_wf :: "('k, 'v) hmap \<Rightarrow> bool" where
  "hm_wf m = distinct (map fst m)"

locale table =
  fixes get :: "'m \<Rightarrow> 'k \<Rightarrow> 'v option"
    and ins :: "'k \<Rightarrow> 'v \<Rightarrow> 'm \<Rightarrow> 'm"
    and rem :: "'k \<Rightarrow> 'm \<Rightarrow> 'm"
    and wf :: "'m \<Rightarrow> bool"
  assumes get_ins: "get (ins k v m) k' = (if k' = k then Some v else get m k')"
    and get_rem: "get (rem k m) k' = (if k' = k then None else get m k')"
    and wf_ins: "wf m \<Longrightarrow> wf (ins k v m)"
    and wf_rem: "wf m \<Longrightarrow> wf (rem k m)"
begin

lemma get_rem_all: "get (fold rem ks m) k = (if k \<in> set ks then None else get m k)"
  by (induction ks arbitrary: m) (auto simp: get_rem)

lemma wf_rem_all: "wf m \<Longrightarrow> wf (fold rem ks m)"
  by (induction ks arbitrary: m) (auto simp: wf_rem)

lemma get_ins_rem_other: "k' \<noteq> k \<Longrightarrow> get (rem k (ins k v m)) k' = get m k'"
  by (simp add: get_ins get_rem)

end

interpretation hm: table "hm_get :: ('k, 'v) hmap \<Rightarrow> 'k \<Rightarrow> 'v option" hm_insert hm_remove hm_wf
proof unfold_locales
  show "hm_get (hm_insert k v m) k' = (if k' = k then Some v else hm_get m k')"
    for k k' :: 'k and v :: 'v and m
    by (simp add: update_conv')
  show "hm_get (hm_remove k m) k' = (if k' = k then None else hm_get m k')"
    for k k' :: 'k and m :: "('k, 'v) hmap"
    by (simp add: delete_conv')
  show "hm_wf m \<Longrightarrow> hm_wf (hm_insert k v m)" for k :: 'k and v :: 'v and m
    by (simp add: hm_wf_def distinct_update)
  show "hm_wf m \<Longrightarrow> hm_wf (hm_remove k m)" for k :: 'k and m :: "('k, 'v) hmap"
    by (simp add: hm_wf_def distinct_delete)
qed

lemmas hm_lookups [simp] = hm.get_ins hm.get_rem

lemma hm_contains_simps [simp]:
  "hm_contains (hm_insert k v m) k' \<longleftrightarrow> k' = k \<or> hm_contains m k'"
  "hm_contains (hm_remove k m) k' \<longleftrightarrow> k' \<noteq> k \<and> hm_contains m k'"
  "\<not> hm_contains [] k'"
  by (auto simp: hm_contains_def)

lemma hm_all_iff:
  "hm_wf m \<Longrightarrow> list_all (\<lambda>(k, v). Q k v) m \<longleftrightarrow> (\<forall>k v. hm_get m k = Some v \<longrightarrow> Q k v)"
  by (auto simp: list_all_iff hm_wf_def split: prod.splits dest: map_of_SomeD)

section \<open>Channels: the interface of \<open>mpsc\<close>\<close>

text \<open>
  A channel delivers in order; \<open>send\<close> fails once the receiver is closed or dropped, with the
  text of \<open>SendError\<close>. A full bounded channel only delays the sender, which is not a value.
\<close>

record 'm chan =
  queue :: "'m list"
  alive :: bool

definition new_chan :: "'m chan" where
  "new_chan = \<lparr>queue = [], alive = True\<rparr>"

definition chan_send :: "'m \<Rightarrow> 'm chan \<Rightarrow> unit outcome \<times> 'm chan" where
  "chan_send m c =
     (if alive c then (Ok (), c\<lparr>queue := queue c @ [m]\<rparr>) else (Err ''channel closed'', c))"

definition chan_recv :: "'m chan \<Rightarrow> ('m \<times> 'm chan) option" where
  "chan_recv c = (case queue c of [] \<Rightarrow> None | m # ms \<Rightarrow> Some (m, c\<lparr>queue := ms\<rparr>))"

fun chan_drain :: "nat \<Rightarrow> 'm chan \<Rightarrow> 'm list" where
  "chan_drain 0 c = []"
| "chan_drain (Suc n) c = (case chan_recv c of None \<Rightarrow> [] | Some (m, c') \<Rightarrow> m # chan_drain n c')"

locale fifo =
  fixes send :: "'m \<Rightarrow> 'c \<Rightarrow> unit outcome \<times> 'c"
    and recv :: "'c \<Rightarrow> ('m \<times> 'c) option"
    and contents :: "'c \<Rightarrow> 'm list"
    and live :: "'c \<Rightarrow> bool"
  assumes send_live: "live c \<Longrightarrow>
      fst (send m c) = Ok () \<and> contents (snd (send m c)) = contents c @ [m] \<and> live (snd (send m c))"
    and send_dead: "\<not> live c \<Longrightarrow> snd (send m c) = c \<and> \<not> is_Ok (fst (send m c))"
    and recv_empty: "contents c = [] \<Longrightarrow> recv c = None"
    and recv_first: "contents c = m # ms \<Longrightarrow> \<exists>c'. recv c = Some (m, c') \<and> contents c' = ms"
begin

lemma send_all_contents:
  "live c \<Longrightarrow> contents (fold (\<lambda>m c. snd (send m c)) ms c) = contents c @ ms"
  by (induction ms arbitrary: c) (auto simp: send_live)

lemma send_all_dead: "\<not> live c \<Longrightarrow> fold (\<lambda>m c. snd (send m c)) ms c = c"
  by (induction ms) (auto simp: send_dead)

lemma recv_first_sent:
  "live c \<Longrightarrow> contents c = [] \<Longrightarrow>
   \<exists>c'. recv (fold (\<lambda>m c. snd (send m c)) (m # ms) c) = Some (m, c') \<and> contents c' = ms"
  using send_all_contents [of c "m # ms"] recv_first by simp

end

interpretation ch: fifo chan_send chan_recv queue alive
proof unfold_locales
  show "alive c \<Longrightarrow> fst (chan_send m c) = Ok () \<and> queue (snd (chan_send m c)) = queue c @ [m]
      \<and> alive (snd (chan_send m c))" for c :: "'a chan" and m
    by (simp add: chan_send_def)
  show "\<not> alive c \<Longrightarrow> snd (chan_send m c) = c \<and> \<not> is_Ok (fst (chan_send m c))"
    for c :: "'a chan" and m
    by (simp add: chan_send_def)
  show "queue c = [] \<Longrightarrow> chan_recv c = None" for c :: "'a chan"
    by (simp add: chan_recv_def)
  show "queue c = m # ms \<Longrightarrow> \<exists>c'. chan_recv c = Some (m, c') \<and> queue c' = ms"
    for c :: "'a chan" and m ms
    by (simp add: chan_recv_def)
qed

lemma chan_drain_all: "length (queue c) \<le> n \<Longrightarrow> chan_drain n c = queue c"
proof (induction n arbitrary: c)
  case 0
  then show ?case by simp
next
  case (Suc n)
  show ?case
  proof (cases "queue c")
    case Nil
    then show ?thesis by (simp add: chan_recv_def)
  next
    case (Cons m ms)
    with Suc.prems have "chan_drain n (c\<lparr>queue := ms\<rparr>) = ms"
      by (subst Suc.IH) simp_all
    with Cons show ?thesis by (simp add: chan_recv_def)
  qed
qed

end
