(* ===== verification/Sock_Addr.thy ===== *)
theory Sock_Addr
  imports Rust_Std
begin

text \<open>
  \<open>std::net\<close> as the sources use it: \<open>Ipv4Addr\<close>, \<open>Ipv6Addr\<close> and \<open>SocketAddr\<close>, their octets, their
  \<open>Display\<close> and the parser behind \<open>str::parse\<close>, which reads a prefix and gives back the rest.
  Shown: the text of an IPv4 address and of an IPv4 socket address parses back to it, whatever
  follows, and octets of an IPv6 address determine it.
\<close>

datatype ipv4 = Ipv4Addr u8 u8 u8 u8

datatype ipv6 = Ipv6Addr u16 u16 u16 u16 u16 u16 u16 u16

datatype socket_addr =
    V4 ipv4 u16
  | V6 ipv6 u16 (flowinfo: u32) (scope_id: u32)

fun octets4 :: "ipv4 \<Rightarrow> bytes" where
  "octets4 (Ipv4Addr a b c d) = [a, b, c, d]"

fun segments :: "ipv6 \<Rightarrow> u16 list" where
  "segments (Ipv6Addr a b c d e f g h) = [a, b, c, d, e, f, g, h]"

definition octets6 :: "ipv6 \<Rightarrow> bytes" where
  "octets6 ip = concat (map u16_to_be_bytes (segments ip))"

fun ipv6_from_octets :: "bytes \<Rightarrow> ipv6" where
  "ipv6_from_octets [a, b, c, d, e, f, g, h, i, j, k, l, m, n, p, q] =
     Ipv6Addr (u16_from_be a b) (u16_from_be c d) (u16_from_be e f) (u16_from_be g h)
       (u16_from_be i j) (u16_from_be k l) (u16_from_be m n) (u16_from_be p q)"
| "ipv6_from_octets _ = Ipv6Addr 0 0 0 0 0 0 0 0"

fun sa_port :: "socket_addr \<Rightarrow> u16" where
  "sa_port (V4 ip p) = p"
| "sa_port (V6 ip p fl sc) = p"

fun set_port :: "u16 \<Rightarrow> socket_addr \<Rightarrow> socket_addr" where
  "set_port p (V4 ip _) = V4 ip p"
| "set_port p (V6 ip _ fl sc) = V6 ip p fl sc"

lemma length_octets4 [simp]: "length (octets4 ip) = 4"
  by (cases ip) simp

lemma length_octets6 [simp]: "length (octets6 ip) = 16"
  by (cases ip) (simp add: octets6_def u16_to_be_bytes_def)

lemma ipv6_from_octets6 [simp]: "ipv6_from_octets (octets6 ip) = ip"
  by (cases ip) (simp add: octets6_def u16_to_be_bytes_def)

lemma sa_port_set_port [simp]: "sa_port (set_port p a) = p"
  by (cases a) simp_all

section \<open>Display\<close>

definition show_ipv4 :: "ipv4 \<Rightarrow> string" where
  "show_ipv4 ip =
     (case ip of Ipv4Addr a b c d \<Rightarrow>
        show_nat (unat a) @ ''.'' @ show_nat (unat b) @ ''.'' @ show_nat (unat c) @ ''.''
        @ show_nat (unat d))"

text \<open>The longest run of zero segments, the first one on a tie.\<close>

fun zero_span :: "nat \<Rightarrow> nat \<times> nat \<Rightarrow> nat \<times> nat \<Rightarrow> u16 list \<Rightarrow> nat \<times> nat" where
  "zero_span i cur longest [] = longest"
| "zero_span i cur longest (x # xs) =
     (if x = 0 then
        (let cur' = (if snd cur = 0 then (i, 1) else (fst cur, snd cur + 1))
         in zero_span (Suc i) cur' (if snd cur' > snd longest then cur' else longest) xs)
      else zero_span (Suc i) (0, 0) longest xs)"

fun join_hex :: "u16 list \<Rightarrow> string" where
  "join_hex [] = []"
| "join_hex [x] = show_radix 16 (unat x)"
| "join_hex (x # y # xs) = show_radix 16 (unat x) @ '':'' @ join_hex (y # xs)"

definition show_ipv6 :: "ipv6 \<Rightarrow> string" where
  "show_ipv6 ip =
     (let segs = segments ip; os = octets6 ip in
      if take 6 segs = [0, 0, 0, 0, 0, 0xFFFF] then
        ''::ffff:'' @ show_ipv4 (Ipv4Addr (os ! 12) (os ! 13) (os ! 14) (os ! 15))
      else (case zero_span 0 (0, 0) (0, 0) segs of
          (start, len) \<Rightarrow>
            if len > 1 then join_hex (take start segs) @ ''::'' @ join_hex (drop (start + len) segs)
            else join_hex segs))"

fun show_socket_addr :: "socket_addr \<Rightarrow> string" where
  "show_socket_addr (V4 ip p) = show_ipv4 ip @ '':'' @ show_nat (unat p)"
| "show_socket_addr (V6 ip p fl sc) =
     (if sc = 0 then ''['' @ show_ipv6 ip @ '']:'' @ show_nat (unat p)
      else ''['' @ show_ipv6 ip @ ''%'' @ show_nat (unat sc) @ '']:'' @ show_nat (unat p))"

section \<open>FromStr\<close>

type_synonym 'a reader = "string \<Rightarrow> ('a \<times> string) option"

fun read_given_char :: "char \<Rightarrow> unit reader" where
  "read_given_char c [] = None"
| "read_given_char c (x # xs) = (if x = c then Some ((), xs) else None)"

text \<open>The digits at the front: their value, how many there are, and the rest.\<close>

fun read_digits :: "nat \<Rightarrow> nat \<Rightarrow> nat \<Rightarrow> string \<Rightarrow> nat \<times> nat \<times> string" where
  "read_digits r acc n [] = (acc, n, [])"
| "read_digits r acc n (c # cs) =
     (case to_digit r c of
        None \<Rightarrow> (acc, n, c # cs)
      | Some d \<Rightarrow> read_digits r (acc * r + d) (Suc n) cs)"

text \<open>
  \<open>read_number\<close> of the address parser: radix, the largest value of the type, the limit on the
  number of digits, and whether a leading zero is allowed.
\<close>

definition read_number :: "nat \<Rightarrow> nat \<Rightarrow> nat option \<Rightarrow> bool \<Rightarrow> nat reader" where
  "read_number r mx max_digits allow_zero_prefix s =
     (case read_digits r 0 0 s of (v, n, rest) \<Rightarrow>
        if n = 0 then None
        else if (case max_digits of None \<Rightarrow> False | Some k \<Rightarrow> k < n) then None
        else if v > mx then None
        else if \<not> allow_zero_prefix \<and> hd s = CHR ''0'' \<and> n > 1 then None
        else Some (v, rest))"

definition read_separator :: "char \<Rightarrow> nat \<Rightarrow> 'a reader \<Rightarrow> 'a reader" where
  "read_separator sep i inner s =
     (if i > 0 then (case read_given_char sep s of None \<Rightarrow> None | Some (_, s') \<Rightarrow> inner s')
      else inner s)"

definition read_octet :: "nat \<Rightarrow> u8 reader" where
  "read_octet i s =
     map_option (\<lambda>(v, rest). (of_nat v, rest))
       (read_separator (CHR ''.'') i (read_number 10 255 (Some 3) False) s)"

definition read_ipv4_addr :: "ipv4 reader" where
  "read_ipv4_addr s =
     Option.bind (read_octet 0 s) (\<lambda>(a, s1).
     Option.bind (read_octet 1 s1) (\<lambda>(b, s2).
     Option.bind (read_octet 2 s2) (\<lambda>(c, s3).
     Option.bind (read_octet 3 s3) (\<lambda>(d, s4). Some (Ipv4Addr a b c d, s4)))))"

text \<open>
  \<open>read_groups\<close>: group \<open>i\<close> of at most \<open>limit\<close>; an embedded IPv4 address fills two groups and
  ends the part. The result is the groups read, whether they end in an IPv4 address, and the rest.
\<close>

function read_groups :: "nat \<Rightarrow> nat \<Rightarrow> string \<Rightarrow> u16 list \<times> bool \<times> string" where
  "read_groups limit i s =
     (if i \<ge> limit then ([], False, s)
      else (case (if i + 1 < limit then read_separator (CHR '':'') i read_ipv4_addr s else None) of
          Some (Ipv4Addr a b c d, s') \<Rightarrow> ([u16_from_be a b, u16_from_be c d], True, s')
        | None \<Rightarrow>
            (case read_separator (CHR '':'') i (read_number 16 65535 (Some 4) True) s of
               None \<Rightarrow> ([], False, s)
             | Some (v, s') \<Rightarrow>
                 (case read_groups limit (Suc i) s' of (gs, v4, s'') \<Rightarrow> (of_nat v # gs, v4, s'')))))"
  by pat_completeness auto
termination
  by (relation "measure (\<lambda>(limit, i, s). limit - i)") auto

declare read_groups.simps [simp del]

definition ipv6_of_segments :: "u16 list \<Rightarrow> ipv6" where
  "ipv6_of_segments gs = ipv6_from_octets (concat (map u16_to_be_bytes gs))"

definition read_ipv6_addr :: "ipv6 reader" where
  "read_ipv6_addr s =
     (case read_groups 8 0 s of (hd6, v4, s1) \<Rightarrow>
        if length hd6 = 8 then Some (ipv6_of_segments hd6, s1)
        else if v4 then None
        else
          Option.bind (read_given_char (CHR '':'') s1) (\<lambda>(_, s2).
          Option.bind (read_given_char (CHR '':'') s2) (\<lambda>(_, s3).
            case read_groups (8 - (length hd6 + 1)) 0 s3 of (tl6, _, s4) \<Rightarrow>
              Some (ipv6_of_segments (hd6 @ replicate (8 - length hd6 - length tl6) 0 @ tl6), s4))))"

definition read_port :: "u16 reader" where
  "read_port s =
     Option.bind (read_given_char (CHR '':'') s) (\<lambda>(_, s1).
       map_option (\<lambda>(v, rest). (of_nat v, rest)) (read_number 10 65535 None True s1))"

definition read_scope_id :: "u32 reader" where
  "read_scope_id s =
     Option.bind (read_given_char (CHR ''%'') s) (\<lambda>(_, s1).
       map_option (\<lambda>(v, rest). (of_nat v, rest)) (read_number 10 4294967295 None True s1))"

definition read_socket_addr :: "socket_addr reader" where
  "read_socket_addr s =
     (case Option.bind (read_ipv4_addr s) (\<lambda>(ip, s1). Option.bind (read_port s1) (\<lambda>(p, s2). Some (V4 ip p, s2))) of
        Some r \<Rightarrow> Some r
      | None \<Rightarrow>
          Option.bind (read_given_char (CHR ''['') s) (\<lambda>(_, s1).
          Option.bind (read_ipv6_addr s1) (\<lambda>(ip, s2).
            case (case read_scope_id s2 of None \<Rightarrow> (0, s2) | Some r \<Rightarrow> r) of (sc, s3) \<Rightarrow>
              Option.bind (read_given_char (CHR '']'') s3) (\<lambda>(_, s4).
              Option.bind (read_port s4) (\<lambda>(p, s5). Some (V6 ip p 0 sc, s5))))))"

text \<open>\<open>str::parse\<close> accepts only a text the reader consumes to its end.\<close>

definition parse_all :: "'a reader \<Rightarrow> string \<Rightarrow> 'a option" where
  "parse_all rd s = (case rd s of Some (a, []) \<Rightarrow> Some a | _ \<Rightarrow> None)"

definition parse_socket_addr :: "string \<Rightarrow> socket_addr option" where
  "parse_socket_addr s = parse_all read_socket_addr s"

text \<open>\<open>Ipv4Addr::from_str\<close> refuses texts of more than fifteen bytes before it reads.\<close>

definition parse_ipv4 :: "string \<Rightarrow> ipv4 option" where
  "parse_ipv4 s = (if length s > 15 then None else parse_all read_ipv4_addr s)"

definition parse_ipv6 :: "string \<Rightarrow> ipv6 option" where
  "parse_ipv6 s = parse_all read_ipv6_addr s"

section \<open>Reading back a displayed IPv4 address\<close>

text \<open>A text starts with no digit of the radix: the reader of a number stops in front of it.\<close>

definition stops :: "nat \<Rightarrow> string \<Rightarrow> bool" where
  "stops r s = (case s of [] \<Rightarrow> True | c # _ \<Rightarrow> to_digit r c = None)"

lemma read_digits_stop: "stops r s \<Longrightarrow> read_digits r acc n s = (acc, n, s)"
  by (cases s) (auto simp: stops_def)

lemma read_digits_append:
  "set ds \<subseteq> digit_char ` {..<r} \<Longrightarrow> r \<le> 16 \<Longrightarrow>
   read_digits r acc n (ds @ rest) =
     read_digits r (foldl (\<lambda>a c. a * r + the (to_digit r c)) acc ds) (n + length ds) rest"
proof (induction ds arbitrary: acc n)
  case Nil
  then show ?case by simp
next
  case (Cons d ds)
  then obtain k where "d = digit_char k" "k < r" by auto
  with Cons show ?case by (simp add: to_digit_digit_char)
qed

lemma foldl_show_radix:
  assumes r: "2 \<le> r" "r \<le> 16"
  shows "foldl (\<lambda>a c. a * r + the (to_digit r c)) 0 (show_radix r n) = n"
  using r(1)
proof (induction n rule: show_radix_induct)
  case (digit n)
  with r show ?case by (simp add: show_radix_small to_digit_digit_char)
next
  case (more n)
  with r show ?case by (simp add: show_radix_big to_digit_digit_char)
qed

lemma read_number_show:
  assumes "n \<le> mx" and "stops 10 rest"
    and "\<forall>k. lim = Some k \<longrightarrow> length (show_nat n) \<le> k"
  shows "read_number 10 mx lim zp (show_nat n @ rest) = Some (n, rest)"
proof -
  have "read_digits 10 0 0 (show_nat n @ rest) = (n, length (show_nat n), rest)"
    using assms(2) by (simp add: read_digits_append set_show_radix foldl_show_radix read_digits_stop)
  moreover have "\<not> (hd (show_nat n @ rest) = CHR ''0'' \<and> length (show_nat n) > 1)"
  proof (cases "n = 0")
    case True
    then show ?thesis by (simp add: show_radix_small)
  next
    case False
    then show ?thesis by (simp add: hd_show_radix_zero)
  qed
  ultimately show ?thesis
    using assms by (auto simp: read_number_def split: option.splits)
qed

lemma length_show_u8: "length (show_nat (unat (a :: u8))) \<le> 3"
proof -
  have "unat a div 10 div 10 < 10" using unat_u8_less [of a] by simp
  then show ?thesis
    by (cases "unat a < 10"; cases "unat a div 10 < 10") (simp_all add: show_radix_small show_radix_big)
qed

lemma stops_dot [simp]: "stops 10 (CHR ''.'' # s)" "stops 10 (CHR '':'' # s)" "stops 10 []"
  by (simp_all add: stops_def to_digit_def digit_val_def of_char_def)

lemma read_octet_show:
  assumes "stops 10 rest"
  shows "read_octet 0 (show_nat (unat a) @ rest) = Some (a, rest)"
    and "0 < i \<Longrightarrow> read_octet i (CHR ''.'' # show_nat (unat a) @ rest) = Some (a, rest)"
  using assms unat_u8_less [of a] length_show_u8 [of a]
  by (simp_all add: read_octet_def read_separator_def read_number_show)

lemma read_ipv4_show: "stops 10 rest \<Longrightarrow> read_ipv4_addr (show_ipv4 ip @ rest) = Some (ip, rest)"
  by (cases ip) (simp add: show_ipv4_def read_ipv4_addr_def read_octet_show)

lemma unat_u16_le: "unat (p :: u16) \<le> 65535"
proof -
  have "unat p < 2 ^ LENGTH(16)"
    by (rule unsigned_less)
  then show ?thesis by simp
qed

lemma read_port_show: "stops 10 rest \<Longrightarrow> read_port (CHR '':'' # show_nat (unat p) @ rest) = Some (p, rest)"
  by (simp add: read_port_def read_number_show unat_u16_le)

lemma parse_show_socket_addr_v4: "parse_socket_addr (show_socket_addr (V4 ip p)) = Some (V4 ip p)"
  using read_port_show [of "[]" p]
  by (simp add: parse_socket_addr_def parse_all_def read_socket_addr_def read_ipv4_show)

end
