(* ===== verification/Proxy_Core.thy ===== *)
theory Proxy_Core
  imports Sock_Addr
begin

text \<open>
  The vocabulary shared by the two ends of a tunnel: \<open>WriterMessage\<close> (np\_base/src/net/mod.rs),
  \<open>ProxyMessage\<close> (np\_base/src/proxy/mod.rs), \<open>InletProxyType\<close> (np\_base/src/proxy/inlet.rs), and
  the store that the shared handles of the code point into: senders of channels and the
  \<open>Arc<RwLock<usize>>\<close> counters are references, so that two clones of a handle alias.
\<close>

datatype 'cb writer_message =
    Close
  | Flush
  | CloseDelayed nat
  | Send bytes bool
  | SendTo bytes socket_addr
  | SendAndThen bytes 'cb

datatype proxy_message =
    I2oConnect u32 u8 bool bool string string string string
  | O2iConnect u32 bool string
  | I2oSendData u32 bytes
  | I2oSendToData u32 bytes string
  | O2iSendDataResult u32 nat
  | O2iRecvDataFrom u32 bytes string
  | O2iRecvData u32 bytes
  | I2oRecvDataResult u32 nat
  | I2oDisconnect u32
  | O2iDisconnect u32

fun msg_session :: "proxy_message \<Rightarrow> u32" where
  "msg_session (I2oConnect s _ _ _ _ _ _ _) = s"
| "msg_session (O2iConnect s _ _) = s"
| "msg_session (I2oSendData s _) = s"
| "msg_session (I2oSendToData s _ _) = s"
| "msg_session (O2iSendDataResult s _) = s"
| "msg_session (O2iRecvDataFrom s _ _) = s"
| "msg_session (O2iRecvData s _) = s"
| "msg_session (I2oRecvDataResult s _) = s"
| "msg_session (I2oDisconnect s) = s"
| "msg_session (O2iDisconnect s) = s"

section \<open>\<open>InletProxyType\<close>\<close>

datatype inlet_proxy_type = TCP | UDP | SOCKS5

definition from_u32 :: "u32 \<Rightarrow> inlet_proxy_type option" where
  "from_u32 value =
     (if value = 0 then Some TCP else if value = 1 then Some UDP
      else if value = 2 then Some SOCKS5 else None)"

fun to_u8 :: "inlet_proxy_type \<Rightarrow> u8" where
  "to_u8 TCP = 0"
| "to_u8 UDP = 1"
| "to_u8 SOCKS5 = 2"

fun is_socks5 :: "inlet_proxy_type \<Rightarrow> bool" where
  "is_socks5 SOCKS5 = True"
| "is_socks5 _ = False"

fun is_tcp :: "inlet_proxy_type \<Rightarrow> bool" where
  "is_tcp TCP = True"
| "is_tcp _ = False"

lemma from_u32_to_u8 [simp]: "from_u32 (ucast (to_u8 t)) = Some t"
  by (cases t) (simp_all add: from_u32_def)

section \<open>The store behind the shared handles\<close>

text \<open>
  A callback of \<open>SendAndThen\<close> only ever sends one message on the \<open>output\<close> channel: it is that
  channel with that message.
\<close>

type_synonym chan_ref = nat
type_synonym counter_ref = nat
type_synonym callback = "chan_ref \<times> proxy_message"
type_synonym wmsg = "callback writer_message"

record world =
  wchans :: "chan_ref \<Rightarrow> wmsg chan"
  pchans :: "chan_ref \<Rightarrow> proxy_message chan"
  bufs :: "counter_ref \<Rightarrow> nat"

definition init_world :: world where
  "init_world = \<lparr>wchans = (\<lambda>_. new_chan), pchans = (\<lambda>_. new_chan), bufs = (\<lambda>_. 0)\<rparr>"

definition send_w :: "chan_ref \<Rightarrow> wmsg \<Rightarrow> world \<Rightarrow> unit outcome \<times> world" where
  "send_w c m w =
     (case chan_send m (wchans w c) of (r, ch) \<Rightarrow> (r, w\<lparr>wchans := (wchans w)(c := ch)\<rparr>))"

definition send_p :: "chan_ref \<Rightarrow> proxy_message \<Rightarrow> world \<Rightarrow> unit outcome \<times> world" where
  "send_p c m w =
     (case chan_send m (pchans w c) of (r, ch) \<Rightarrow> (r, w\<lparr>pchans := (pchans w)(c := ch)\<rparr>))"

text \<open>\<open>let _ = tx.send(..)\<close>: the outcome is dropped.\<close>

definition send_w_ignore :: "chan_ref \<Rightarrow> wmsg \<Rightarrow> world \<Rightarrow> world" where
  "send_w_ignore c m w = snd (send_w c m w)"

definition send_p_ignore :: "chan_ref \<Rightarrow> proxy_message \<Rightarrow> world \<Rightarrow> world" where
  "send_p_ignore c m w = snd (send_p c m w)"

abbreviation wqueue :: "world \<Rightarrow> chan_ref \<Rightarrow> wmsg list" where
  "wqueue w c \<equiv> queue (wchans w c)"

abbreviation pqueue :: "world \<Rightarrow> chan_ref \<Rightarrow> proxy_message list" where
  "pqueue w c \<equiv> queue (pchans w c)"

lemma send_w_alive:
  "alive (wchans w c) \<Longrightarrow>
   send_w c m w = (Ok (), w\<lparr>wchans := (wchans w)(c := (wchans w c)\<lparr>queue := wqueue w c @ [m]\<rparr>)\<rparr>)"
  by (simp add: send_w_def chan_send_def)

lemma send_p_alive:
  "alive (pchans w c) \<Longrightarrow>
   send_p c m w = (Ok (), w\<lparr>pchans := (pchans w)(c := (pchans w c)\<lparr>queue := pqueue w c @ [m]\<rparr>)\<rparr>)"
  by (simp add: send_p_def chan_send_def)

lemma send_w_closed: "\<not> alive (wchans w c) \<Longrightarrow> send_w c m w = (Err ''channel closed'', w)"
  by (simp add: send_w_def chan_send_def)

lemma send_p_closed: "\<not> alive (pchans w c) \<Longrightarrow> send_p c m w = (Err ''channel closed'', w)"
  by (simp add: send_p_def chan_send_def)

lemma send_outcomes [simp]:
  "fst (send_w c m w) \<noteq> Panic" "fst (send_p c pm w) \<noteq> Panic"
  "fst (send_w c m w) \<noteq> Pending" "fst (send_p c pm w) \<noteq> Pending"
  by (simp_all add: send_w_def send_p_def chan_send_def)

lemma send_frames [simp]:
  "pchans (snd (send_w c m w)) = pchans w" "bufs (snd (send_w c m w)) = bufs w"
  "wchans (snd (send_p c pm w)) = wchans w" "bufs (snd (send_p c pm w)) = bufs w"
  "alive (wchans (snd (send_w c m w)) d) = alive (wchans w d)"
  "alive (pchans (snd (send_p c pm w)) d) = alive (pchans w d)"
  "d \<noteq> c \<Longrightarrow> wchans (snd (send_w c m w)) d = wchans w d"
  "d \<noteq> c \<Longrightarrow> pchans (snd (send_p c pm w)) d = pchans w d"
  by (auto simp: send_w_def send_p_def chan_send_def)

lemmas send_simps = send_w_alive send_p_alive send_w_closed send_p_closed
  send_w_ignore_def send_p_ignore_def

end
