(* ===== verification/Crypto.thy ===== *)
theory Crypto
  imports Proxy_Core
begin

text \<open>
  np\_base/src/proxy/crypto.rs. The block ciphers of \<open>simplestcrypt\<close>, the \<open>lz4_flex\<close> block format,
  base64 and the random number generator are other packages: they are the fields of \<open>libs\<close> and
  the argument \<open>gen_range\<close>, with what their documentation promises as \<open>libs_ok\<close> and
  \<open>gen_range_ok\<close>. Shown: the XOR cipher is an involution that keeps the length and equals the
  indexed formula, every method decrypts what it encrypted, and generated keys have the size and
  the range of bytes the code asks for.
\<close>

section \<open>The packages the code calls\<close>

record libs =
  compress_prepend_size :: "bytes \<Rightarrow> bytes"
  decompress_size_prepended :: "bytes \<Rightarrow> string + bytes"
  encrypt_and_serialize :: "bytes \<Rightarrow> bytes \<Rightarrow> string + bytes"
  deserialize_and_decrypt :: "bytes \<Rightarrow> bytes \<Rightarrow> string + bytes"
  base64_encode :: "bytes \<Rightarrow> string"
  base64_decode :: "string \<Rightarrow> string + bytes"

definition lz4_ok :: "libs \<Rightarrow> bool" where
  "lz4_ok L \<longleftrightarrow> (\<forall>d. decompress_size_prepended L (compress_prepend_size L d) = Inr d)"

definition aes_ok :: "libs \<Rightarrow> bool" where
  "aes_ok L \<longleftrightarrow>
     (\<forall>k d c. encrypt_and_serialize L k d = Inr c \<longrightarrow> deserialize_and_decrypt L k c = Inr d)"

definition base64_ok :: "libs \<Rightarrow> bool" where
  "base64_ok L \<longleftrightarrow> (\<forall>d. base64_decode L (base64_encode L d) = Inr d)"

definition libs_ok :: "libs \<Rightarrow> bool" where
  "libs_ok L \<longleftrightarrow> lz4_ok L \<and> aes_ok L \<and> base64_ok L"

text \<open>\<open>Rng::gen_range(lo..hi)\<close>, the \<open>i\<close>-th draw.\<close>

type_synonym rng = "nat \<Rightarrow> nat \<Rightarrow> nat \<Rightarrow> nat"

definition gen_range_ok :: "rng \<Rightarrow> bool" where
  "gen_range_ok gen_range \<longleftrightarrow>
     (\<forall>i lo hi. lo < hi \<longrightarrow> lo \<le> gen_range i lo hi \<and> gen_range i lo hi < hi)"

section \<open>Definitions\<close>

definition compress_data :: "libs \<Rightarrow> bytes \<Rightarrow> bytes outcome" where
  "compress_data L input = Ok (compress_prepend_size L input)"

definition decompress_data :: "libs \<Rightarrow> bytes \<Rightarrow> bytes outcome" where
  "decompress_data L compressed =
     (case decompress_size_prepended L compressed of
        Inl _ \<Rightarrow> Panic
      | Inr uncompressed \<Rightarrow> Ok uncompressed)"

datatype encryption_method = MethodNone | Aes128 | Xor

fun method_is_none :: "encryption_method \<Rightarrow> bool" where
  "method_is_none MethodNone = True"
| "method_is_none _ = False"

definition get_method :: "string \<Rightarrow> encryption_method" where
  "get_method m =
     (if m = ''Aes128'' then Aes128 else if m = ''None'' then MethodNone
      else if m = ''Xor'' then Xor else MethodNone)"

fun method_to_string :: "encryption_method \<Rightarrow> string" where
  "method_to_string MethodNone = ''None''"
| "method_to_string Aes128 = ''Aes128''"
| "method_to_string Xor = ''Xor''"

fun generate_key :: "rng \<Rightarrow> encryption_method \<Rightarrow> bytes" where
  "generate_key gen_range MethodNone = as_bytes ''None''"
| "generate_key gen_range Aes128 = map (\<lambda>i. of_nat (gen_range i 33 127)) [0..<32]"
| "generate_key gen_range Xor =
     (let key_len = gen_range 0 8 64
      in map (\<lambda>i. of_nat (gen_range (Suc i) 1 255)) [0..<key_len])"

text \<open>
  \<open>data.iter_mut().zip(key.iter().cycle())\<close>: the second argument is what is left of the key in
  the current round; cycling an empty key yields nothing, so the data stays.
\<close>

fun xor_cycle :: "bytes \<Rightarrow> bytes \<Rightarrow> bytes \<Rightarrow> bytes" where
  "xor_cycle key ks [] = []"
| "xor_cycle key (k # ks) (d # ds) = (d XOR k) # xor_cycle key ks ds"
| "xor_cycle key [] (d # ds) =
     (case key of [] \<Rightarrow> d # ds | k # ks \<Rightarrow> (d XOR k) # xor_cycle key ks ds)"

definition xor_encrypt_decrypt :: "bytes \<Rightarrow> bytes \<Rightarrow> bytes" where
  "xor_encrypt_decrypt data key = xor_cycle key key data"

fun encrypt :: "libs \<Rightarrow> encryption_method \<Rightarrow> bytes \<Rightarrow> bytes \<Rightarrow> bytes outcome" where
  "encrypt L MethodNone key data = Ok data"
| "encrypt L Aes128 key data =
     (case encrypt_and_serialize L key data of
        Inr c \<Rightarrow> Ok c
      | Inl err \<Rightarrow> Err (''encrypt_and_serialize error: '' @ err))"
| "encrypt L Xor key data =
     (if key = [] then Ok data else Ok (xor_encrypt_decrypt data key))"

fun decrypt :: "libs \<Rightarrow> encryption_method \<Rightarrow> bytes \<Rightarrow> bytes \<Rightarrow> bytes outcome" where
  "decrypt L MethodNone key data = Ok data"
| "decrypt L Aes128 key data =
     (case deserialize_and_decrypt L key data of
        Inr p \<Rightarrow> Ok p
      | Inl err \<Rightarrow> Err (''deserialize_and_decrypt error: '' @ err))"
| "decrypt L Xor key data =
     (if key = [] then Ok data else Ok (xor_encrypt_decrypt data key))"

section \<open>The XOR cipher\<close>

lemma length_xor_cycle [simp]: "length (xor_cycle key ks ds) = length ds"
  by (induction key ks ds rule: xor_cycle.induct) (auto split: list.splits)

lemma xor_cycle_involution: "xor_cycle key ks (xor_cycle key ks ds) = ds"
  by (induction key ks ds rule: xor_cycle.induct) (auto simp: xor.assoc split: list.splits)

lemma xor_cycle_nth:
  assumes "key \<noteq> []" and "ks = drop j key" and "j \<le> length key" and "i < length ds"
  shows "xor_cycle key ks ds ! i = ds ! i XOR key ! ((i + j) mod length key)"
  using assms
proof (induction key ks ds arbitrary: i j rule: xor_cycle.induct)
  case (1 key ks)
  then show ?case by simp
next
  case (2 key k ks d ds)
  then have j: "j < length key" by (metis drop_all leI list.distinct(1))
  with 2 have k: "k = key ! j" "ks = drop (Suc j) key"
    by (metis Cons_nth_drop_Suc list.inject)+
  show ?case
  proof (cases i)
    case 0
    with j k show ?thesis by simp
  next
    case (Suc n)
    have "xor_cycle key ks ds ! n = ds ! n XOR key ! ((n + Suc j) mod length key)"
      using 2(2,5) j k Suc by (intro 2(1)) simp_all
    with Suc show ?thesis by simp
  qed
next
  case (3 key d ds)
  then have j: "j = length key" by simp
  obtain k ks where key: "key = k # ks" using 3(2) by (cases key) auto
  show ?case
  proof (cases i)
    case 0
    with j key show ?thesis by simp
  next
    case (Suc n)
    have "xor_cycle key ks ds ! n = ds ! n XOR key ! ((n + 1) mod length key)"
      using 3 key Suc by (intro 3(1) [OF key]) simp_all
    moreover have "(i + j) mod length key = (n + 1) mod length key"
      unfolding j Suc by (metis Suc_eq_plus1 mod_add_self2)
    ultimately show ?thesis using key Suc by simp
  qed
qed

text \<open>A cipher whose decryption undoes its encryption under every key.\<close>

locale cipher =
  fixes enc :: "bytes \<Rightarrow> bytes \<Rightarrow> bytes outcome"
    and dec :: "bytes \<Rightarrow> bytes \<Rightarrow> bytes outcome"
  assumes dec_enc: "enc k d = Ok c \<Longrightarrow> dec k c = Ok d"
begin

lemma enc_inject: "enc k d = Ok c \<Longrightarrow> enc k d' = Ok c \<Longrightarrow> d = d'"
  using dec_enc by (metis outcome.inject(1))

lemma dec_enc_list:
  "list_all2 (\<lambda>d c. enc k d = Ok c) ds cs \<Longrightarrow> list_all2 (\<lambda>c d. dec k c = Ok d) cs ds"
  by (simp add: list_all2_conv_all_nth dec_enc)

end

lemma xor_encrypt_decrypt_involution:
  "xor_encrypt_decrypt (xor_encrypt_decrypt data key) key = data"
  by (simp add: xor_encrypt_decrypt_def xor_cycle_involution)

interpretation xor_cipher: cipher "encrypt L Xor" "decrypt L Xor" for L
  by unfold_locales (auto simp: xor_encrypt_decrypt_involution split: if_splits)

interpretation none_cipher: cipher "encrypt L MethodNone" "decrypt L MethodNone" for L
  by unfold_locales simp

lemma decrypt_encrypt:
  assumes "aes_ok L" and "encrypt L m key data = Ok c"
  shows "decrypt L m key c = Ok data"
proof (cases m)
  case Aes128
  with assms show ?thesis by (auto simp: aes_ok_def split: sum.splits)
qed (use assms none_cipher.dec_enc xor_cipher.dec_enc in blast)+

lemma encrypt_no_panic: "encrypt L m key data \<noteq> Panic" "encrypt L m key data \<noteq> Pending"
  by (cases m; auto split: sum.splits)+

lemma get_method_to_string [simp]: "get_method (method_to_string m) = m"
  by (cases m) (simp_all add: get_method_def)

text \<open>
  The XOR cipher combines byte \<open>i\<close> with key byte \<open>i mod length key\<close>, keeps the length of the
  data, and applying it twice with the same key gives the data back.
\<close>

theorem xor_encrypt_decrypt_spec:
  assumes "key \<noteq> []"
  shows "xor_encrypt_decrypt data key = map (\<lambda>i. data ! i XOR key ! (i mod length key)) [0..<length data]
    \<and> length (xor_encrypt_decrypt data key) = length data
    \<and> xor_encrypt_decrypt (xor_encrypt_decrypt data key) key = data"
proof -
  have "xor_encrypt_decrypt data key = map (\<lambda>i. data ! i XOR key ! (i mod length key)) [0..<length data]"
    using assms xor_cycle_nth [OF assms, of key 0]
    by (intro nth_equalityI) (simp_all add: xor_encrypt_decrypt_def)
  moreover have "length (xor_encrypt_decrypt data key) = length data"
    by (simp add: xor_encrypt_decrypt_def)
  ultimately show ?thesis
    using xor_encrypt_decrypt_involution by blast
qed

theorem xor_encrypt_decrypt_spec_witness:
  "xor_encrypt_decrypt [1, 2, 3] [7, 5] = [1 XOR 7, 2 XOR 5, 3 XOR 7]"
  using xor_encrypt_decrypt_spec [of "[7, 5]" "[1, 2, 3]"]
  by (simp add: upt_rec)

text \<open>
  Every encryption method is undone by \<open>decrypt\<close> under the same key, provided the AES package
  decrypts what it encrypted.
\<close>

theorem decrypt_undoes_encrypt:
  assumes "aes_ok L" and "encrypt L m key data = Ok cipher_text"
  shows "decrypt L m key cipher_text = Ok data"
  using assms by (rule decrypt_encrypt)

text \<open>A concrete instance of the packages: tagging for AES and LZ4, the bytes themselves for base64.\<close>

definition demo_libs :: libs where
  "demo_libs =
     \<lparr>compress_prepend_size = (\<lambda>d. 0 # d),
      decompress_size_prepended = (\<lambda>d. case d of [] \<Rightarrow> Inl ''empty'' | x # xs \<Rightarrow> if x = 0 then Inr xs else Inl ''bad''),
      encrypt_and_serialize = (\<lambda>k d. Inr (k @ d)),
      deserialize_and_decrypt =
        (\<lambda>k c. if take (length k) c = k then Inr (drop (length k) c) else Inl ''bad key''),
      base64_encode = from_bytes,
      base64_decode = (\<lambda>s. Inr (as_bytes s))\<rparr>"

lemma demo_libs_ok: "libs_ok demo_libs"
  by (simp add: libs_ok_def lz4_ok_def aes_ok_def base64_ok_def demo_libs_def)

theorem decrypt_undoes_encrypt_witness:
  "decrypt demo_libs Aes128 [9] [9, 4, 5] = Ok [4, 5]"
proof -
  have "aes_ok demo_libs" using demo_libs_ok by (simp add: libs_ok_def)
  moreover have "encrypt demo_libs Aes128 [9] [4, 5] = Ok [9, 4, 5]"
    by (simp add: demo_libs_def)
  ultimately show ?thesis by (rule decrypt_undoes_encrypt)
qed

text \<open>
  A generated AES key has 32 bytes, all printable ASCII from 33 to 126; a generated XOR key has
  8 to 63 bytes, none of them 0 or 255, so the XOR cipher never meets an empty key.
\<close>

theorem generate_key_bounds:
  assumes "gen_range_ok gen_range"
  shows "length (generate_key gen_range Aes128) = 32
    \<and> list_all (\<lambda>b. 33 \<le> unat b \<and> unat b \<le> 126) (generate_key gen_range Aes128)
    \<and> 8 \<le> length (generate_key gen_range Xor) \<and> length (generate_key gen_range Xor) \<le> 63
    \<and> list_all (\<lambda>b. 1 \<le> unat b \<and> unat b \<le> 254) (generate_key gen_range Xor)"
proof -
  have range: "lo < hi \<Longrightarrow> hi \<le> 256 \<Longrightarrow>
      lo \<le> unat (of_nat (gen_range i lo hi) :: u8) \<and> unat (of_nat (gen_range i lo hi) :: u8) \<le> hi - 1"
    for i lo hi
  proof -
    assume "lo < hi" "hi \<le> 256"
    with assms have "lo \<le> gen_range i lo hi" "gen_range i lo hi < hi"
      by (auto simp: gen_range_ok_def)
    with \<open>hi \<le> 256\<close> show ?thesis by (simp add: unat_of_nat)
  qed
  have "8 \<le> gen_range 0 8 64 \<and> gen_range 0 8 64 < 64"
    using assms by (simp add: gen_range_ok_def)
  then show ?thesis
    using range [of 33 127] range [of 1 255] by (auto simp: list_all_iff Let_def)
qed

theorem generate_key_bounds_witness:
  "length (generate_key (\<lambda>i lo hi. lo) Xor) \<le> 63"
proof -
  have "gen_range_ok (\<lambda>i lo hi. lo)" by (simp add: gen_range_ok_def)
  from generate_key_bounds [OF this] show ?thesis by blast
qed

end
