(* ===== verification/Session_Common.thy ===== *)
theory Session_Common
  imports Crypto
begin

text \<open>
  np\_base/src/proxy/common.rs: what a session keeps on both ends (compression, method, key and
  the shared counter of unacknowledged bytes), the encoding of outgoing frames with its flow
  control, and their decoding. Shown: decoding undoes encoding at an end with the same
  parameters; the counter is the sum of the bytes in flight, stays below the limit plus one
  frame, and a sender that waits always has an acknowledgement outstanding that can release it.
\<close>

definition READ_BUF_MAX_LEN :: nat where
  "READ_BUF_MAX_LEN = 1024 * 1024 * 1"

record session_common_info =
  is_compressed :: bool
  encryption_method :: encryption_method
  encryption_key :: bytes
  read_buf_len :: counter_ref

text \<open>\<open>new\<close> allocates the counter; the fresh reference is the caller's.\<close>

definition session_common_info_new ::
  "bool \<Rightarrow> encryption_method \<Rightarrow> bytes \<Rightarrow> counter_ref \<Rightarrow> world \<Rightarrow> session_common_info \<times> world" where
  "session_common_info_new compressed method key r w =
     (\<lparr>is_compressed = compressed, encryption_method = method, encryption_key = key, read_buf_len = r\<rparr>,
      w\<lparr>bufs := (bufs w)(r := 0)\<rparr>)"

definition from_method_name ::
  "rng \<Rightarrow> bool \<Rightarrow> string \<Rightarrow> counter_ref \<Rightarrow> world \<Rightarrow> session_common_info \<times> world" where
  "from_method_name gen_range compressed method_name r w =
     (let method = get_method method_name
      in session_common_info_new compressed method (generate_key gen_range method) r w)"

text \<open>The compression and encryption of \<open>encode_data_and_limiting\<close>, before the waiting.\<close>

definition encode_data :: "libs \<Rightarrow> session_common_info \<Rightarrow> bytes \<Rightarrow> bytes outcome" where
  "encode_data L ci data =
     bind_ok (if is_compressed ci then compress_data L data else Ok data) (\<lambda>data.
       if \<not> method_is_none (encryption_method ci)
       then encrypt L (encryption_method ci) (encryption_key ci) data
       else Ok data)"

text \<open>
  The loop \<open>while *read_buf_len > READ_BUF_MAX_LEN { yield_now() }\<close> leaves the call \<open>Pending\<close>
  as long as the counter is above the limit; the scheduler polls it again in later states.
\<close>

definition encode_data_and_limiting ::
  "libs \<Rightarrow> session_common_info \<Rightarrow> bytes \<Rightarrow> world \<Rightarrow> bytes outcome \<times> world" where
  "encode_data_and_limiting L ci data w =
     and_then (encode_data L ci data, w) (\<lambda>data w.
       if bufs w (read_buf_len ci) > READ_BUF_MAX_LEN then (Pending, w)
       else (Ok data, w\<lparr>bufs := (bufs w)(read_buf_len ci := bufs w (read_buf_len ci) + length data)\<rparr>))"

definition decode_data :: "libs \<Rightarrow> session_common_info \<Rightarrow> bytes \<Rightarrow> bytes outcome" where
  "decode_data L ci data =
     bind_ok
       (if \<not> method_is_none (encryption_method ci)
        then decrypt L (encryption_method ci) (encryption_key ci) data
        else Ok data)
       (\<lambda>data. if is_compressed ci then decompress_data L data else Ok data)"

text \<open>The acknowledgement of \<open>data_len\<close> bytes, as both ends apply it to their counter.\<close>

definition release_read_buf :: "counter_ref \<Rightarrow> nat \<Rightarrow> world \<Rightarrow> world" where
  "release_read_buf r data_len w =
     (if bufs w r \<le> data_len then w\<lparr>bufs := (bufs w)(r := 0)\<rparr>
      else w\<lparr>bufs := (bufs w)(r := bufs w r - data_len)\<rparr>)"

text \<open>
  \<open>parse_addr\<close>: a literal address, or the first one that name resolution (another package)
  returns.
\<close>

definition parse_addr :: "(string \<Rightarrow> string + socket_addr list) \<Rightarrow> string \<Rightarrow> socket_addr outcome" where
  "parse_addr lookup_host host =
     (case parse_socket_addr host of
        Some addr \<Rightarrow> Ok addr
      | None \<Rightarrow>
          (case lookup_host host of
             Inl err \<Rightarrow> Err err
           | Inr [] \<Rightarrow> Err (''The address format is invalid: '' @ [CHR 0x27] @ host @ [CHR 0x27])
           | Inr (addr # _) \<Rightarrow> Ok addr))"

section \<open>Encoding and decoding\<close>

definition same_codec :: "session_common_info \<Rightarrow> session_common_info \<Rightarrow> bool" where
  "same_codec a b \<longleftrightarrow> is_compressed a = is_compressed b \<and> encryption_method a = encryption_method b
     \<and> encryption_key a = encryption_key b"

lemma same_codec_refl [simp]: "same_codec a a"
  by (simp add: same_codec_def)

lemma same_codec_cong:
  "same_codec a b \<Longrightarrow> encode_data L a = encode_data L b \<and> decode_data L a = decode_data L b"
  by (auto simp: same_codec_def fun_eq_iff encode_data_def decode_data_def)

lemma method_is_none_iff: "method_is_none m \<longleftrightarrow> m = MethodNone"
  by (cases m) simp_all

lemma decode_encode:
  assumes "libs_ok L" and "encode_data L ci data = Ok d"
  shows "decode_data L ci d = Ok data"
proof -
  define c where "c = (if is_compressed ci then compress_prepend_size L data else data)"
  have "encrypt L (encryption_method ci) (encryption_key ci) c = Ok d"
    using assms(2) by (auto simp: encode_data_def compress_data_def c_def method_is_none_iff split: if_splits)
  then have "decrypt L (encryption_method ci) (encryption_key ci) d = Ok c"
    using assms(1) by (simp add: libs_ok_def decrypt_encrypt)
  then show ?thesis
    using assms(1)
    by (auto simp: decode_data_def decompress_data_def c_def libs_ok_def lz4_ok_def method_is_none_iff)
qed

lemma encode_data_no_panic: "encode_data L ci data \<noteq> Panic" "encode_data L ci data \<noteq> Pending"
  by (auto simp: encode_data_def compress_data_def encrypt_no_panic)

lemma encode_limiting_Ok_iff:
  "encode_data_and_limiting L ci data w = (Ok d, w') \<longleftrightarrow>
     encode_data L ci data = Ok d \<and> bufs w (read_buf_len ci) \<le> READ_BUF_MAX_LEN \<and>
     w' = w\<lparr>bufs := (bufs w)(read_buf_len ci := bufs w (read_buf_len ci) + length d)\<rparr>"
  by (auto simp: encode_data_and_limiting_def and_then_Ok_iff)

lemma encode_limiting_Pending_iff:
  "fst (encode_data_and_limiting L ci data w) = Pending \<longleftrightarrow>
     is_Ok (encode_data L ci data) \<and> READ_BUF_MAX_LEN < bufs w (read_buf_len ci)"
  by (cases "encode_data L ci data") (auto simp: encode_data_and_limiting_def encode_data_no_panic)

lemma bufs_release [simp]:
  "bufs (release_read_buf r n w) r = bufs w r - n"
  "r' \<noteq> r \<Longrightarrow> bufs (release_read_buf r n w) r' = bufs w r'"
  "wchans (release_read_buf r n w) = wchans w" "pchans (release_read_buf r n w) = pchans w"
  by (auto simp: release_read_buf_def)

text \<open>
  C27: What one end encodes (compression, then encryption) the other end decodes to the same bytes
  when it has the same compression flag, method and key.
\<close>

theorem decode_undoes_encode:
  assumes "libs_ok L" and "encode_data_and_limiting L ci data w = (Ok d, w')" and "same_codec ci ci'"
  shows "decode_data L ci' d = Ok data"
  using assms decode_encode same_codec_cong by (metis encode_limiting_Ok_iff)

definition demo_info :: session_common_info where
  "demo_info = \<lparr>is_compressed = True, encryption_method = Xor, encryption_key = [3, 5], read_buf_len = 0\<rparr>"

lemma demo_encode:
  "encode_data_and_limiting demo_libs demo_info [9, 8] init_world =
     (Ok [3, 12, 11], init_world\<lparr>bufs := (bufs init_world)(0 := 3)\<rparr>)"
  by (simp add: encode_data_and_limiting_def encode_data_def demo_info_def compress_data_def
      demo_libs_def xor_encrypt_decrypt_def init_world_def READ_BUF_MAX_LEN_def numeral_3_eq_3)

theorem decode_undoes_encode_witness:
  "decode_data demo_libs demo_info [3, 12, 11] = Ok [9, 8]"
  using decode_undoes_encode [OF demo_libs_ok demo_encode same_codec_refl] .

section \<open>Flow control\<close>

text \<open>
  The frames in flight of one session: the sender encodes a frame of at most \<open>B\<close> encoded bytes,
  and an acknowledgement for any frame in flight comes back.
\<close>

inductive flow :: "libs \<Rightarrow> session_common_info \<Rightarrow> nat \<Rightarrow> world \<times> nat list \<Rightarrow> world \<times> nat list \<Rightarrow> bool"
  for L ci B where
  flow_send: "encode_data_and_limiting L ci data w = (Ok d, w') \<Longrightarrow> length d \<le> B \<Longrightarrow>
    flow L ci B (w, fs) (w', fs @ [length d])"
| flow_ack: "flow L ci B (w, xs @ n # ys) (release_read_buf (read_buf_len ci) n w, xs @ ys)"

inductive flow_reachable :: "libs \<Rightarrow> session_common_info \<Rightarrow> nat \<Rightarrow> world \<times> nat list \<Rightarrow> bool"
  for L ci B where
  flow_init: "bufs w (read_buf_len ci) = 0 \<Longrightarrow> flow_reachable L ci B (w, [])"
| flow_step: "flow_reachable L ci B s \<Longrightarrow> flow L ci B s t \<Longrightarrow> flow_reachable L ci B t"

definition flow_inv :: "session_common_info \<Rightarrow> nat \<Rightarrow> world \<times> nat list \<Rightarrow> bool" where
  "flow_inv ci B s \<longleftrightarrow>
     bufs (fst s) (read_buf_len ci) = sum_list (snd s) \<and>
     bufs (fst s) (read_buf_len ci) \<le> READ_BUF_MAX_LEN + B"

lemma flow_preserves: "flow L ci B s t \<Longrightarrow> flow_inv ci B s \<Longrightarrow> flow_inv ci B t"
proof (induction rule: flow.induct)
  case (flow_send data w d w' fs)
  then show ?case by (auto simp: flow_inv_def encode_limiting_Ok_iff)
next
  case (flow_ack w xs n ys)
  then show ?case by (auto simp: flow_inv_def)
qed

lemma flow_reachable_inv: "flow_reachable L ci B s \<Longrightarrow> flow_inv ci B s"
proof (induction rule: flow_reachable.induct)
  case (flow_init w)
  then show ?case by (simp add: flow_inv_def)
next
  case (flow_step s t)
  then show ?case by (blast intro: flow_preserves)
qed

lemma flow_ack_all:
  "bufs w r = sum_list fs \<Longrightarrow> bufs (fold (release_read_buf r) fs w) r = 0"
proof (induction fs arbitrary: w)
  case (Cons n fs)
  then show ?case by simp
qed simp

text \<open>
  C11: In every reachable state of a session the counter is exactly the number of encoded bytes in
  flight and exceeds the limit by at most one frame; a sender that waits has bytes in flight, and
  once they are acknowledged it proceeds.
\<close>

theorem flow_control:
  assumes "flow_reachable L ci B (w, fs)"
  shows "bufs w (read_buf_len ci) = sum_list fs
    \<and> bufs w (read_buf_len ci) \<le> READ_BUF_MAX_LEN + B
    \<and> (fst (encode_data_and_limiting L ci data w) = Pending \<longrightarrow>
        fs \<noteq> [] \<and> is_Ok (fst (encode_data_and_limiting L ci data
          (fold (release_read_buf (read_buf_len ci)) fs w))))"
proof -
  from flow_reachable_inv [OF assms]
  have inv: "bufs w (read_buf_len ci) = sum_list fs" "bufs w (read_buf_len ci) \<le> READ_BUF_MAX_LEN + B"
    by (simp_all add: flow_inv_def)
  moreover have "fs \<noteq> [] \<and> is_Ok (fst (encode_data_and_limiting L ci data
      (fold (release_read_buf (read_buf_len ci)) fs w)))"
    if "fst (encode_data_and_limiting L ci data w) = Pending"
  proof
    from that inv(1) show "fs \<noteq> []" by (auto simp: encode_limiting_Pending_iff)
    from that obtain d where "encode_data L ci data = Ok d"
      by (auto simp: encode_limiting_Pending_iff is_Ok_iff)
    then show "is_Ok (fst (encode_data_and_limiting L ci data
        (fold (release_read_buf (read_buf_len ci)) fs w)))"
      using flow_ack_all [OF inv(1)] by (simp add: encode_data_and_limiting_def)
  qed
  ultimately show ?thesis by blast
qed

theorem flow_control_witness:
  "bufs (init_world\<lparr>bufs := (bufs init_world)(0 := 3)\<rparr>) 0 = sum_list [3]"
proof -
  let ?w = "init_world\<lparr>bufs := (bufs init_world)(0 := 3)\<rparr>"
  note demo_encode
  then have "flow demo_libs demo_info 10 (init_world, []) (?w, [3])"
    using flow_send [of demo_libs demo_info "[9, 8]" init_world "[3, 12, 11]" ?w 10 "[]"]
    by (simp add: numeral_3_eq_3)
  then have "flow_reachable demo_libs demo_info 10 (?w, [3])"
    by (rule flow_step [rotated]) (simp add: flow_init init_world_def)
  from flow_control [OF this] show ?thesis by (simp add: demo_info_def)
qed

end
