(* ===== verification/Target_Addr.thy ===== *)
theory Target_Addr
  imports Proxy_Core
begin

text \<open>
  np\_base/src/proxy/socks5/target\_addr.rs: the SOCKS5 address block. Shown: reading undoes
  writing and reports the bytes used; on data with at least one byte the reader never panics,
  asks for more data exactly when the block is incomplete, and its answer does not change when
  more data follows.
\<close>

definition SOCKS5_ADDR_TYPE_IPV4 :: u8 where "SOCKS5_ADDR_TYPE_IPV4 = 0x01"
definition SOCKS5_ADDR_TYPE_DOMAIN_NAME :: u8 where "SOCKS5_ADDR_TYPE_DOMAIN_NAME = 0x03"
definition SOCKS5_ADDR_TYPE_IPV6 :: u8 where "SOCKS5_ADDR_TYPE_IPV6 = 0x04"

lemmas addr_type_defs =
  SOCKS5_ADDR_TYPE_IPV4_def SOCKS5_ADDR_TYPE_DOMAIN_NAME_def SOCKS5_ADDR_TYPE_IPV6_def

datatype target_addr = Ip socket_addr | Domain string u16

fun is_ip :: "target_addr \<Rightarrow> bool" where
  "is_ip (Ip _) = True"
| "is_ip _ = False"

definition is_domain :: "target_addr \<Rightarrow> bool" where
  "is_domain a = (\<not> is_ip a)"

fun to_be_bytes :: "target_addr \<Rightarrow> bytes outcome" where
  "to_be_bytes (Ip (V4 ip port)) =
     Ok ([SOCKS5_ADDR_TYPE_IPV4] @ octets4 ip @ u16_to_be_bytes port)"
| "to_be_bytes (Ip (V6 ip port fl sc)) =
     Ok ([SOCKS5_ADDR_TYPE_IPV6] @ octets6 ip @ u16_to_be_bytes port)"
| "to_be_bytes (Domain domain port) =
     (if length domain > 255 then Err ''Maximum field length exceeded''
      else Ok ([SOCKS5_ADDR_TYPE_DOMAIN_NAME, of_nat (length domain)] @ as_bytes domain
            @ u16_to_be_bytes port))"

fun ta_port :: "target_addr \<Rightarrow> u16" where
  "ta_port (Ip addr) = sa_port addr"
| "ta_port (Domain _ port) = port"

fun to_socket_addrs :: "target_addr \<Rightarrow> socket_addr list outcome" where
  "to_socket_addrs (Ip addr) = Ok [addr]"
| "to_socket_addrs (Domain _ _) =
     Err ''Domain name has to be explicitly resolved, please use TargetAddr::resolve_dns().''"

fun ta_to_string :: "target_addr \<Rightarrow> string" where
  "ta_to_string (Ip addr) = show_socket_addr addr"
| "ta_to_string (Domain addr port) = addr @ '':'' @ show_nat (unat port)"

text \<open>The instances of \<open>ToTargetAddr\<close>.\<close>

definition socket_to_target_addr :: "socket_addr \<Rightarrow> target_addr" where
  "socket_to_target_addr a = Ip a"

definition ipv4_to_target_addr :: "ipv4 \<times> u16 \<Rightarrow> target_addr" where
  "ipv4_to_target_addr p = socket_to_target_addr (V4 (fst p) (snd p))"

definition ipv6_to_target_addr :: "ipv6 \<times> u16 \<Rightarrow> target_addr" where
  "ipv6_to_target_addr p = socket_to_target_addr (V6 (fst p) (snd p) 0 0)"

definition str_to_target_addr :: "string \<times> u16 \<Rightarrow> target_addr" where
  "str_to_target_addr p =
     (case parse_ipv4 (fst p) of
        Some ip \<Rightarrow> ipv4_to_target_addr (ip, snd p)
      | None \<Rightarrow>
          (case parse_ipv6 (fst p) of
             Some ip \<Rightarrow> ipv6_to_target_addr (ip, snd p)
           | None \<Rightarrow> Domain (fst p) (snd p)))"

datatype addr = AddrV4 bytes | AddrV6 bytes | AddrDomain string | AddrUnknown

text \<open>The \<open>match atyp\<close> of \<open>read_address\<close>: the address and the length of the block.\<close>

definition read_addr_block :: "bytes \<Rightarrow> u8 \<Rightarrow> (addr \<times> nat) outcome" where
  "read_addr_block data atyp =
     (if atyp = SOCKS5_ADDR_TYPE_IPV4 then
        (if length data < 6 then Ok (AddrUnknown, 6)
         else bind_ok (slice data 0 4) (\<lambda>a. Ok (AddrV4 a, 6)))
      else if atyp = SOCKS5_ADDR_TYPE_IPV6 then
        (if length data < 18 then Ok (AddrUnknown, 18)
         else bind_ok (slice data 0 16) (\<lambda>a. Ok (AddrV6 a, 18)))
      else if atyp = SOCKS5_ADDR_TYPE_DOMAIN_NAME then
        bind_ok (idx data 0) (\<lambda>b.
          let len = unat b + 1; addr_data_len = 2 + len in
          if length data < addr_data_len then Ok (AddrUnknown, addr_data_len)
          else
            bind_ok (slice data 1 len) (\<lambda>domain.
            bind_ok (string_from_utf8 domain) (\<lambda>domain. Ok (AddrDomain domain, addr_data_len))))
      else Err ''incorrect address type'')"

fun merge_addr :: "addr \<Rightarrow> u16 \<Rightarrow> target_addr outcome" where
  "merge_addr (AddrV4 [a, b, c, d]) port = Ok (ipv4_to_target_addr (Ipv4Addr a b c d, port))"
| "merge_addr (AddrV6 x) port = Ok (ipv6_to_target_addr (ipv6_from_octets x, port))"
| "merge_addr (AddrDomain domain) port = Ok (Domain domain port)"
| "merge_addr _ port = Panic"

definition read_address :: "bytes \<Rightarrow> u8 \<Rightarrow> (target_addr \<times> nat) option outcome" where
  "read_address data atyp =
     bind_ok (read_addr_block data atyp) (\<lambda>(addr, addr_data_len).
       if addr = AddrUnknown then Ok None
       else
         bind_ok (idx data (addr_data_len - 2)) (\<lambda>hi.
         bind_ok (idx data (addr_data_len - 1)) (\<lambda>lo.
         bind_ok (merge_addr addr (u16_from_be hi lo)) (\<lambda>a. Ok (Some (a, addr_data_len))))))"

section \<open>Properties\<close>

text \<open>
  The addresses the SOCKS5 block can carry: a domain name is a Rust \<open>String\<close>, so its bytes are
  UTF-8; the block has no room for flow label and scope of an IPv6 socket address.
\<close>

fun representable :: "target_addr \<Rightarrow> bool" where
  "representable (Ip (V4 ip port)) = True"
| "representable (Ip (V6 ip port fl sc)) = (fl = 0 \<and> sc = 0)"
| "representable (Domain domain port) = valid_utf8 (as_bytes domain)"

lemmas to_target_defs = ipv4_to_target_addr_def ipv6_to_target_addr_def socket_to_target_addr_def

lemma read_address_v4:
  "read_address ([a, b, c, d, p, q] @ rest) SOCKS5_ADDR_TYPE_IPV4 =
     Ok (Some (Ip (V4 (Ipv4Addr a b c d) (u16_from_be p q)), 6))"
  by (simp add: read_address_def read_addr_block_def slice_def idx_def to_target_defs numeral_eq_Suc)

lemma read_address_v6:
  assumes "length os = 16"
  shows "read_address (os @ [p, q] @ rest) SOCKS5_ADDR_TYPE_IPV6 =
     Ok (Some (Ip (V6 (ipv6_from_octets os) (u16_from_be p q) 0 0), 18))"
  using assms
  by (simp add: read_address_def read_addr_block_def slice_def idx_def to_target_defs nth_append
      addr_type_defs)

lemma read_address_domain:
  assumes "length ds = unat n" and "valid_utf8 ds"
  shows "read_address (n # ds @ [p, q] @ rest) SOCKS5_ADDR_TYPE_DOMAIN_NAME =
     Ok (Some (Domain (from_bytes ds) (u16_from_be p q), unat n + 3))"
  using assms
  by (simp add: read_address_def read_addr_block_def slice_def idx_def string_from_utf8_def
      nth_append nth_Cons' addr_type_defs Let_def)

lemma read_to_be_bytes:
  assumes "to_be_bytes a = Ok (t # bs)" and "representable a"
  shows "read_address (bs @ rest) t = Ok (Some (a, length bs))"
proof (cases a)
  case (Ip s)
  show ?thesis
  proof (cases s)
    case (V4 ip p)
    with assms Ip show ?thesis
      using read_address_v4 by (cases ip) (auto simp: u16_to_be_bytes_def)
  next
    case (V6 ip p fl sc)
    with assms Ip show ?thesis
      using read_address_v6 [of "octets6 ip"] by (auto simp: u16_to_be_bytes_def)
  qed
next
  case (Domain d p)
  moreover from this assms have "length d \<le> 255" by (auto split: if_splits)
  then have "unat (of_nat (length d) :: u8) = length d" by (simp add: unat_of_nat)
  ultimately show ?thesis
    using assms read_address_domain [of "as_bytes d" "of_nat (length d)"]
    by (auto simp: u16_to_be_bytes_def split: if_splits)
qed

text \<open>
  Reading the block that \<open>to_be_bytes\<close> wrote, with any bytes behind it, gives the address back
  together with the length of the block.
\<close>

theorem read_address_to_be_bytes:
  assumes "to_be_bytes a = Ok (t # bs)" and "representable a"
  shows "read_address (bs @ rest) t = Ok (Some (a, length bs))"
  using assms by (rule read_to_be_bytes)

theorem read_address_to_be_bytes_witness:
  "read_address ([1, 97, 0, 80] @ [255]) 3 = Ok (Some (Domain ''a'' 80, 4))"
proof -
  have "to_be_bytes (Domain ''a'' 80) = Ok (3 # [1, 97, 0, 80])"
    by (simp add: addr_type_defs as_bytes_def byte_of_char_def of_char_def u16_to_be_bytes_def)
  moreover have "representable (Domain ''a'' 80)"
    by (simp add: as_bytes_def byte_of_char_def of_char_def)
  ultimately show ?thesis
    using read_address_to_be_bytes [of "Domain ''a'' 80" 3 "[1, 97, 0, 80]" "[255]"] by simp
qed

text \<open>The length of the block that starts with the given data, known from the first byte on.\<close>

definition block_length :: "bytes \<Rightarrow> u8 \<Rightarrow> nat" where
  "block_length data atyp =
     (if atyp = SOCKS5_ADDR_TYPE_IPV4 then 6 else if atyp = SOCKS5_ADDR_TYPE_IPV6 then 18
      else unat (hd data) + 3)"

lemma length4_cases: "length xs = 4 \<Longrightarrow> \<exists>a b c d. xs = [a, b, c, d]"
  by (auto simp: numeral_eq_Suc length_Suc_conv)

lemma merge_addr_no_panic:
  "read_addr_block data t = Ok (addr, n) \<Longrightarrow> addr \<noteq> AddrUnknown \<Longrightarrow> \<exists>a. merge_addr addr port = Ok a"
  using length4_cases [of "take 4 data"]
  by (auto simp: read_addr_block_def slice_def Let_def outcome_iffs split: if_splits)

lemma read_addr_block_length:
  "read_addr_block data t = Ok (addr, n) \<Longrightarrow> data \<noteq> [] \<Longrightarrow>
   n = block_length data t \<and> 2 \<le> n \<and> (addr = AddrUnknown \<longleftrightarrow> length data < n)"
  by (auto simp: read_addr_block_def block_length_def idx_def Let_def outcome_iffs hd_conv_nth
      addr_type_defs split: if_splits)

lemma read_addr_block_no_panic: "data \<noteq> [] \<Longrightarrow> read_addr_block data t \<noteq> Panic"
  by (auto simp: read_addr_block_def bind_ok_Panic_iff slice_def idx_def Let_def
      string_from_utf8_def split: if_splits)

lemma read_addr_block_append:
  "data \<noteq> [] \<Longrightarrow> block_length data t \<le> length data \<Longrightarrow>
   read_addr_block (data @ xs) t = read_addr_block data t"
  by (auto simp: read_addr_block_def block_length_def idx_def Let_def hd_conv_nth nth_append
      addr_type_defs split: if_splits)

lemma read_address_no_panic:
  assumes "data \<noteq> []"
  shows "read_address data t \<noteq> Panic"
proof (cases "read_addr_block data t")
  case (Ok p)
  then obtain addr n where p: "read_addr_block data t = Ok (addr, n)" by (cases p) auto
  show ?thesis
  proof (cases "addr = AddrUnknown")
    case False
    then obtain a where "merge_addr addr (u16_from_be (data ! (n - 2)) (data ! (n - 1))) = Ok a"
      using merge_addr_no_panic [OF p] by blast
    with False read_addr_block_length [OF p assms] show ?thesis
      by (auto simp: read_address_def p idx_def)
  qed (simp add: read_address_def p)
qed (use read_addr_block_no_panic [OF assms] in \<open>auto simp: read_address_def\<close>)

lemma read_address_Ok_iff:
  assumes "data \<noteq> []" and "read_address data t = Ok r"
  shows "(r = None \<longleftrightarrow> length data < block_length data t)
    \<and> (\<forall>a n. r = Some (a, n) \<longrightarrow> n = block_length data t)"
  using assms read_addr_block_length
  by (fastforce simp: read_address_def outcome_iffs split: if_splits)

lemma read_address_incomplete:
  assumes "data \<noteq> []" and "length data < block_length data t"
    and "t \<in> {SOCKS5_ADDR_TYPE_IPV4, SOCKS5_ADDR_TYPE_IPV6, SOCKS5_ADDR_TYPE_DOMAIN_NAME}"
  shows "read_address data t = Ok None"
  using assms
  by (auto simp: read_address_def read_addr_block_def block_length_def idx_def hd_conv_nth
      addr_type_defs split: if_splits)

lemma to_be_bytes_block:
  assumes "to_be_bytes a = Ok bs"
  shows "bs \<noteq> [] \<and> tl bs \<noteq> [] \<and> block_length (tl bs) (hd bs) = length (tl bs) \<and>
    hd bs \<in> {SOCKS5_ADDR_TYPE_IPV4, SOCKS5_ADDR_TYPE_IPV6, SOCKS5_ADDR_TYPE_DOMAIN_NAME}"
  using assms
  by (cases a rule: to_be_bytes.cases)
    (auto simp: block_length_def addr_type_defs unat_of_nat u16_to_be_bytes_def split: if_splits)

text \<open>
  On at least one byte of data the reader does not panic; an accepted type gives \<open>None\<close> exactly
  while the block is incomplete, otherwise the length of the block, which lies within the data; and
  a complete answer is not changed by bytes that follow.
\<close>

theorem read_address_incremental:
  assumes "data \<noteq> []"
  shows "read_address data t \<noteq> Panic
    \<and> (read_address data t = Ok None \<longrightarrow> length data < block_length data t)
    \<and> (\<forall>a n. read_address data t = Ok (Some (a, n)) \<longrightarrow>
        n = block_length data t \<and> n \<le> length data \<and>
        read_address (data @ xs) t = Ok (Some (a, n)))"
proof (intro conjI allI impI)
  show "read_address data t \<noteq> Panic" using assms by (rule read_address_no_panic)
next
  assume "read_address data t = Ok None"
  from read_address_Ok_iff [OF assms this] show "length data < block_length data t" by simp
next
  fix a n
  assume r: "read_address data t = Ok (Some (a, n))"
  from read_address_Ok_iff [OF assms r]
  show n: "n = block_length data t" and len: "n \<le> length data" by auto
  then have "read_addr_block (data @ xs) t = read_addr_block data t"
    using read_addr_block_append [OF assms] by simp
  with r n len read_addr_block_length [OF _ assms] show "read_address (data @ xs) t = Ok (Some (a, n))"
    by (fastforce simp: read_address_def outcome_iffs split: if_splits)
qed

theorem read_address_incremental_witness:
  "read_address ([10, 0, 0, 1, 0] @ [80]) 1 \<noteq> Panic \<and> read_address [10, 0, 0, 1, 0] 1 = Ok None
   \<and> length [10, 0, 0, 1, 0 :: u8] < block_length [10, 0, 0, 1, 0] 1"
proof -
  have "read_address [10, 0, 0, 1, 0] 1 = Ok None"
    by (simp add: read_address_def read_addr_block_def addr_type_defs)
  then show ?thesis
    using read_address_incremental [of "[10, 0, 0, 1, 0]" 1 "[80]"]
      read_address_incremental [of "[10, 0, 0, 1, 0] @ [80]" 1 "[]"] by simp
qed

end
