(* ===== verification/Socks5.thy ===== *)
theory Socks5
  imports Session_Common Target_Addr
begin

text \<open>
  np\_base/src/proxy/socks5/mod.rs: the SOCKS5 server side of one inlet session, as a state
  machine over received frames and messages from the outlet. Operations take the context and the
  store and return both, with the outcome. Results of the operating system for the UDP socket of
  an association are the fields of \<open>udp_env\<close>.
\<close>

definition SOCKS5_VERSION :: u8 where "SOCKS5_VERSION = 0x05"
definition SOCKS5_AUTH_METHOD_NONE :: u8 where "SOCKS5_AUTH_METHOD_NONE = 0x00"
definition SOCKS5_AUTH_METHOD_PASSWORD :: u8 where "SOCKS5_AUTH_METHOD_PASSWORD = 0x02"
definition SOCKS5_AUTH_METHOD_NOT_ACCEPTABLE :: u8 where
  "SOCKS5_AUTH_METHOD_NOT_ACCEPTABLE = 0xff"
definition SOCKS5_CMD_TCP_CONNECT :: u8 where "SOCKS5_CMD_TCP_CONNECT = 0x01"
definition SOCKS5_CMD_TCP_BIND :: u8 where "SOCKS5_CMD_TCP_BIND = 0x02"
definition SOCKS5_CMD_UDP_ASSOCIATE :: u8 where "SOCKS5_CMD_UDP_ASSOCIATE = 0x03"

lemmas socks5_consts = SOCKS5_VERSION_def SOCKS5_AUTH_METHOD_NONE_def SOCKS5_AUTH_METHOD_PASSWORD_def
  SOCKS5_AUTH_METHOD_NOT_ACCEPTABLE_def SOCKS5_CMD_TCP_CONNECT_def SOCKS5_CMD_TCP_BIND_def
  SOCKS5_CMD_UDP_ASSOCIATE_def addr_type_defs

datatype status =
    Init
  | Verification
  | Connect
  | Connecting bool
  | RunWithTcp
  | RunWithUdp u16

record inlet_data_ex =
  username :: string
  password :: string

record socks5_context =
  status :: status
  buffer :: bytes
  write_msg_tx :: chan_ref
  output_tx :: chan_ref
  data_ex :: inlet_data_ex
  target_addr :: "target_addr option"
  session_id :: u32
  addr :: socket_addr
  common_data :: session_common_info
  read_input_task_handle :: bool
  udp_task_handle :: bool
  udp_sent :: "bytes list"

text \<open>
  \<open>RunWithUdp\<close> keeps the local port of the bound socket, \<open>udp_sent\<close> the datagrams handed to it;
  a task handle is present or not.
\<close>

type_synonym s5_state = "socks5_context \<times> world"

record udp_env =
  udp_bind_io :: "string + unit"
  udp_connect_io :: "string \<Rightarrow> string + unit"
  udp_local_port_io :: "string + u16"
  udp_send_io :: "bytes \<Rightarrow> string + unit"

definition on_world :: "(world \<Rightarrow> 'a outcome \<times> world) \<Rightarrow> 'c \<times> world \<Rightarrow> 'a outcome \<times> ('c \<times> world)" where
  "on_world f s = (case f (snd s) of (r, w) \<Rightarrow> (r, (fst s, w)))"

lemma on_world_Ok_iff: "on_world f s = (Ok a, s') \<longleftrightarrow> f (snd s) = (Ok a, snd s') \<and> fst s' = fst s"
  by (cases s') (auto simp: on_world_def split: prod.splits)

section \<open>Operations\<close>

definition socks5_new ::
  "chan_ref \<Rightarrow> chan_ref \<Rightarrow> u32 \<Rightarrow> socket_addr \<Rightarrow> inlet_data_ex \<Rightarrow> session_common_info \<Rightarrow> socks5_context"
where
  "socks5_new tx out sid a d ci =
     \<lparr>status = Init, buffer = [], write_msg_tx = tx, output_tx = out, data_ex = d, target_addr = None,
      session_id = sid, addr = a, common_data = ci, read_input_task_handle = True,
      udp_task_handle = False, udp_sent = []\<rparr>"

definition select_method :: "inlet_data_ex \<Rightarrow> bytes \<Rightarrow> u8" where
  "select_method d methods =
     (if username d = [] \<and> password d = [] then
        (if SOCKS5_AUTH_METHOD_NONE \<in> set methods then SOCKS5_AUTH_METHOD_NONE
         else SOCKS5_AUTH_METHOD_NOT_ACCEPTABLE)
      else
        (if SOCKS5_AUTH_METHOD_PASSWORD \<in> set methods then SOCKS5_AUTH_METHOD_PASSWORD
         else SOCKS5_AUTH_METHOD_NOT_ACCEPTABLE))"

text \<open>Two writes in a row, each with \<open>?\<close>: a response and a delayed close.\<close>

definition respond_and_close :: "bytes \<Rightarrow> nat \<Rightarrow> s5_state \<Rightarrow> unit outcome \<times> s5_state" where
  "respond_and_close response delay s =
     and_then (on_world (send_w (write_msg_tx (fst s)) (Send response True)) s) (\<lambda>_ s.
       on_world (send_w (write_msg_tx (fst s)) (CloseDelayed delay)) s)"

definition on_socks5_init :: "s5_state \<Rightarrow> unit outcome \<times> s5_state" where
  "on_socks5_init s =
     (let buf = buffer (fst s);
          not_acceptable =
            respond_and_close [SOCKS5_VERSION, SOCKS5_AUTH_METHOD_NOT_ACCEPTABLE] 10 s
      in
      if length buf < 3 then (Ok (), s)
      else if buf ! 0 = SOCKS5_VERSION then
        (let num_of_methods = unat (buf ! 1); num_of_package = num_of_methods + 2 in
         if length buf < num_of_package then (Ok (), s)
         else
           (let methods = take num_of_methods (drop 2 buf);
                method = select_method (data_ex (fst s)) methods in
            if method \<noteq> SOCKS5_AUTH_METHOD_NOT_ACCEPTABLE then
              and_then (on_world (send_w (write_msg_tx (fst s)) (Send [SOCKS5_VERSION, method] True)) s)
                (\<lambda>_ (c, w).
                  (Ok (), (c\<lparr>buffer := drop num_of_package buf,
                             status := (if method = SOCKS5_AUTH_METHOD_NONE then Connect
                                        else Verification)\<rparr>, w)))
            else not_acceptable))
      else not_acceptable)"

definition on_socks5_verification :: "s5_state \<Rightarrow> unit outcome \<times> s5_state" where
  "on_socks5_verification s =
     (let buf = buffer (fst s) in
      if length buf < 4 then (Ok (), s)
      else
        (let ver = buf ! 0; unl = unat (buf ! 1) in
         and_then (idx buf (2 + unl), s) (\<lambda>pwl s.
         let num_of_package = unl + unat pwl + 3 in
         and_then (slice buf 2 (2 + unl), s) (\<lambda>unm s.
         and_then (slice buf (3 + unl) (3 + unl + unat pwl), s) (\<lambda>pwd s.
         if unm = as_bytes (username (data_ex (fst s))) \<and> pwd = as_bytes (password (data_ex (fst s)))
         then
           and_then (on_world (send_w (write_msg_tx (fst s)) (Send [ver, 0x00] True)) s)
             (\<lambda>_ (c, w). (Ok (), (c\<lparr>buffer := drop num_of_package buf, status := Connect\<rparr>, w)))
         else respond_and_close [ver, 0x01] 1000 s)))))"

definition on_socks5_connect :: "libs \<Rightarrow> s5_state \<Rightarrow> unit outcome \<times> s5_state" where
  "on_socks5_connect L s =
     (if length (buffer (fst s)) < 8 then (Ok (), s)
      else
        (let head_data = take 4 (buffer (fst s));
             ver = head_data ! 0; cmd = head_data ! 1; rsv = head_data ! 2;
             address_type = head_data ! 3;
             c1 = (fst s)\<lparr>buffer := drop 4 (buffer (fst s))\<rparr>;
             s1 = (c1, snd s);
             support = \<not> (ver \<noteq> SOCKS5_VERSION \<or> rsv \<noteq> 0x00)
         in
         if support \<and> (cmd = SOCKS5_CMD_TCP_CONNECT \<or> cmd = SOCKS5_CMD_UDP_ASSOCIATE) then
           and_then (read_address (buffer c1) address_type, s1) (\<lambda>addr_result s1.
             case addr_result of
               Some (ta, addr_data_len) \<Rightarrow>
                 (let tcp = (cmd = SOCKS5_CMD_TCP_CONNECT);
                      ta = (if tcp then ta else Ip (set_port (ta_port ta) (addr c1)))
                  in
                  and_then
                    (on_world
                      (send_p (output_tx c1)
                        (I2oConnect (session_id c1) (to_u8 SOCKS5) tcp
                          (is_compressed (common_data c1)) (ta_to_string ta)
                          (method_to_string (encryption_method (common_data c1)))
                          (base64_encode L (encryption_key (common_data c1)))
                          (show_socket_addr (addr c1)))) s1)
                    (\<lambda>_ (c, w).
                      (Ok (), (c\<lparr>target_addr := Some ta, buffer := [],
                                 status := Connecting tcp\<rparr>, w))))
             | None \<Rightarrow> (Ok (), (c1\<lparr>buffer := head_data @ buffer c1\<rparr>, snd s1)))
         else
           respond_and_close [SOCKS5_VERSION, 0x07, 0x00, 0x01, 0x00, 0x00, 0x00, 0x00, 0x00, 0x00]
             1000 s1))"

definition recv_frame :: "libs \<Rightarrow> bytes \<Rightarrow> s5_state \<Rightarrow> unit outcome \<times> s5_state" where
  "recv_frame L frame s =
     (let extended = ((fst s)\<lparr>buffer := buffer (fst s) @ frame\<rparr>, snd s) in
      case status (fst s) of
        Init \<Rightarrow> on_socks5_init extended
      | Verification \<Rightarrow> on_socks5_verification extended
      | Connect \<Rightarrow> on_socks5_connect L extended
      | Connecting _ \<Rightarrow> (Ok (), s)
      | RunWithTcp \<Rightarrow>
          and_then (on_world (encode_data_and_limiting L (common_data (fst s)) frame) s) (\<lambda>frame s.
            on_world (send_p (output_tx (fst s)) (I2oSendData (session_id (fst s)) frame)) s)
      | RunWithUdp _ \<Rightarrow> (Ok (), s))"

definition on_destroy :: "socks5_context \<Rightarrow> socks5_context" where
  "on_destroy c = c\<lparr>read_input_task_handle := False, udp_task_handle := False\<rparr>"

definition on_recv_o2i_recv_data :: "libs \<Rightarrow> u32 \<Rightarrow> bytes \<Rightarrow> s5_state \<Rightarrow> unit outcome \<times> s5_state" where
  "on_recv_o2i_recv_data L sid data s =
     (case status (fst s) of
        RunWithTcp \<Rightarrow>
          (let data_len = length data in
           and_then (decode_data L (common_data (fst s)) data, s) (\<lambda>data s.
             on_world (send_w (write_msg_tx (fst s))
               (SendAndThen data (output_tx (fst s), I2oRecvDataResult sid data_len))) s))
      | _ \<Rightarrow> (Ok (), s))"

definition on_recv_o2i_recv_data_from ::
  "libs \<Rightarrow> udp_env \<Rightarrow> u32 \<Rightarrow> bytes \<Rightarrow> string \<Rightarrow> s5_state \<Rightarrow> unit outcome \<times> s5_state" where
  "on_recv_o2i_recv_data_from L E sid data peer_addr s =
     (case status (fst s) of
        RunWithUdp _ \<Rightarrow>
          (let data_len = length data in
           and_then (decode_data L (common_data (fst s)) data, s) (\<lambda>data s.
           and_then (case parse_socket_addr peer_addr of
                       None \<Rightarrow> (Err ''invalid socket address syntax'', s)
                     | Some a \<Rightarrow> (Ok a, s)) (\<lambda>a s.
           and_then (to_be_bytes (Ip a), s) (\<lambda>addr_bytes s.
           let response = [0x0, 0x0, 0x0] @ addr_bytes @ data in
           and_then (io_result (udp_send_io E response), s) (\<lambda>_ (c, w).
             (Ok (), (c\<lparr>udp_sent := udp_sent c @ [response]\<rparr>,
                      send_p_ignore (output_tx c) (I2oRecvDataResult sid data_len) w)))))))
      | _ \<Rightarrow> (Ok (), s))"

text \<open>The reply of \<open>udp_bind\<close>; on success the context runs with the new socket and its task.\<close>

definition udp_bind :: "udp_env \<Rightarrow> s5_state \<Rightarrow> bytes outcome \<times> s5_state" where
  "udp_bind E s =
     and_then (io_result (udp_bind_io E), s) (\<lambda>_ s.
     and_then
       (case target_addr (fst s) of
          None \<Rightarrow> (Ok (), s)
        | Some ta \<Rightarrow> (io_result (udp_connect_io E (ta_to_string ta)), s)) (\<lambda>_ s.
     and_then (io_result (udp_local_port_io E), s) (\<lambda>port (c, w).
       (Ok ([SOCKS5_VERSION, 0x00, 0x00, 0x01, 0x00, 0x00, 0x00, 0x00] @ u16_to_be_bytes port),
        (c\<lparr>udp_task_handle := True, status := RunWithUdp port\<rparr>, w)))))"

definition host_unreachable :: bytes where
  "host_unreachable = [SOCKS5_VERSION, 0x04, 0x00, 0x01, 0x00, 0x00, 0x00, 0x00, 0x00, 0x00]"

definition on_recv_o2i_connect :: "udp_env \<Rightarrow> bool \<Rightarrow> s5_state \<Rightarrow> unit outcome \<times> s5_state" where
  "on_recv_o2i_connect E success s =
     (case status (fst s) of
        Connecting tcp \<Rightarrow>
          if target_addr (fst s) \<noteq> None then
            (case
               (if success then
                  (if tcp then
                     ([SOCKS5_VERSION, 0x00, 0x00, 0x01, 0x00, 0x00, 0x00, 0x00, 0x00, 0x00],
                      ((fst s)\<lparr>status := RunWithTcp\<rparr>, snd s))
                   else
                     (case udp_bind E s of
                        (Ok data, s') \<Rightarrow> (data, s')
                      | (_, s') \<Rightarrow> (host_unreachable, s')))
                else (host_unreachable, s))
             of (response, (c, w)) \<Rightarrow>
               (Ok (), (c, send_w_ignore (write_msg_tx c) (Send response True) w)))
          else (Ok (), s)
      | _ \<Rightarrow> (Ok (), s))"

definition on_recv_proxy_message ::
  "libs \<Rightarrow> udp_env \<Rightarrow> proxy_message \<Rightarrow> s5_state \<Rightarrow> unit outcome \<times> s5_state" where
  "on_recv_proxy_message L E m s =
     (case m of
        O2iConnect _ success _ \<Rightarrow> on_recv_o2i_connect E success s
      | O2iRecvData sid data \<Rightarrow> on_recv_o2i_recv_data L sid data s
      | O2iRecvDataFrom sid data peer_addr \<Rightarrow> on_recv_o2i_recv_data_from L E sid data peer_addr s
      | _ \<Rightarrow> (Ok (), s))"

text \<open>
  \<open>recv_udp_data\<close>: a datagram of \<open>amt\<close> bytes at the front of the receive buffer, from the
  application behind the UDP association.
\<close>

definition recv_udp_data ::
  "libs \<Rightarrow> u32 \<Rightarrow> nat \<Rightarrow> bytes \<Rightarrow> chan_ref \<Rightarrow> session_common_info \<Rightarrow> world \<Rightarrow> unit outcome \<times> world" where
  "recv_udp_data L sid amt buf out ci w =
     (if amt < 11 then (Err ''received data of illegal length'', w)
      else
        and_then (slice buf 0 amt, w) (\<lambda>received_data w.
        let address_type = received_data ! 3 in
        case read_address (drop 4 received_data) address_type of
          Ok (Some (a, addr_data_len)) \<Rightarrow>
            (let start = 4 + addr_data_len in
             and_then (slice buf start amt, w) (\<lambda>payload w.
             and_then (decode_data L ci payload, w) (\<lambda>data w.
               send_p out (I2oSendToData sid data (ta_to_string a)) w)))
        | Panic \<Rightarrow> (Panic, w)
        | _ \<Rightarrow> (Err ''address resolution failed'', w)))"

text \<open>The task of \<open>udp_bind\<close>: datagrams until the first error, then the session is closed.\<close>

fun udp_task :: "libs \<Rightarrow> socks5_context \<Rightarrow> bytes list \<Rightarrow> world \<Rightarrow> unit outcome \<times> world" where
  "udp_task L c [] w = (Pending, w)"
| "udp_task L c (d # ds) w =
     (case recv_udp_data L (session_id c) (length d) d (output_tx c) (common_data c) w of
        (Ok _, w') \<Rightarrow> udp_task L c ds w'
      | (Err _, w') \<Rightarrow> (Ok (), send_w_ignore (write_msg_tx c) Close w')
      | (Panic, w') \<Rightarrow> (Panic, w')
      | (Pending, w') \<Rightarrow> (Pending, w'))"

end
