(* ===== verification/Frame_Loop.thy ===== *)
theory Frame_Loop
  imports Prelude
begin

text \<open>
  The loop that every receiver runs over its buffer (np\_base/src/net/tcp\_session.rs and
  np\_client/src/client.rs) and the contract it puts on an extractor. The comment on
  \<open>on_try_extract_frame\<close> asks an extractor to consume what it returns: under that contract the loop
  ends. An extractor whose answers are not changed by bytes that follow also makes the loop
  independent of how the stream was cut into reads.
\<close>

section \<open>The loop\<close>

text \<open>
  The inner loop over the receive buffer: extract, handle, until the buffer is empty or the
  extractor asks for more. It is the value \<open>None\<close> where it would not return.
\<close>

partial_function (option) drain_loop ::
  "(bytes \<Rightarrow> 's \<Rightarrow> bytes option outcome \<times> (bytes \<times> 's)) \<Rightarrow> (bytes \<Rightarrow> 's \<Rightarrow> unit outcome \<times> 's) \<Rightarrow>
   bytes \<Rightarrow> 's \<Rightarrow> (unit outcome \<times> (bytes \<times> 's)) option" where
  "drain_loop try_extract on_recv_frame buf st =
     (if buf = [] then Some (Ok (), (buf, st))
      else
        (case try_extract buf st of
           (Ok (Some frame), (buf, st)) \<Rightarrow>
             (case on_recv_frame frame st of
                (Ok _, st) \<Rightarrow> drain_loop try_extract on_recv_frame buf st
              | (Err e, st) \<Rightarrow> Some (Err e, (buf, st))
              | (Panic, st) \<Rightarrow> Some (Panic, (buf, st))
              | (Pending, st) \<Rightarrow> Some (Pending, (buf, st)))
         | (Ok None, (buf, st)) \<Rightarrow> Some (Ok (), (buf, st))
         | (Err e, (buf, st)) \<Rightarrow> Some (Err e, (buf, st))
         | (Panic, (buf, st)) \<Rightarrow> Some (Panic, (buf, st))
         | (Pending, (buf, st)) \<Rightarrow> Some (Pending, (buf, st))))"

section \<open>The contract of an extractor\<close>

abbreviation stateless :: "(bytes \<Rightarrow> bytes option outcome \<times> bytes) \<Rightarrow> bytes \<Rightarrow> 's \<Rightarrow>
    bytes option outcome \<times> (bytes \<times> 's)" where
  "stateless try_extract \<equiv> \<lambda>b st. apsnd (\<lambda>b. (b, st)) (try_extract b)"

lemma drain_step:
  "buf \<noteq> [] \<Longrightarrow> drain_loop (stateless try_extract) h buf st =
     (case try_extract buf of
        (Ok (Some f), b) \<Rightarrow>
          (case h f st of
             (Ok _, st) \<Rightarrow> drain_loop (stateless try_extract) h b st
           | (r, st) \<Rightarrow> Some (r, (b, st)))
      | (r, b) \<Rightarrow> Some (bind_ok r (\<lambda>_. Ok ()), (b, st)))"
  by (subst drain_loop.simps) (auto split: outcome.splits option.splits prod.splits)

locale consuming_extractor =
  fixes try_extract :: "bytes \<Rightarrow> bytes option outcome \<times> bytes"
  assumes consumes: "buf \<noteq> [] \<Longrightarrow> try_extract buf = (Ok (Some frame), rest) \<Longrightarrow>
    length rest < length buf"
begin

lemma drain_terminates: "\<exists>r. drain_loop (stateless try_extract) h buf st = Some r"
proof (induction "length buf" arbitrary: buf st rule: less_induct)
  case less
  obtain r b where e: "try_extract buf = (r, b)" by fastforce
  have rec: "buf \<noteq> [] \<Longrightarrow> r = Ok (Some f) \<Longrightarrow> \<exists>y. drain_loop (stateless try_extract) h b st' = Some y" for f st'
    using less consumes e by blast
  show ?case
    using rec by (subst drain_loop.simps) (auto simp: e split: prod.splits outcome.splits option.splits)
qed

text \<open>An invariant of the handler's state, with a handler and an extractor that neither panic nor wait.\<close>

lemma drain_inv:
  assumes "\<And>f st. I st \<Longrightarrow> I (snd (h f st)) \<and> fst (h f st) \<notin> {Panic, Pending}"
    and "\<And>b. fst (try_extract b) \<notin> {Panic, Pending}"
    and "drain_loop (stateless try_extract) h buf st = Some (r, (rest, st'))" and "I st"
  shows "I st' \<and> r \<notin> {Panic, Pending}"
  using assms(3,4)
proof (induction "length buf" arbitrary: buf st rule: less_induct)
  case less
  show ?case
  proof (cases "buf = []")
    case True
    with less.prems show ?thesis by (auto simp: drain_loop.simps)
  next
    case False
    obtain q b where e: "try_extract buf = (q, b)" by fastforce
    with assms(2) [of buf] have q: "q \<noteq> Panic" "q \<noteq> Pending" by auto
    note step = drain_step [OF False, of try_extract h st, unfolded e]
    show ?thesis
    proof (cases "\<exists>f. q = Ok (Some f)")
      case True
      then obtain f where f: "q = Ok (Some f)" by blast
      obtain v st1 where h: "h f st = (v, st1)" by fastforce
      with assms(1) [OF less.prems(2), of f] have "I st1" and v: "v \<noteq> Panic" "v \<noteq> Pending" by auto
      moreover have "length b < length buf" using consumes False e f by blast
      ultimately show ?thesis
        using less step h f by (cases v) auto
    next
      case False
      with less.prems step q show ?thesis by (cases q) (auto split: option.splits)
    qed
  qed
qed

end

locale frame_extractor = consuming_extractor +
  assumes waits: "try_extract buf = (Ok None, rest) \<Longrightarrow> rest = buf"
    and stable: "try_extract buf = (Ok (Some frame), rest) \<Longrightarrow>
      try_extract (buf @ ext) = (Ok (Some frame), rest @ ext)"
    and fails: "try_extract buf = (r, rest) \<Longrightarrow> \<not> is_Ok r \<Longrightarrow> try_extract (buf @ ext) = (r, rest @ ext)"
begin

lemma drain_append:
  assumes "drain_loop (stateless try_extract) h buf st = Some (Ok u, (rest, st'))"
  shows "drain_loop (stateless try_extract) h (buf @ ext) st = drain_loop (stateless try_extract) h (rest @ ext) st'"
  using assms
proof (induction "length buf" arbitrary: buf st rule: less_induct)
  case less
  show ?case
  proof (cases "buf = []")
    case True
    with less.prems show ?thesis by (simp add: drain_loop.simps)
  next
    case False
    obtain r b where e: "try_extract buf = (r, b)" by fastforce
    consider f where "r = Ok (Some f)" | "r = Ok None"
      using less.prems False e
      by (subst (asm) drain_loop.simps) (auto split: outcome.splits option.splits)
    then show ?thesis
    proof cases
      case 1
      then obtain v st1 where h: "h f st = (Ok v, st1)"
          and d: "drain_loop (stateless try_extract) h b st1 = Some (Ok u, (rest, st'))"
        using less.prems False e
        by (subst (asm) drain_loop.simps) (auto split: outcome.splits prod.splits)
      have "drain_loop (stateless try_extract) h (b @ ext) st1 =
          drain_loop (stateless try_extract) h (rest @ ext) st'"
        using less.hyps d consumes False e 1 by blast
      moreover have "try_extract (buf @ ext) = (Ok (Some f), b @ ext)"
        using stable e 1 by blast
      ultimately show ?thesis
        using False h by (subst drain_loop.simps) simp
    next
      case 2
      with less.prems False e waits show ?thesis
        by (subst (asm) drain_loop.simps) auto
    qed
  qed
qed

lemma drain_append_fail:
  assumes "drain_loop (stateless try_extract) h buf st = Some (r, (rest, st'))" and "\<not> is_Ok r"
  shows "drain_loop (stateless try_extract) h (buf @ ext) st = Some (r, (rest @ ext, st'))"
  using assms
proof (induction "length buf" arbitrary: buf st rule: less_induct)
  case less
  have ne: "buf \<noteq> []"
    using less.prems by (auto simp: drain_loop.simps)
  obtain q b where e: "try_extract buf = (q, b)" by fastforce
  note step = drain_step [of buf try_extract h st, unfolded e]
  note step' = drain_step [of "buf @ ext" try_extract h st]
  show ?case
  proof (cases "is_Ok q")
    case False
    with less.prems ne step fails [OF e False, of ext] step' show ?thesis
      by (cases q) auto
  next
    case True
    then obtain f where q: "q = Ok (Some f)"
      using less.prems ne step by (cases q) (auto split: option.splits)
    obtain v st1 where h: "h f st = (v, st1)" by fastforce
    have "drain_loop (stateless try_extract) h b st1 = Some (r, rest, st') \<Longrightarrow>
        drain_loop (stateless try_extract) h (b @ ext) st1 = Some (r, rest @ ext, st')"
      using less.hyps less.prems(2) consumes ne e q by blast
    with less.prems ne step step' stable [OF e [unfolded q], of ext] h q show ?thesis
      by (cases v) auto
  qed
qed

end

end
