(* ===== verification/Tcp_Session.thy ===== *)
theory Tcp_Session
  imports Frame_Loop Proxy_Core
begin

text \<open>
  np\_base/src/net/session\_delegate.rs and np\_base/src/net/tcp\_session.rs: the life of one TCP
  session. The trait \<open>SessionDelegate\<close> is a record of operations on the state of the delegate and the
  store; the buffered writer of \<open>tokio\<close> is the parameter \<open>writer\<close>. Shown: what the write loop puts on
  the wire and acknowledges, in which order; that the read loop returns; and that a delegate is
  closed exactly once, after a successful start, whatever ends the session.
\<close>

section \<open>Delegates\<close>

record 'd session_delegate =
  on_session_start :: "u32 \<Rightarrow> socket_addr \<Rightarrow> chan_ref \<Rightarrow> 'd \<times> world \<Rightarrow> unit outcome \<times> ('d \<times> world)"
  on_session_close :: "'d \<times> world \<Rightarrow> unit outcome \<times> ('d \<times> world)"
  on_try_extract_frame :: "bytes \<Rightarrow> 'd \<times> world \<Rightarrow> bytes option outcome \<times> (bytes \<times> ('d \<times> world))"
  on_recv_frame :: "bytes \<Rightarrow> 'd \<times> world \<Rightarrow> unit outcome \<times> ('d \<times> world)"
  on_recv_frame_from :: "bytes \<Rightarrow> socket_addr \<Rightarrow> 'd \<times> world \<Rightarrow> unit outcome \<times> ('d \<times> world)"

text \<open>The provided methods of the trait: everything in the buffer is one frame; datagrams panic.\<close>

definition split_all :: "bytes \<Rightarrow> bytes option outcome \<times> bytes" where
  "split_all buf = (Ok (Some buf), [])"

definition default_try_extract_frame :: "bytes \<Rightarrow> 's \<Rightarrow> bytes option outcome \<times> (bytes \<times> 's)" where
  "default_try_extract_frame buf s = apsnd (\<lambda>b. (b, s)) (split_all buf)"

definition default_on_recv_frame_from :: "bytes \<Rightarrow> socket_addr \<Rightarrow> 's \<Rightarrow> unit outcome \<times> 's" where
  "default_on_recv_frame_from frame peer_addr s = (Panic, s)"

section \<open>Writing\<close>

record 'k writer =
  write_all :: "bytes \<Rightarrow> 'k \<Rightarrow> (string + unit) \<times> 'k"
  flush :: "'k \<Rightarrow> (string + unit) \<times> 'k"

datatype write_end = Continue | Break | WritePanic

definition run_callback :: "callback \<Rightarrow> world \<Rightarrow> world" where
  "run_callback cb w = send_p_ignore (fst cb) (snd cb) w"

text \<open>One iteration of \<open>poll_write\<close>; an error of \<open>flush\<close> is only logged.\<close>

definition write_message :: "'k writer \<Rightarrow> wmsg \<Rightarrow> 'k \<times> world \<Rightarrow> write_end \<times> ('k \<times> world)" where
  "write_message W m s =
     (case m of
        Close \<Rightarrow> (Break, s)
      | CloseDelayed _ \<Rightarrow> (Break, s)
      | Send data fl \<Rightarrow>
          if data = [] then (Continue, s)
          else
            (case write_all W data (fst s) of
               (Inl _, k) \<Rightarrow> (Break, (k, snd s))
             | (Inr _, k) \<Rightarrow> (Continue, (if fl then snd (flush W k) else k, snd s)))
      | SendTo _ _ \<Rightarrow> (WritePanic, s)
      | SendAndThen data cb \<Rightarrow>
          if data = [] then (Continue, (fst s, run_callback cb (snd s)))
          else
            (case write_all W data (fst s) of
               (Inl _, k) \<Rightarrow> (Break, (k, snd s))
             | (Inr _, k) \<Rightarrow> (Continue, (snd (flush W k), run_callback cb (snd s))))
      | Flush \<Rightarrow> (Continue, (snd (flush W (fst s)), snd s)))"

definition close_receiver :: "chan_ref \<Rightarrow> world \<Rightarrow> world" where
  "close_receiver c w = w\<lparr>wchans := (wchans w)(c := (wchans w c)\<lparr>alive := False\<rparr>)\<rparr>"

text \<open>
  \<open>poll_write\<close> up to the point where the queue is empty and it waits for the next message
  (\<open>Continue\<close>), or has ended.
\<close>

lemma wchans_write_message [simp]: "wchans (snd (snd (write_message W m s))) = wchans (snd s)"
  by (auto simp: write_message_def run_callback_def send_p_ignore_def
      split: writer_message.splits prod.splits sum.splits)

function poll_write :: "'k writer \<Rightarrow> chan_ref \<Rightarrow> 'k \<times> world \<Rightarrow> write_end \<times> ('k \<times> world)" where
  "poll_write W c s =
     (case chan_recv (wchans (snd s) c) of
        None \<Rightarrow> (Continue, s)
      | Some (m, ch) \<Rightarrow>
          let r = write_message W m (fst s, (snd s)\<lparr>wchans := (wchans (snd s))(c := ch)\<rparr>) in
          (case fst r of
             Continue \<Rightarrow> poll_write W c (snd r)
           | Break \<Rightarrow> (Break, (fst (snd r), close_receiver c (snd (snd r))))
           | WritePanic \<Rightarrow> (WritePanic, snd r)))"
  by pat_completeness auto
termination
  by (relation "measure (\<lambda>(W, c, s). length (queue (wchans (snd s) c)))")
    (auto simp: chan_recv_def split: list.splits)

declare poll_write.simps [simp del]

section \<open>Reading\<close>

fun poll_read :: "'d session_delegate \<Rightarrow> socket_addr \<Rightarrow> (string + bytes) list \<Rightarrow> bytes \<Rightarrow> 'd \<times> world \<Rightarrow>
    (unit outcome \<times> (bytes \<times> ('d \<times> world))) option" where
  "poll_read D a [] buf s = Some (Pending, (buf, s))"
| "poll_read D a (Inl e # rs) buf s = Some (Err e, (buf, s))"
| "poll_read D a (Inr chunk # rs) buf s =
     (if chunk = [] then Some (Err (''['' @ show_socket_addr a @ ''] socket closed.''), (buf, s))
      else
        (case drain_loop (on_try_extract_frame D) (on_recv_frame D) (buf @ chunk) s of
           None \<Rightarrow> None
         | Some (Ok _, (buf, s)) \<Rightarrow> poll_read D a rs buf s
         | Some r \<Rightarrow> Some r))"

interpretation raw_frames: consuming_extractor split_all
  by unfold_locales (auto simp: split_all_def)

section \<open>What the write loop does\<close>

text \<open>
  The promise of the buffered writer as long as the connection holds: \<open>acc\<close> are the bytes accepted,
  \<open>wire\<close> those handed to the operating system.
\<close>

definition reliable :: "'k writer \<Rightarrow> ('k \<Rightarrow> bytes) \<Rightarrow> ('k \<Rightarrow> bytes) \<Rightarrow> bool" where
  "reliable W acc wire \<longleftrightarrow>
     (\<forall>d k. fst (write_all W d k) = Inr () \<and> acc (snd (write_all W d k)) = acc k @ d) \<and>
     (\<forall>k. acc (snd (flush W k)) = acc k \<and> wire (snd (flush W k)) = acc k)"

fun is_close :: "wmsg \<Rightarrow> bool" where
  "is_close Close = True"
| "is_close (CloseDelayed _) = True"
| "is_close _ = False"

fun is_send_to :: "wmsg \<Rightarrow> bool" where
  "is_send_to (SendTo _ _) = True"
| "is_send_to _ = False"

fun payload :: "wmsg \<Rightarrow> bytes" where
  "payload (Send d _) = d"
| "payload (SendAndThen d _) = d"
| "payload _ = []"

fun callbacks :: "wmsg list \<Rightarrow> callback list" where
  "callbacks [] = []"
| "callbacks (SendAndThen d cb # ms) = cb # callbacks ms"
| "callbacks (_ # ms) = callbacks ms"

lemma write_message_reliable:
  assumes "reliable W acc wire" and "\<not> is_close m" and "\<not> is_send_to m"
  shows "fst (write_message W m s) = Continue
    \<and> acc (fst (snd (write_message W m s))) = acc (fst s) @ payload m
    \<and> snd (snd (write_message W m s)) = fold run_callback (callbacks [m]) (snd s)"
  using assms
  by (cases m) (auto simp: write_message_def reliable_def split_beta)

lemma run_callback_wchans: "run_callback cb (w\<lparr>wchans := x\<rparr>) = (run_callback cb w)\<lparr>wchans := x\<rparr>"
  by (cases w) (simp add: run_callback_def send_p_ignore_def send_p_def split_beta)

lemma run_callbacks_wchans:
  "fold run_callback cbs (w\<lparr>wchans := x\<rparr>) = (fold run_callback cbs w)\<lparr>wchans := x\<rparr>"
  by (induction cbs arbitrary: w) (simp_all add: run_callback_wchans)

lemma chan_unchanged: "queue ch = [] \<Longrightarrow> ch\<lparr>queue := [], alive := alive ch\<rparr> = ch"
  by (cases ch) simp

lemma callbacks_Cons: "callbacks (m # ms) = callbacks [m] @ callbacks ms"
  by (cases m) simp_all

lemma poll_write_spec:
  assumes "reliable W acc wire"
    and "wqueue (snd s) c = ms @ rest" and "\<forall>m \<in> set ms. \<not> is_close m \<and> \<not> is_send_to m"
    and "rest \<noteq> [] \<Longrightarrow> is_close (hd rest)"
  shows "\<exists>k. poll_write W c s =
      (if rest = [] then Continue else Break,
       (k, (fold run_callback (callbacks ms) (snd s))\<lparr>wchans := (wchans (snd s))
          (c := (wchans (snd s) c)\<lparr>queue := tl rest, alive := alive (wchans (snd s) c) \<and> rest = []\<rparr>)\<rparr>))
    \<and> acc k = acc (fst s) @ concat (map payload ms)"
  using assms(2-)
proof (induction ms arbitrary: s)
  case Nil
  show ?case
  proof (cases rest)
    case Nil
    with \<open>wqueue (snd s) c = [] @ rest\<close> show ?thesis
      by (subst poll_write.simps)
        (auto simp: chan_recv_def chan_unchanged intro!: exI [of _ "fst s"] prod_eqI)
  next
    case (Cons m ms)
    with Nil.prems show ?thesis
      by (subst poll_write.simps, cases m)
        (auto simp: chan_recv_def write_message_def close_receiver_def intro!: exI [of _ "fst s"])
  qed
next
  case (Cons m ms)
  let ?w = "(snd s)\<lparr>wchans := (wchans (snd s))(c := (wchans (snd s) c)\<lparr>queue := ms @ rest\<rparr>)\<rparr>"
  let ?r = "write_message W m (fst s, ?w)"
  have r: "fst ?r = Continue" "acc (fst (snd ?r)) = acc (fst s) @ payload m"
    "snd (snd ?r) = fold run_callback (callbacks [m]) ?w"
    using write_message_reliable [OF assms(1), of m "(fst s, ?w)"] Cons.prems by simp_all
  have p: "poll_write W c s = poll_write W c (snd ?r)"
    using Cons.prems(1) r(1) by (subst poll_write.simps) (simp add: chan_recv_def)
  have q: "wchans (snd (snd ?r)) = (wchans (snd s))(c := (wchans (snd s) c)\<lparr>queue := ms @ rest\<rparr>)"
    by simp
  then have "wqueue (snd (snd ?r)) c = ms @ rest" by simp
  then have "\<exists>k. poll_write W c (snd ?r) = (if rest = [] then Continue else Break,
       (k, (fold run_callback (callbacks ms) (snd (snd ?r)))\<lparr>wchans := (wchans (snd (snd ?r)))
          (c := (wchans (snd (snd ?r)) c)\<lparr>queue := tl rest,
             alive := alive (wchans (snd (snd ?r)) c) \<and> rest = []\<rparr>)\<rparr>))
    \<and> acc k = acc (fst (snd ?r)) @ concat (map payload ms)"
    using Cons.prems by (intro Cons.IH) simp_all
  then obtain k where
    k: "poll_write W c (snd ?r) = (if rest = [] then Continue else Break,
       (k, (fold run_callback (callbacks ms) (snd (snd ?r)))\<lparr>wchans := (wchans (snd s))
          (c := (wchans (snd s) c)\<lparr>queue := tl rest, alive := alive (wchans (snd s) c) \<and> rest = []\<rparr>)\<rparr>))"
    and a: "acc k = acc (fst (snd ?r)) @ concat (map payload ms)"
    unfolding q by auto
  have w: "fold run_callback (callbacks (m # ms)) (snd s)\<lparr>wchans := x\<rparr> =
      (fold run_callback (callbacks ms) (snd (snd ?r)))\<lparr>wchans := x\<rparr>" for x
    by (simp add: r(3) run_callbacks_wchans callbacks_Cons [of m ms])
  show ?case
    unfolding p k w by (rule exI [of _ k]) (simp add: a r(2))
qed

text \<open>
  C24: While the connection holds, the write loop handles the queued messages in order up to the
  first close: it writes exactly their payloads, runs exactly the completion callbacks of its
  \<open>SendAndThen\<close> messages, in order and each after its data has been flushed, then waits for more or,
  at a close, stops and refuses further messages.
\<close>

theorem write_loop_in_order:
  assumes "reliable W acc wire"
    and "wqueue w c = ms @ rest" and "\<forall>m \<in> set ms. \<not> is_close m \<and> \<not> is_send_to m"
    and "rest = [] \<or> is_close (hd rest)"
  shows "(\<exists>k'. poll_write W c (k, w) =
      (if rest = [] then Continue else Break,
       (k', (fold run_callback (callbacks ms) w)\<lparr>wchans := (wchans w)
          (c := (wchans w c)\<lparr>queue := tl rest, alive := alive (wchans w c) \<and> rest = []\<rparr>)\<rparr>))
    \<and> acc k' = acc k @ concat (map payload ms))
    \<and> (\<forall>d cb s. d \<noteq> [] \<longrightarrow>
        (let s' = snd (write_message W (SendAndThen d cb) s) in wire (fst s') = acc (fst s) @ d))"
proof
  show "\<exists>k'. poll_write W c (k, w) =
      (if rest = [] then Continue else Break,
       (k', (fold run_callback (callbacks ms) w)\<lparr>wchans := (wchans w)
          (c := (wchans w c)\<lparr>queue := tl rest, alive := alive (wchans w c) \<and> rest = []\<rparr>)\<rparr>))
    \<and> acc k' = acc k @ concat (map payload ms)"
    using poll_write_spec [of W acc wire "(k, w)" c ms rest] assms by auto
  show "\<forall>d cb s. d \<noteq> [] \<longrightarrow>
      (let s' = snd (write_message W (SendAndThen d cb) s) in wire (fst s') = acc (fst s) @ d)"
    using assms(1) by (auto simp: write_message_def reliable_def split_beta)
qed

text \<open>A writer that collects what is written and what is flushed.\<close>

definition demo_writer :: "(bytes \<times> bytes) writer" where
  "demo_writer = \<lparr>write_all = (\<lambda>d k. (Inr (), (fst k @ d, snd k))), flush = (\<lambda>k. (Inr (), (fst k, fst k)))\<rparr>"

theorem write_loop_in_order_witness:
  "\<exists>k'. poll_write demo_writer 0 (([], []), init_world\<lparr>wchans := (\<lambda>_. new_chan)
       (0 := \<lparr>queue = [Send [1] False, SendAndThen [2, 3] (1, I2oRecvDataResult 7 2), Close], alive = True\<rparr>)\<rparr>) =
      (Break, (k', (run_callback (1, I2oRecvDataResult 7 2) init_world)\<lparr>wchans := (\<lambda>_. new_chan)
         (0 := \<lparr>queue = [], alive = False\<rparr>)\<rparr>))
    \<and> fst k' = [1, 2, 3]"
proof -
  have "reliable demo_writer fst snd" by (simp add: reliable_def demo_writer_def)
  from write_loop_in_order [OF this, where c = 0 and rest = "[Close]" and k = "([], [])"
      and ms = "[Send [1] False, SendAndThen [2, 3] (1, I2oRecvDataResult 7 2)]"
      and w = "init_world\<lparr>wchans := (\<lambda>_. new_chan)
       (0 := \<lparr>queue = [Send [1] False, SendAndThen [2, 3] (1, I2oRecvDataResult 7 2), Close], alive = True\<rparr>)\<rparr>"]
  show ?thesis by (simp add: run_callback_wchans new_chan_def)
qed

section \<open>The life of a session\<close>

text \<open>
  \<open>run\<close> as a step relation: the start, then reads and writes in any order until one of the loops
  ends or the shutdown signal comes, then the close. A panic unwinds the task at once. Between the
  steps other tasks act on the shared state, within \<open>R\<close>. \<open>starts\<close> and \<open>closes\<close> count the successful
  calls of \<open>on_session_start\<close> and the calls of \<open>on_session_close\<close>.
\<close>

datatype phase = Starting | Running | Closing | Finished | Unwound

record ('d, 'k) tcp_state =
  phase :: phase
  rbuf :: bytes
  sink :: 'k
  dstate :: "'d \<times> world"
  starts :: nat
  closes :: nat

inductive tcp_step ::
  "('d \<times> world \<Rightarrow> 'd \<times> world \<Rightarrow> bool) \<Rightarrow> 'd session_delegate \<Rightarrow> 'k writer \<Rightarrow> u32 \<Rightarrow> socket_addr \<Rightarrow> chan_ref \<Rightarrow>
   ('d, 'k) tcp_state \<Rightarrow> ('d, 'k) tcp_state \<Rightarrow> bool"
  for R D W sid a c where
  start_ok: "phase s = Starting \<Longrightarrow> on_session_start D sid a c (dstate s) = (Ok (), d') \<Longrightarrow>
    tcp_step R D W sid a c s (s\<lparr>phase := Running, dstate := d', starts := Suc (starts s)\<rparr>)"
| start_err: "phase s = Starting \<Longrightarrow> on_session_start D sid a c (dstate s) = (Err e, d') \<Longrightarrow>
    tcp_step R D W sid a c s (s\<lparr>phase := Finished, dstate := d'\<rparr>)"
| start_panic: "phase s = Starting \<Longrightarrow> on_session_start D sid a c (dstate s) = (Panic, d') \<Longrightarrow>
    tcp_step R D W sid a c s (s\<lparr>phase := Unwound, dstate := d'\<rparr>)"
| read_ok: "phase s = Running \<Longrightarrow> chunk \<noteq> [] \<Longrightarrow>
    drain_loop (on_try_extract_frame D) (on_recv_frame D) (rbuf s @ chunk) (dstate s) = Some (Ok (), (b, d')) \<Longrightarrow>
    tcp_step R D W sid a c s (s\<lparr>rbuf := b, dstate := d'\<rparr>)"
| read_err: "phase s = Running \<Longrightarrow> chunk \<noteq> [] \<Longrightarrow>
    drain_loop (on_try_extract_frame D) (on_recv_frame D) (rbuf s @ chunk) (dstate s) = Some (Err e, (b, d')) \<Longrightarrow>
    tcp_step R D W sid a c s (s\<lparr>phase := Closing, rbuf := b, dstate := d'\<rparr>)"
| read_panic: "phase s = Running \<Longrightarrow> chunk \<noteq> [] \<Longrightarrow>
    drain_loop (on_try_extract_frame D) (on_recv_frame D) (rbuf s @ chunk) (dstate s) = Some (Panic, (b, d')) \<Longrightarrow>
    tcp_step R D W sid a c s (s\<lparr>phase := Unwound, rbuf := b, dstate := d'\<rparr>)"
| read_closed: "phase s = Running \<Longrightarrow> tcp_step R D W sid a c s (s\<lparr>phase := Closing\<rparr>)"
| write_one: "phase s = Running \<Longrightarrow> dstate s = (d, w) \<Longrightarrow> chan_recv (wchans w c) = Some (m, ch) \<Longrightarrow>
    write_message W m (sink s, w\<lparr>wchans := (wchans w)(c := ch)\<rparr>) = (Continue, (k, w')) \<Longrightarrow>
    tcp_step R D W sid a c s (s\<lparr>sink := k, dstate := (d, w')\<rparr>)"
| write_break: "phase s = Running \<Longrightarrow> dstate s = (d, w) \<Longrightarrow> chan_recv (wchans w c) = Some (m, ch) \<Longrightarrow>
    write_message W m (sink s, w\<lparr>wchans := (wchans w)(c := ch)\<rparr>) = (Break, (k, w')) \<Longrightarrow>
    tcp_step R D W sid a c s (s\<lparr>phase := Closing, sink := k, dstate := (d, close_receiver c w')\<rparr>)"
| write_panic: "phase s = Running \<Longrightarrow> dstate s = (d, w) \<Longrightarrow> chan_recv (wchans w c) = Some (m, ch) \<Longrightarrow>
    write_message W m (sink s, w\<lparr>wchans := (wchans w)(c := ch)\<rparr>) = (WritePanic, (k, w')) \<Longrightarrow>
    tcp_step R D W sid a c s (s\<lparr>phase := Unwound, sink := k, dstate := (d, w')\<rparr>)"
| shutdown: "phase s = Running \<Longrightarrow> tcp_step R D W sid a c s (s\<lparr>phase := Closing\<rparr>)"
| close: "phase s = Closing \<Longrightarrow> on_session_close D (dstate s) = (r, d') \<Longrightarrow> r \<noteq> Panic \<Longrightarrow> r \<noteq> Pending \<Longrightarrow>
    tcp_step R D W sid a c s (s\<lparr>phase := Finished, dstate := d', closes := Suc (closes s)\<rparr>)"
| close_panic: "phase s = Closing \<Longrightarrow> on_session_close D (dstate s) = (Panic, d') \<Longrightarrow>
    tcp_step R D W sid a c s (s\<lparr>phase := Unwound, dstate := d'\<rparr>)"
| others: "R (dstate s) d' \<Longrightarrow> tcp_step R D W sid a c s (s\<lparr>dstate := d'\<rparr>)"

inductive tcp_reach for R D W sid a c where
  reach_init: "tcp_reach R D W sid a c \<lparr>phase = Starting, rbuf = [], sink = k, dstate = d, starts = 0, closes = 0\<rparr>"
| reach_step: "tcp_reach R D W sid a c s \<Longrightarrow> tcp_step R D W sid a c s t \<Longrightarrow> tcp_reach R D W sid a c t"

inductive_cases tcp_stepE: "tcp_step R D W sid a c s t"

text \<open>
  What a step of a session may do to its phase and to the numbers of starts and closes. The interface
  \<open>session_life\<close> asks this of a step relation with some view of its states; TCP and UDP sessions are
  interpretations.
\<close>

fun life_step :: "phase \<times> nat \<times> nat \<Rightarrow> phase \<times> nat \<times> nat \<Rightarrow> bool" where
  "life_step (p, n, m) (q, n', m') \<longleftrightarrow>
     (q = p \<or> q = Unwound \<and> p \<noteq> Finished \<or> p = Starting \<and> q = Finished \<or> p = Running \<and> q = Closing) \<and> n' = n \<and> m' = m
     \<or> p = Starting \<and> q = Running \<and> n' = Suc n \<and> m' = m
     \<or> p = Closing \<and> q = Finished \<and> n' = n \<and> m' = Suc m"

fun life_ok :: "phase \<times> nat \<times> nat \<Rightarrow> bool" where
  "life_ok (Starting, n, m) \<longleftrightarrow> n = 0 \<and> m = 0"
| "life_ok (Running, n, m) \<longleftrightarrow> n = 1 \<and> m = 0"
| "life_ok (Closing, n, m) \<longleftrightarrow> n = 1 \<and> m = 0"
| "life_ok (Finished, n, m) \<longleftrightarrow> n \<le> 1 \<and> m = n"
| "life_ok (Unwound, n, m) \<longleftrightarrow> n \<le> 1 \<and> m = 0"

lemma life_ok_step: "life_step x y \<Longrightarrow> life_ok x \<Longrightarrow> life_ok y"
  by (cases x rule: life_ok.cases; cases y) auto

locale session_life =
  fixes view :: "'s \<Rightarrow> phase \<times> nat \<times> nat"
    and step :: "'s \<Rightarrow> 's \<Rightarrow> bool"
  assumes life: "step s t \<Longrightarrow> life_step (view s) (view t)"
begin

lemma life_ok_reach: "step\<^sup>*\<^sup>* s t \<Longrightarrow> view s = (Starting, 0, 0) \<Longrightarrow> life_ok (view t)"
proof (induction rule: rtranclp_induct)
  case (step t u)
  then show ?case using life life_ok_step by blast
qed simp

lemma closed_once:
  assumes "step\<^sup>*\<^sup>* s t" and "view s = (Starting, 0, 0)" and "view t = (p, n, m)"
  shows "m \<le> n \<and> n \<le> 1 \<and> (p = Finished \<longrightarrow> m = n)"
  using life_ok_reach [OF assms(1,2)] assms(3) by (cases p) auto

end

interpretation tcp_life: session_life "\<lambda>s. (phase s, starts s, closes s)" "tcp_step R D W sid a c" for R D W sid a c
  by unfold_locales (auto elim: tcp_stepE)

lemma tcp_reach_star:
  "tcp_reach R D W sid a c s \<Longrightarrow> \<exists>k d. (tcp_step R D W sid a c)\<^sup>*\<^sup>*
     \<lparr>phase = Starting, rbuf = [], sink = k, dstate = d, starts = 0, closes = 0\<rparr> s"
  by (induction rule: tcp_reach.induct) (auto intro: rtranclp.rtrancl_into_rtrancl)

text \<open>
  Whatever the delegate does, whatever arrives and whatever ends a session: \<open>on_session_close\<close> is
  called at most once and never without a successful \<open>on_session_start\<close>, and a session that has
  finished has closed exactly the sessions it started.
\<close>

theorem started_sessions_are_closed_once:
  assumes "tcp_reach R D W sid a c s"
  shows "closes s \<le> starts s \<and> starts s \<le> 1 \<and> (phase s = Finished \<longrightarrow> closes s = starts s)"
proof -
  obtain k d where "(tcp_step R D W sid a c)\<^sup>*\<^sup>*
     \<lparr>phase = Starting, rbuf = [], sink = k, dstate = d, starts = 0, closes = 0\<rparr> s"
    using tcp_reach_star [OF assms] by blast
  then show ?thesis by (rule tcp_life.closed_once) simp_all
qed

definition demo_delegate :: "unit session_delegate" where
  "demo_delegate = \<lparr>on_session_start = (\<lambda>_ _ _ s. (Ok (), s)), on_session_close = (\<lambda>s. (Ok (), s)),
     on_try_extract_frame = default_try_extract_frame, on_recv_frame = (\<lambda>_ s. (Ok (), s)),
     on_recv_frame_from = default_on_recv_frame_from\<rparr>"

definition demo_finished :: "(unit, bytes \<times> bytes) tcp_state" where
  "demo_finished =
     \<lparr>phase = Finished, rbuf = [], sink = ([], []), dstate = ((), init_world), starts = 1, closes = 1\<rparr>"

theorem started_sessions_are_closed_once_witness:
  "tcp_reach (\<lambda>_ _. False) demo_delegate demo_writer 1 (V4 (Ipv4Addr 10 0 0 1) 80) 0 demo_finished
   \<and> closes demo_finished = starts demo_finished"
proof -
  let ?reach = "tcp_reach (\<lambda>_ _. False) demo_delegate demo_writer 1 (V4 (Ipv4Addr 10 0 0 1) 80) 0"
  let ?s = "\<lambda>p n m. \<lparr>phase = p, rbuf = [], sink = ([], []), dstate = ((), init_world), starts = n, closes = m\<rparr>"
  have "?reach (?s Starting 0 0)" by (rule reach_init)
  then have "?reach (?s Running 1 0)"
    by (rule reach_step) (use start_ok [where s = "?s Starting 0 0" and D = demo_delegate and d' = "((), init_world)"] in \<open>auto simp: demo_delegate_def\<close>)
  then have "?reach (?s Closing 1 0)"
    by (rule reach_step) (use shutdown [of "?s Running 1 0"] in simp)
  then have r: "?reach (?s Finished 1 1)"
    by (rule reach_step) (use close [where s = "?s Closing 1 0" and D = demo_delegate and r = "Ok ()" and d' = "((), init_world)"] in \<open>auto simp: demo_delegate_def\<close>)
  with started_sessions_are_closed_once [OF r] show ?thesis by (simp add: demo_finished_def)
qed

end
