(* ===== verification/Inlet.thy ===== *)
theory Inlet
  imports Socks5 Tcp_Session
begin

text \<open>
  np\_base/src/proxy/inlet.rs: the end of a tunnel that listens. \<open>inlet\<close> is the shared object,
  \<open>inlet_session\<close> the delegate of one accepted connection. The map of sessions is shared between the
  object and its delegates, so the operations of a delegate take it with the store. Channels that an
  operation creates get a reference from the caller; binding the listening socket is the parameter
  \<open>bind\<close>.
\<close>

type_synonym 'i session_info_map = "(u32, 'i) hmap"

record inlet_session_info =
  proxy_message_tx :: "chan_ref option"
  writer_tx :: chan_ref
  common_info :: session_common_info

record inlet =
  is_running :: bool
  input_tx :: "chan_ref option"
  session_info_map :: "inlet_session_info session_info_map"
  description :: string

text \<open>\<open>write_msg_tx\<close> of \<open>SessionInfo\<close> is \<open>writer_tx\<close>, \<open>input\<close> of \<open>Inlet\<close> is \<open>input_tx\<close>.\<close>

section \<open>The inlet\<close>

definition inlet_new :: "string \<Rightarrow> inlet" where
  "inlet_new descr = \<lparr>is_running = False, input_tx = None, session_info_map = [], description = descr\<rparr>"

definition inlet_running :: "inlet \<Rightarrow> bool" where
  "inlet_running i = is_running i"

definition open_chan :: "chan_ref \<Rightarrow> world \<Rightarrow> world" where
  "open_chan c w = w\<lparr>pchans := (pchans w)(c := new_chan)\<rparr>"

text \<open>
  \<open>start\<close>: the flag and the input channel are set before the socket is bound; an error of \<open>bind\<close>
  leaves the function there.
\<close>

definition inlet_start ::
  "(inlet_proxy_type \<Rightarrow> string \<Rightarrow> string + unit) \<Rightarrow> chan_ref \<Rightarrow> chan_ref \<Rightarrow> inlet_proxy_type \<Rightarrow> string \<Rightarrow>
   inlet \<times> world \<Rightarrow> unit outcome \<times> (inlet \<times> world)" where
  "inlet_start bind input_ref output_ref proxy_type listen_addr s =
     (if inlet_running (fst s) then (Err ''Repeated start'', s)
      else
        (let s = ((fst s)\<lparr>input_tx := Some input_ref, is_running := True\<rparr>,
                  open_chan output_ref (open_chan input_ref (snd s)))
         in (io_result (bind proxy_type listen_addr), s)))"

text \<open>The task spawned by \<open>start\<close> has ended.\<close>

definition inlet_task_ended :: "inlet \<Rightarrow> inlet" where
  "inlet_task_ended i = i\<lparr>is_running := False\<rparr>"

definition inlet_input :: "proxy_message \<Rightarrow> inlet \<times> world \<Rightarrow> inlet \<times> world" where
  "inlet_input m s =
     (case input_tx (fst s) of
        Some tx \<Rightarrow> (fst s, send_p_ignore tx m (snd s))
      | None \<Rightarrow> s)"

text \<open>\<open>stop\<close> drops the input channel and waits until the task has ended.\<close>

definition inlet_stop :: "inlet \<Rightarrow> unit outcome \<times> inlet" where
  "inlet_stop i =
     (let i = i\<lparr>input_tx := None\<rparr> in
      if inlet_running i then (Pending, i) else (Ok (), i\<lparr>session_info_map := []\<rparr>))"

definition inlet_input_internal ::
  "libs \<Rightarrow> chan_ref \<Rightarrow> inlet_session_info session_info_map \<Rightarrow> proxy_message \<Rightarrow> world \<Rightarrow>
   unit outcome \<times> world" where
  "inlet_input_internal L out sessions m w =
     (case m of
        O2iConnect sid success error_msg \<Rightarrow>
          (case hm_get sessions sid of
             Some session \<Rightarrow>
               (case proxy_message_tx session of
                  Some tx \<Rightarrow> send_p tx (O2iConnect sid success error_msg) w
                | None \<Rightarrow> if \<not> success then send_w (writer_tx session) Close w else (Ok (), w))
           | None \<Rightarrow> (Ok (), w))
      | O2iDisconnect sid \<Rightarrow>
          (case hm_get sessions sid of
             Some session \<Rightarrow> send_w (writer_tx session) Close w
           | None \<Rightarrow> (Ok (), w))
      | O2iSendDataResult sid data_len \<Rightarrow>
          (case hm_get sessions sid of
             Some session \<Rightarrow> (Ok (), release_read_buf (read_buf_len (common_info session)) data_len w)
           | None \<Rightarrow> (Ok (), w))
      | O2iRecvDataFrom sid data remote_addr \<Rightarrow>
          (case hm_get sessions sid of
             Some session \<Rightarrow>
               (case proxy_message_tx session of
                  Some tx \<Rightarrow> send_p tx (O2iRecvDataFrom sid data remote_addr) w
                | None \<Rightarrow> (Panic, w))
           | None \<Rightarrow> (Ok (), w))
      | O2iRecvData sid data \<Rightarrow>
          (case hm_get sessions sid of
             Some session \<Rightarrow>
               (case proxy_message_tx session of
                  Some tx \<Rightarrow> send_p tx (O2iRecvData sid data) w
                | None \<Rightarrow>
                    (let data_len = length data in
                     and_then (decode_data L (common_info session) data, w) (\<lambda>data w.
                       send_w (writer_tx session) (SendAndThen data (out, I2oRecvDataResult sid data_len)) w)))
           | None \<Rightarrow> (Ok (), w))
      | _ \<Rightarrow> (Err ''Unknown message'', w))"

text \<open>\<open>async_receive_input\<close>: errors are logged, a panic ends the task.\<close>

fun inlet_receive_input ::
  "libs \<Rightarrow> chan_ref \<Rightarrow> inlet_session_info session_info_map \<Rightarrow> proxy_message list \<Rightarrow> world \<Rightarrow>
   unit outcome \<times> world" where
  "inlet_receive_input L out sessions [] w = (Pending, w)"
| "inlet_receive_input L out sessions (m # ms) w =
     (case inlet_input_internal L out sessions m w of
        (Ok _, w) \<Rightarrow> inlet_receive_input L out sessions ms w
      | (Err _, w) \<Rightarrow> inlet_receive_input L out sessions ms w
      | (Panic, w) \<Rightarrow> (Panic, w)
      | (Pending, w) \<Rightarrow> (Pending, w))"

section \<open>The delegate of a session\<close>

record inlet_session =
  inlet_proxy_type :: inlet_proxy_type
  output_addr :: string
  sess_id :: u32
  sess_output :: chan_ref
  sess_common :: session_common_info
  socks5context :: "socks5_context option"
  sess_data_ex :: inlet_data_ex

text \<open>
  The fields \<open>session_id\<close>, \<open>output\<close>, \<open>common_data\<close> and \<open>data_ex\<close> of \<open>InletSession\<close> are those with the
  prefix. A session works on itself and the shared map.
\<close>

type_synonym inlet_dstate = "inlet_session \<times> inlet_session_info session_info_map"

definition inlet_session_new ::
  "rng \<Rightarrow> inlet_proxy_type \<Rightarrow> string \<Rightarrow> bool \<Rightarrow> string \<Rightarrow> chan_ref \<Rightarrow> inlet_data_ex \<Rightarrow> counter_ref \<Rightarrow> world \<Rightarrow>
   inlet_session \<times> world" where
  "inlet_session_new gen_range proxy_type target compressed method_name out d counter w =
     (case from_method_name gen_range compressed method_name counter w of
        (ci, w) \<Rightarrow>
          (\<lparr>inlet_proxy_type = proxy_type, output_addr = target, sess_id = 0, sess_output = out,
            sess_common = ci, socks5context = None, sess_data_ex = d\<rparr>, w))"

definition inlet_on_session_start ::
  "libs \<Rightarrow> chan_ref \<Rightarrow> u32 \<Rightarrow> socket_addr \<Rightarrow> chan_ref \<Rightarrow> inlet_dstate \<times> world \<Rightarrow>
   unit outcome \<times> (inlet_dstate \<times> world)" where
  "inlet_on_session_start L proxy_ref sid a tx s =
     (let ses = (fst (fst s))\<lparr>sess_id := sid\<rparr>; sessions = snd (fst s); w = snd s in
      if is_socks5 (inlet_proxy_type ses) then
        (let context = socks5_new tx (sess_output ses) sid a (sess_data_ex ses) (sess_common ses);
             info = \<lparr>proxy_message_tx = Some proxy_ref, writer_tx = tx, common_info = sess_common ses\<rparr>
         in (Ok (), ((ses\<lparr>socks5context := Some context\<rparr>, hm_insert sid info sessions),
                     open_chan proxy_ref w)))
      else
        (let info = \<lparr>proxy_message_tx = None, writer_tx = tx, common_info = sess_common ses\<rparr>;
             s = ((ses, hm_insert sid info sessions), w)
         in
         on_world
           (send_p (sess_output ses)
             (I2oConnect sid (to_u8 (inlet_proxy_type ses)) (is_tcp (inlet_proxy_type ses))
               (is_compressed (sess_common ses)) (output_addr ses)
               (method_to_string (encryption_method (sess_common ses)))
               (base64_encode L (encryption_key (sess_common ses))) (show_socket_addr a))) s))"

definition inlet_on_session_close :: "inlet_dstate \<times> world \<Rightarrow> unit outcome \<times> (inlet_dstate \<times> world)" where
  "inlet_on_session_close s =
     (let ses = fst (fst s); s = ((ses, hm_remove (sess_id ses) (snd (fst s))), snd s) in
      and_then (on_world (send_p (sess_output ses) (I2oDisconnect (sess_id ses))) s)
        (\<lambda>_ ((ses, sessions), w). (Ok (), ((ses\<lparr>socks5context := None\<rparr>, sessions), w))))"

definition inlet_on_recv_frame ::
  "libs \<Rightarrow> bytes \<Rightarrow> inlet_dstate \<times> world \<Rightarrow> unit outcome \<times> (inlet_dstate \<times> world)" where
  "inlet_on_recv_frame L frame s =
     (let ses = fst (fst s) in
      case socks5context ses of
        Some context \<Rightarrow>
          (case recv_frame L frame (context, snd s) of
             (r, (context, w)) \<Rightarrow> (r, ((ses\<lparr>socks5context := Some context\<rparr>, snd (fst s)), w)))
      | None \<Rightarrow>
          and_then (on_world (encode_data_and_limiting L (sess_common ses) frame) s) (\<lambda>frame s.
            on_world (send_p (sess_output ses) (I2oSendData (sess_id ses) frame)) s))"

definition inlet_delegate :: "libs \<Rightarrow> chan_ref \<Rightarrow> inlet_dstate session_delegate" where
  "inlet_delegate L proxy_ref =
     \<lparr>on_session_start = inlet_on_session_start L proxy_ref,
      on_session_close = inlet_on_session_close,
      on_try_extract_frame = default_try_extract_frame,
      on_recv_frame = inlet_on_recv_frame L,
      on_recv_frame_from = default_on_recv_frame_from\<rparr>"

end
