(* ===== verification/Udp_Net.thy ===== *)
theory Udp_Net
  imports Tcp_Session
begin

text \<open>
  np\_base/src/net/udp\_session.rs and np\_base/src/net/udp\_server.rs: the loops of one UDP session,
  its idle timeout, and the server that gives each peer address a session of its own. The socket is
  the parameter \<open>udp_socket\<close>; time is the number of milliseconds \<open>Instant::now\<close> would give. Shown: a
  session times out only after nine seconds without traffic, and the server routes the datagrams of
  an address, in order, to one session that no other address shares.
\<close>

section \<open>Activity\<close>

definition write_timeout :: nat where "write_timeout = 1000"
definition idle_timeout :: nat where "idle_timeout = 10000"

text \<open>The update of \<open>last_active_time\<close> at the start of each loop iteration.\<close>

definition touch :: "nat \<Rightarrow> nat \<Rightarrow> nat" where
  "touch now last_active_time =
     (if now - last_active_time \<ge> write_timeout then now else last_active_time)"

text \<open>The condition on which \<open>poll_timeout\<close> leaves its loop.\<close>

definition timed_out :: "nat \<Rightarrow> nat \<Rightarrow> bool" where
  "timed_out now last_active_time \<longleftrightarrow> now - last_active_time > idle_timeout"

section \<open>The loops of a session\<close>

record 'k udp_socket =
  send_to :: "bytes \<Rightarrow> socket_addr \<Rightarrow> 'k \<Rightarrow> (string + unit) \<times> 'k"

definition udp_write_message ::
  "'k udp_socket \<Rightarrow> socket_addr \<Rightarrow> wmsg \<Rightarrow> 'k \<times> world \<Rightarrow> write_end \<times> ('k \<times> world)" where
  "udp_write_message S a m s =
     (case m of
        Close \<Rightarrow> (Break, s)
      | CloseDelayed _ \<Rightarrow> (Break, s)
      | Send data _ \<Rightarrow>
          if data = [] then (Continue, s)
          else
            (case send_to S data a (fst s) of
               (Inl _, k) \<Rightarrow> (Break, (k, snd s))
             | (Inr _, k) \<Rightarrow> (Continue, (k, snd s)))
      | SendTo data target \<Rightarrow>
          if data = [] then (Continue, s)
          else
            (case send_to S data target (fst s) of
               (Inl _, k) \<Rightarrow> (Break, (k, snd s))
             | (Inr _, k) \<Rightarrow> (Continue, (k, snd s)))
      | SendAndThen data cb \<Rightarrow>
          if data = [] then (Continue, (fst s, run_callback cb (snd s)))
          else
            (case send_to S data a (fst s) of
               (Inl _, k) \<Rightarrow> (Break, (k, snd s))
             | (Inr _, k) \<Rightarrow> (Continue, (k, run_callback cb (snd s))))
      | Flush \<Rightarrow> (Continue, s))"

text \<open>
  The write loop over messages that arrive at the given times, with the time of the last
  activity.
\<close>

fun udp_poll_write :: "'k udp_socket \<Rightarrow> socket_addr \<Rightarrow> chan_ref \<Rightarrow> (nat \<times> wmsg) list \<Rightarrow> nat \<Rightarrow> 'k \<times> world \<Rightarrow>
    write_end \<times> nat \<times> ('k \<times> world)" where
  "udp_poll_write S a c [] t s = (Continue, t, s)"
| "udp_poll_write S a c ((now, m) # ms) t s =
     (let t = touch now t in
      case udp_write_message S a m s of
        (Continue, s) \<Rightarrow> udp_poll_write S a c ms t s
      | (Break, s) \<Rightarrow> (Break, t, (fst s, close_receiver c (snd s)))
      | (WritePanic, s) \<Rightarrow> (WritePanic, t, s))"

text \<open>The two read loops: datagrams forwarded by the server, and datagrams of an own socket.\<close>

fun poll_read_from_unbounded_receiver ::
  "'d session_delegate \<Rightarrow> (nat \<times> bytes) list \<Rightarrow> nat \<Rightarrow> 'd \<times> world \<Rightarrow> unit outcome \<times> nat \<times> ('d \<times> world)" where
  "poll_read_from_unbounded_receiver D [] t s = (Pending, t, s)"
| "poll_read_from_unbounded_receiver D ((now, data) # ds) t s =
     (let t = touch now t in
      case on_recv_frame D data s of
        (Ok _, s) \<Rightarrow> poll_read_from_unbounded_receiver D ds t s
      | (Err _, s) \<Rightarrow> (Ok (), t, s)
      | (Panic, s) \<Rightarrow> (Panic, t, s)
      | (Pending, s) \<Rightarrow> (Pending, t, s))"

fun udp_poll_read ::
  "'d session_delegate \<Rightarrow> (nat \<times> (string + (bytes \<times> socket_addr))) list \<Rightarrow> nat \<Rightarrow> 'd \<times> world \<Rightarrow>
   unit outcome \<times> nat \<times> ('d \<times> world)" where
  "udp_poll_read D [] t s = (Pending, t, s)"
| "udp_poll_read D ((now, Inl _) # ds) t s = udp_poll_read D ds t s"
| "udp_poll_read D ((now, Inr (data, peer)) # ds) t s =
     (let t = touch now t in
      case on_recv_frame_from D data peer s of
        (Ok _, s) \<Rightarrow> udp_poll_read D ds t s
      | (Err _, s) \<Rightarrow> (Ok (), t, s)
      | (Panic, s) \<Rightarrow> (Panic, t, s)
      | (Pending, s) \<Rightarrow> (Pending, t, s))"

section \<open>The life of a session\<close>

text \<open>
  \<open>run\<close>: the start, then datagrams, writes and the timeout in any order until one of them ends the
  session or the shutdown signal comes, then the close. \<open>own\<close> tells whether the session reads its own
  socket. An empty receiver that the server has dropped ends the session as well (\<open>dropped\<close>).
\<close>

record ('d, 'k) udp_state =
  u_phase :: phase
  last_active :: nat
  u_sink :: 'k
  u_dstate :: "'d \<times> world"
  u_starts :: nat
  u_closes :: nat

definition udp_recv :: "bool \<Rightarrow> 'd session_delegate \<Rightarrow> bytes \<Rightarrow> socket_addr \<Rightarrow> 'd \<times> world \<Rightarrow> unit outcome \<times> ('d \<times> world)" where
  "udp_recv own D data peer s = (if own then on_recv_frame_from D data peer s else on_recv_frame D data s)"

inductive udp_step ::
  "('d \<times> world \<Rightarrow> 'd \<times> world \<Rightarrow> bool) \<Rightarrow> 'd session_delegate \<Rightarrow> 'k udp_socket \<Rightarrow> bool \<Rightarrow> u32 \<Rightarrow> socket_addr \<Rightarrow> chan_ref \<Rightarrow>
   ('d, 'k) udp_state \<Rightarrow> ('d, 'k) udp_state \<Rightarrow> bool"
  for R D S own sid a c where
  u_start_ok: "u_phase s = Starting \<Longrightarrow> on_session_start D sid a c (u_dstate s) = (Ok (), d') \<Longrightarrow>
    udp_step R D S own sid a c s (s\<lparr>u_phase := Running, last_active := now, u_dstate := d', u_starts := Suc (u_starts s)\<rparr>)"
| u_start_err: "u_phase s = Starting \<Longrightarrow> on_session_start D sid a c (u_dstate s) = (Err e, d') \<Longrightarrow>
    udp_step R D S own sid a c s (s\<lparr>u_phase := Finished, u_dstate := d'\<rparr>)"
| u_start_panic: "u_phase s = Starting \<Longrightarrow> on_session_start D sid a c (u_dstate s) = (Panic, d') \<Longrightarrow>
    udp_step R D S own sid a c s (s\<lparr>u_phase := Unwound, u_dstate := d'\<rparr>)"
| u_read_ok: "u_phase s = Running \<Longrightarrow> udp_recv own D data peer (u_dstate s) = (Ok (), d') \<Longrightarrow>
    udp_step R D S own sid a c s (s\<lparr>last_active := touch now (last_active s), u_dstate := d'\<rparr>)"
| u_read_err: "u_phase s = Running \<Longrightarrow> udp_recv own D data peer (u_dstate s) = (Err e, d') \<Longrightarrow>
    udp_step R D S own sid a c s (s\<lparr>u_phase := Closing, last_active := touch now (last_active s), u_dstate := d'\<rparr>)"
| u_read_panic: "u_phase s = Running \<Longrightarrow> udp_recv own D data peer (u_dstate s) = (Panic, d') \<Longrightarrow>
    udp_step R D S own sid a c s (s\<lparr>u_phase := Unwound, u_dstate := d'\<rparr>)"
| u_dropped: "u_phase s = Running \<Longrightarrow> \<not> own \<Longrightarrow> udp_step R D S own sid a c s (s\<lparr>u_phase := Closing\<rparr>)"
| u_write_one: "u_phase s = Running \<Longrightarrow> u_dstate s = (d, w) \<Longrightarrow> chan_recv (wchans w c) = Some (m, ch) \<Longrightarrow>
    udp_write_message S a m (u_sink s, w\<lparr>wchans := (wchans w)(c := ch)\<rparr>) = (Continue, (k, w')) \<Longrightarrow>
    udp_step R D S own sid a c s (s\<lparr>last_active := touch now (last_active s), u_sink := k, u_dstate := (d, w')\<rparr>)"
| u_write_break: "u_phase s = Running \<Longrightarrow> u_dstate s = (d, w) \<Longrightarrow> chan_recv (wchans w c) = Some (m, ch) \<Longrightarrow>
    udp_write_message S a m (u_sink s, w\<lparr>wchans := (wchans w)(c := ch)\<rparr>) = (Break, (k, w')) \<Longrightarrow>
    udp_step R D S own sid a c s
      (s\<lparr>u_phase := Closing, last_active := touch now (last_active s), u_sink := k, u_dstate := (d, close_receiver c w')\<rparr>)"
| u_timeout: "u_phase s = Running \<Longrightarrow> timed_out now (last_active s) \<Longrightarrow>
    udp_step R D S own sid a c s (s\<lparr>u_phase := Closing\<rparr>)"
| u_shutdown: "u_phase s = Running \<Longrightarrow> udp_step R D S own sid a c s (s\<lparr>u_phase := Closing\<rparr>)"
| u_close: "u_phase s = Closing \<Longrightarrow> on_session_close D (u_dstate s) = (r, d') \<Longrightarrow> r \<noteq> Panic \<Longrightarrow> r \<noteq> Pending \<Longrightarrow>
    udp_step R D S own sid a c s (s\<lparr>u_phase := Finished, u_dstate := d', u_closes := Suc (u_closes s)\<rparr>)"
| u_close_panic: "u_phase s = Closing \<Longrightarrow> on_session_close D (u_dstate s) = (Panic, d') \<Longrightarrow>
    udp_step R D S own sid a c s (s\<lparr>u_phase := Unwound, u_dstate := d'\<rparr>)"
| u_others: "R (u_dstate s) d' \<Longrightarrow> udp_step R D S own sid a c s (s\<lparr>u_dstate := d'\<rparr>)"

inductive_cases udp_stepE: "udp_step R D S own sid a c s t"

interpretation udp_life: session_life "\<lambda>s. (u_phase s, u_starts s, u_closes s)" "udp_step R D S own sid a c"
  for R D S own sid a c
  by unfold_locales (auto elim: udp_stepE)

text \<open>A UDP session, too, closes its delegate at most once and never without a start.\<close>

theorem udp_sessions_closed_once:
  assumes "(udp_step R D S own sid a c)\<^sup>*\<^sup>* s t" and "u_phase s = Starting" "u_starts s = 0" "u_closes s = 0"
  shows "u_closes t \<le> u_starts t \<and> u_starts t \<le> 1 \<and> (u_phase t = Finished \<longrightarrow> u_closes t = u_starts t)"
  using udp_life.closed_once [OF assms(1)] assms(2-) by simp

section \<open>The server\<close>

record udp_server =
  session_id_seed :: nat
  routes :: "(socket_addr, nat \<times> bytes chan) hmap"

definition udp_server_new :: udp_server where
  "udp_server_new = \<lparr>session_id_seed = 0, routes = []\<rparr>"

text \<open>
  A datagram: a new session for an unknown address, then the data goes to the session of the
  address. A send to a session that has just closed is lost.
\<close>

definition on_datagram :: "socket_addr \<Rightarrow> bytes \<Rightarrow> udp_server \<Rightarrow> udp_server" where
  "on_datagram a data s =
     (let s = (if hm_contains (routes s) a then s
               else \<lparr>session_id_seed = session_id_seed s + 1,
                     routes = hm_insert a (session_id_seed s + 1, new_chan) (routes s)\<rparr>)
      in
      case hm_get (routes s) a of
        Some (sid, ch) \<Rightarrow> s\<lparr>routes := hm_insert a (sid, snd (chan_send data ch)) (routes s)\<rparr>
      | None \<Rightarrow> s)"

text \<open>The session reads one datagram; its receiver closes; its task has ended.\<close>

definition session_recv :: "socket_addr \<Rightarrow> udp_server \<Rightarrow> udp_server" where
  "session_recv a s =
     (case hm_get (routes s) a of
        Some (sid, ch) \<Rightarrow>
          (case chan_recv ch of
             Some (d, ch') \<Rightarrow> s\<lparr>routes := hm_insert a (sid, ch') (routes s)\<rparr>
           | None \<Rightarrow> s)
      | None \<Rightarrow> s)"

definition session_receiver_closed :: "socket_addr \<Rightarrow> udp_server \<Rightarrow> udp_server" where
  "session_receiver_closed a s =
     (case hm_get (routes s) a of
        Some (sid, ch) \<Rightarrow> s\<lparr>routes := hm_insert a (sid, ch\<lparr>alive := False\<rparr>) (routes s)\<rparr>
      | None \<Rightarrow> s)"

definition session_ended :: "socket_addr \<Rightarrow> udp_server \<Rightarrow> udp_server" where
  "session_ended a s = s\<lparr>routes := hm_remove a (routes s)\<rparr>"

section \<open>The idle timeout\<close>

lemma touch_bounds: "t \<le> now \<Longrightarrow> t \<le> touch now t \<and> touch now t \<le> now \<and> now - touch now t < write_timeout"
  by (auto simp: touch_def write_timeout_def)

lemma fold_touch_bounds:
  "sorted (t # ts) \<Longrightarrow>
   fold touch ts t \<le> last (t # ts) \<and> last (t # ts) - fold touch ts t < write_timeout"
proof (induction ts rule: rev_induct)
  case (snoc x ts)
  then have s: "sorted (t # ts)" "last (t # ts) \<le> x"
    by (auto simp: sorted_append last_ConsR)
  with snoc.IH have "fold touch ts t \<le> x" by simp
  with touch_bounds show ?case by simp
qed (simp add: write_timeout_def)

lemma unbounded_receiver_active:
  "poll_read_from_unbounded_receiver D ds t s = (r, t', s') \<Longrightarrow> \<exists>n. t' = fold touch (take n (map fst ds)) t"
proof (induction D ds t s rule: poll_read_from_unbounded_receiver.induct)
  case (1 D t s)
  then show ?case by simp
next
  case (2 D now data ds t s)
  show ?case
  proof (cases "fst (on_recv_frame D data s)")
    case (Ok u)
    with 2 have "\<exists>n. t' = fold touch (take n (map fst ds)) (touch now t)"
      by (auto simp: Let_def split: prod.splits)
    then obtain n where "t' = fold touch (take n (map fst ds)) (touch now t)" ..
    then show ?thesis by (intro exI [of _ "Suc n"]) simp
  qed (use 2 in \<open>auto simp: Let_def intro!: exI [of _ 1] split: prod.splits\<close>)
qed

text \<open>
  Let \<open>ts\<close> be the times at which a session started since \<open>t\<close> has handled traffic. The recorded time
  of the last activity lags behind the real one by less than a second; so the session is given up
  only after more than nine seconds without traffic, and certainly after ten.
\<close>

theorem idle_timeout_bounds:
  fixes t ts
  defines "last_traffic \<equiv> last (t # ts)" and "recorded \<equiv> fold touch ts t"
  assumes "sorted (t # ts)" and "last_traffic \<le> now"
  shows "recorded \<le> last_traffic \<and> last_traffic - recorded < 1000
    \<and> (timed_out now recorded \<longrightarrow> now - last_traffic > 9000)
    \<and> (now - last_traffic > 10000 \<longrightarrow> timed_out now recorded)"
  using fold_touch_bounds [OF assms(3)] assms(4)
  unfolding last_traffic_def recorded_def timed_out_def write_timeout_def idle_timeout_def by linarith

theorem idle_timeout_bounds_witness:
  "1700 - fold touch [500, 1700] 0 < 1000 \<and> timed_out 20000 (fold touch [500, 1700] 0)"
  using idle_timeout_bounds [of 0 "[500, 1700]" 20000] by simp

section \<open>Routing\<close>

definition udp_server_ok :: "udp_server \<Rightarrow> bool" where
  "udp_server_ok s \<longleftrightarrow>
     (\<forall>a sid ch. hm_get (routes s) a = Some (sid, ch) \<longrightarrow> 0 < sid \<and> sid \<le> session_id_seed s) \<and>
     (\<forall>a b sid ch ch'. hm_get (routes s) a = Some (sid, ch) \<longrightarrow> hm_get (routes s) b = Some (sid, ch') \<longrightarrow>
        a = b)"

lemma on_datagram_known:
  "hm_get (routes s) a = Some (sid, ch) \<Longrightarrow>
   on_datagram a d s = s\<lparr>routes := hm_insert a (sid, snd (chan_send d ch)) (routes s)\<rparr>"
  by (simp add: on_datagram_def hm_contains_def)

lemma on_datagram_new:
  "hm_get (routes s) a = None \<Longrightarrow>
   on_datagram a d s = \<lparr>session_id_seed = session_id_seed s + 1,
     routes = hm_insert a (session_id_seed s + 1, snd (chan_send d new_chan))
       (hm_insert a (session_id_seed s + 1, new_chan) (routes s))\<rparr>"
  by (simp add: on_datagram_def hm_contains_def)

lemma udp_server_ok_on_datagram: "udp_server_ok s \<Longrightarrow> udp_server_ok (on_datagram a d s)"
proof (cases "hm_get (routes s) a")
  case None
  assume "udp_server_ok s"
  then show ?thesis
    unfolding on_datagram_new [OF None]
    by (auto simp: udp_server_ok_def split: if_splits) (metis Suc_n_not_le_n le_SucI)+
next
  case (Some p)
  assume ok: "udp_server_ok s"
  obtain sid ch where "hm_get (routes s) a = Some (sid, ch)" using Some by (cases p) auto
  with ok show ?thesis
    unfolding on_datagram_known [OF \<open>hm_get (routes s) a = Some (sid, ch)\<close>]
    by (auto simp: udp_server_ok_def split: if_splits)
qed

lemma udp_server_ok_sessions:
  assumes "udp_server_ok s"
  shows "udp_server_ok (session_recv a s)" "udp_server_ok (session_receiver_closed a s)"
    "udp_server_ok (session_ended a s)"
  using assms
  by (auto simp: udp_server_ok_def session_recv_def session_receiver_closed_def session_ended_def
      split: if_splits option.splits)

inductive udp_server_reach :: "udp_server \<Rightarrow> bool" where
  "udp_server_reach udp_server_new"
| "udp_server_reach s \<Longrightarrow> udp_server_reach (on_datagram a d s)"
| "udp_server_reach s \<Longrightarrow> udp_server_reach (session_recv a s)"
| "udp_server_reach s \<Longrightarrow> udp_server_reach (session_receiver_closed a s)"
| "udp_server_reach s \<Longrightarrow> udp_server_reach (session_ended a s)"

lemma udp_server_reach_ok: "udp_server_reach s \<Longrightarrow> udp_server_ok s"
proof (induction rule: udp_server_reach.induct)
  case 1
  show ?case by (simp add: udp_server_ok_def udp_server_new_def)
qed (simp_all add: udp_server_ok_on_datagram udp_server_ok_sessions)

text \<open>
  In every state the UDP server can reach, a datagram goes to the session of its sender and to
  no other: behind the datagrams already queued there if that session is alive, into a new session
  whose id no other address has if the sender is unknown; and the sessions of all other addresses
  are untouched.
\<close>

theorem datagrams_reach_their_session:
  assumes "udp_server_reach s"
  shows "(\<forall>sid ch. hm_get (routes s) a = Some (sid, ch) \<and> alive ch \<longrightarrow>
        hm_get (routes (on_datagram a d s)) a = Some (sid, ch\<lparr>queue := queue ch @ [d]\<rparr>))
    \<and> (hm_get (routes s) a = None \<longrightarrow>
        (\<exists>sid. hm_get (routes (on_datagram a d s)) a = Some (sid, \<lparr>queue = [d], alive = True\<rparr>) \<and>
          (\<forall>b sid' ch. hm_get (routes s) b = Some (sid', ch) \<longrightarrow> sid' \<noteq> sid)))
    \<and> (\<forall>b. b \<noteq> a \<longrightarrow> hm_get (routes (on_datagram a d s)) b = hm_get (routes s) b)"
proof -
  have ok: "udp_server_ok s" using assms by (rule udp_server_reach_ok)
  show ?thesis
  proof (cases "hm_get (routes s) a")
    case None
    then show ?thesis
      using ok by (auto simp: on_datagram_new chan_send_def new_chan_def udp_server_ok_def) (metis not_less_eq_eq order_refl)
  next
    case (Some p)
    then obtain sid ch where "hm_get (routes s) a = Some (sid, ch)" by (cases p) auto
    then show ?thesis by (simp add: on_datagram_known chan_send_def)
  qed
qed

theorem datagrams_reach_their_session_witness:
  "\<exists>sid. hm_get (routes (on_datagram (V4 (Ipv4Addr 10 0 0 1) 53) [9] udp_server_new))
     (V4 (Ipv4Addr 10 0 0 1) 53) = Some (sid, \<lparr>queue = [[9]], alive = True\<rparr>)"
  using datagrams_reach_their_session [OF udp_server_reach.intros(1), of "V4 (Ipv4Addr 10 0 0 1) 53" "[9]"]
  by (auto simp: udp_server_new_def)

end
