(* ===== verification/Outlet.thy ===== *)
theory Outlet
  imports Inlet Udp_Net
begin

text \<open>
  np\_base/src/proxy/outlet.rs: the end of a tunnel that connects to the target. \<open>outlet\<close> is the shared
  object, \<open>outlet_session\<close> the delegate of one connection to a target. The operating system's answers to
  connecting are the fields of \<open>outlet_env\<close>, as is whether the spawned session calls
  \<open>on_session_start\<close> within the two seconds that \<open>on_i2o_connect\<close> waits.
\<close>

record outlet_session_info =
  sender_tx :: chan_ref
  out_common_info :: session_common_info

record outlet =
  out_sessions :: "outlet_session_info session_info_map"
  out_description :: string
  notify_shutdown :: bool
  out_output :: chan_ref
  out_input :: chan_ref

record outlet_session =
  o_session_id :: u32
  o_common :: session_common_info
  o_output :: chan_ref
  o_tunnel_type :: inlet_proxy_type

text \<open>
  The field names of the code carry a prefix where an inlet has the same one; \<open>notify_shutdown\<close> is
  whether the sender of the shutdown signal is still there.
\<close>

record outlet_env =
  tcp_connect_io :: "string \<Rightarrow> string + socket_addr"
  udp_socket_bind_io :: "string + unit"
  udp_socket_connect_io :: "string \<Rightarrow> string + socket_addr"
  lookup_host_io :: "string \<Rightarrow> string + socket_addr list"
  starts_in_time :: bool
  session_chan :: chan_ref
  session_counter :: counter_ref

type_synonym outlet_dstate = "outlet_session \<times> outlet_session_info session_info_map"

section \<open>The delegate of a session\<close>

definition outlet_session_new ::
  "session_common_info \<Rightarrow> chan_ref \<Rightarrow> inlet_proxy_type \<Rightarrow> outlet_session" where
  "outlet_session_new ci out t = \<lparr>o_session_id = 0, o_common = ci, o_output = out, o_tunnel_type = t\<rparr>"

definition outlet_on_session_start ::
  "u32 \<Rightarrow> socket_addr \<Rightarrow> chan_ref \<Rightarrow> outlet_dstate \<times> world \<Rightarrow> unit outcome \<times> (outlet_dstate \<times> world)" where
  "outlet_on_session_start sid a tx s =
     (let ses = (fst (fst s))\<lparr>o_session_id := sid\<rparr>;
          sessions = hm_insert sid \<lparr>sender_tx = tx, out_common_info = o_common ses\<rparr> (snd (fst s))
      in
      case on_world (send_p (o_output ses) (O2iConnect sid True [])) ((ses, sessions), snd s) of
        (Err e, s) \<Rightarrow> (Err (''on_session_start: '' @ e), s)
      | r \<Rightarrow> r)"

definition outlet_on_session_close :: "outlet_dstate \<times> world \<Rightarrow> unit outcome \<times> (outlet_dstate \<times> world)" where
  "outlet_on_session_close s =
     (let ses = fst (fst s) in
      (Ok (), ((ses, hm_remove (o_session_id ses) (snd (fst s))),
               send_p_ignore (o_output ses) (O2iDisconnect (o_session_id ses)) (snd s))))"

definition outlet_on_recv_frame ::
  "libs \<Rightarrow> bytes \<Rightarrow> outlet_dstate \<times> world \<Rightarrow> unit outcome \<times> (outlet_dstate \<times> world)" where
  "outlet_on_recv_frame L frame s =
     (let ses = fst (fst s) in
      and_then (on_world (encode_data_and_limiting L (o_common ses) frame) s) (\<lambda>frame s.
        on_world (send_p (o_output ses) (O2iRecvData (o_session_id ses) frame)) s))"

definition outlet_on_recv_frame_from ::
  "libs \<Rightarrow> bytes \<Rightarrow> socket_addr \<Rightarrow> outlet_dstate \<times> world \<Rightarrow> unit outcome \<times> (outlet_dstate \<times> world)" where
  "outlet_on_recv_frame_from L frame peer_addr s =
     (let ses = fst (fst s) in
      if is_socks5 (o_tunnel_type ses) then
        and_then (on_world (encode_data_and_limiting L (o_common ses) frame) s) (\<lambda>frame s.
          on_world (send_p (o_output ses)
            (O2iRecvDataFrom (o_session_id ses) frame (show_socket_addr peer_addr))) s)
      else outlet_on_recv_frame L frame s)"

definition outlet_delegate :: "libs \<Rightarrow> outlet_dstate session_delegate" where
  "outlet_delegate L =
     \<lparr>on_session_start = outlet_on_session_start,
      on_session_close = outlet_on_session_close,
      on_try_extract_frame = default_try_extract_frame,
      on_recv_frame = outlet_on_recv_frame L,
      on_recv_frame_from = outlet_on_recv_frame_from L\<rparr>"

section \<open>The outlet\<close>

definition outlet_new :: "string \<Rightarrow> chan_ref \<Rightarrow> chan_ref \<Rightarrow> world \<Rightarrow> outlet \<times> world" where
  "outlet_new descr input_ref output_ref w =
     (\<lparr>out_sessions = [], out_description = descr, notify_shutdown = True, out_output = output_ref,
       out_input = input_ref\<rparr>, open_chan output_ref (open_chan input_ref w))"

definition outlet_input :: "proxy_message \<Rightarrow> outlet \<times> world \<Rightarrow> outlet \<times> world" where
  "outlet_input m s = (fst s, send_p_ignore (out_input (fst s)) m (snd s))"

text \<open>
  \<open>stop\<close>: the shutdown signal, then waiting until the sessions have removed themselves or ten
  seconds have passed (\<open>timeout\<close>).
\<close>

definition outlet_stop :: "bool \<Rightarrow> outlet \<Rightarrow> unit outcome \<times> outlet" where
  "outlet_stop timeout o' =
     (if notify_shutdown o' then
        (let o' = o'\<lparr>notify_shutdown := False\<rparr> in
         if out_sessions o' \<noteq> [] \<and> \<not> timeout then (Pending, o') else (Ok (), o'))
      else (Ok (), o'))"

definition open_wchan :: "chan_ref \<Rightarrow> world \<Rightarrow> world" where
  "open_wchan c w = w\<lparr>wchans := (wchans w)(c := new_chan)\<rparr>"

text \<open>
  The session task that \<open>tcp_connect\<close> and \<open>udp_connect\<close> spawn, as far as its
  \<open>on_session_start\<close>; the channel to its writer is new.
\<close>

definition spawn_session ::
  "outlet_env \<Rightarrow> socket_addr \<Rightarrow> u32 \<Rightarrow> session_common_info \<Rightarrow> inlet_proxy_type \<Rightarrow> outlet \<times> world \<Rightarrow>
   outlet \<times> world" where
  "spawn_session E a sid ci t s =
     (if starts_in_time E then
        (case outlet_on_session_start sid a (session_chan E)
                ((outlet_session_new ci (out_output (fst s)) t, out_sessions (fst s)),
                 open_wchan (session_chan E) (snd s)) of
           (_, ((_, sessions), w)) \<Rightarrow> ((fst s)\<lparr>out_sessions := sessions\<rparr>, w))
      else s)"

definition tcp_connect ::
  "outlet_env \<Rightarrow> string \<Rightarrow> u32 \<Rightarrow> session_common_info \<Rightarrow> outlet \<times> world \<Rightarrow> unit outcome \<times> (outlet \<times> world)" where
  "tcp_connect E a sid ci s =
     and_then (io_result (tcp_connect_io E a), s) (\<lambda>peer s. (Ok (), spawn_session E peer sid ci TCP s))"

definition any_addr :: socket_addr where "any_addr = V4 (Ipv4Addr 0 0 0 0) 0"

definition udp_connect ::
  "outlet_env \<Rightarrow> string \<Rightarrow> u32 \<Rightarrow> session_common_info \<Rightarrow> inlet_proxy_type \<Rightarrow> outlet \<times> world \<Rightarrow>
   unit outcome \<times> (outlet \<times> world)" where
  "udp_connect E a sid ci t s =
     and_then (io_result (udp_socket_bind_io E), s) (\<lambda>_ s.
     and_then (if a = [] then (Ok any_addr, s) else (io_result (udp_socket_connect_io E a), s)) (\<lambda>peer s.
       (Ok (), spawn_session E peer sid ci t s)))"

definition on_i2o_connect ::
  "libs \<Rightarrow> outlet_env \<Rightarrow> u32 \<Rightarrow> u8 \<Rightarrow> bool \<Rightarrow> bool \<Rightarrow> string \<Rightarrow> string \<Rightarrow> string \<Rightarrow> outlet \<times> world \<Rightarrow>
   unit outcome \<times> (outlet \<times> world)" where
  "on_i2o_connect L E sid ttype tcp compressed a method_name key s =
     (if hm_contains (out_sessions (fst s)) sid then (Err ''repeated connection'', s)
      else
        and_then (io_result (base64_decode L key), s) (\<lambda>key s.
        case session_common_info_new compressed (get_method method_name) key (session_counter E) (snd s) of
          (ci, w) \<Rightarrow>
        and_then
          (case from_u32 (ucast ttype) of
             None \<Rightarrow> (Err (''unsupported tunnel_type: '' @ show_nat (unat ttype)), (fst s, w))
           | Some TCP \<Rightarrow> tcp_connect E a sid ci (fst s, w)
           | Some UDP \<Rightarrow> udp_connect E a sid ci UDP (fst s, w)
           | Some SOCKS5 \<Rightarrow>
               if tcp then tcp_connect E a sid ci (fst s, w)
               else udp_connect E [] sid ci SOCKS5 (fst s, w)) (\<lambda>_ s.
        if hm_contains (out_sessions (fst s)) sid then (Ok (), s)
        else (Err ''Waiting for the function on_session_start to call a response timeout'', s))))"

definition on_i2o_send_data :: "libs \<Rightarrow> u32 \<Rightarrow> bytes \<Rightarrow> outlet \<times> world \<Rightarrow> unit outcome \<times> (outlet \<times> world)" where
  "on_i2o_send_data L sid data s =
     (case hm_get (out_sessions (fst s)) sid of
        Some session \<Rightarrow>
          (let data_len = length data in
           and_then (decode_data L (out_common_info session) data, s) (\<lambda>data s.
             on_world (send_w (sender_tx session)
               (SendAndThen data (out_output (fst s), O2iSendDataResult sid data_len))) s))
      | None \<Rightarrow> (Ok (), s))"

definition on_i2o_send_to_data ::
  "libs \<Rightarrow> outlet_env \<Rightarrow> u32 \<Rightarrow> bytes \<Rightarrow> string \<Rightarrow> outlet \<times> world \<Rightarrow> unit outcome \<times> (outlet \<times> world)" where
  "on_i2o_send_to_data L E sid data target s =
     (case hm_get (out_sessions (fst s)) sid of
        Some session \<Rightarrow>
          (let data_len = length data in
           and_then (decode_data L (out_common_info session) data, s) (\<lambda>data s.
           and_then (parse_addr (lookup_host_io E) target, s) (\<lambda>a s.
           and_then (on_world (send_w (sender_tx session) (SendTo data a)) s) (\<lambda>_ s.
             (Ok (), (fst s, send_p_ignore (out_output (fst s)) (O2iSendDataResult sid data_len) (snd s)))))))
      | None \<Rightarrow> (Ok (), s))"

definition on_i2o_disconnect :: "u32 \<Rightarrow> outlet \<times> world \<Rightarrow> unit outcome \<times> (outlet \<times> world)" where
  "on_i2o_disconnect sid s =
     (case hm_get (out_sessions (fst s)) sid of
        Some session \<Rightarrow>
          on_world (send_w (sender_tx session) Close)
            ((fst s)\<lparr>out_sessions := hm_remove sid (out_sessions (fst s))\<rparr>, snd s)
      | None \<Rightarrow> (Ok (), s))"

definition on_i2o_recv_data_result :: "u32 \<Rightarrow> nat \<Rightarrow> outlet \<times> world \<Rightarrow> unit outcome \<times> (outlet \<times> world)" where
  "on_i2o_recv_data_result sid data_len s =
     (case hm_get (out_sessions (fst s)) sid of
        Some session \<Rightarrow>
          (Ok (), (fst s, release_read_buf (read_buf_len (out_common_info session)) data_len (snd s)))
      | None \<Rightarrow> (Ok (), s))"

definition outlet_input_internal ::
  "libs \<Rightarrow> outlet_env \<Rightarrow> proxy_message \<Rightarrow> outlet \<times> world \<Rightarrow> unit outcome \<times> (outlet \<times> world)" where
  "outlet_input_internal L E m s =
     (case m of
        I2oConnect sid ttype tcp compressed a method_name key client_addr \<Rightarrow>
          (case on_i2o_connect L E sid ttype tcp compressed a method_name key s of
             (Ok _, s) \<Rightarrow> on_world (send_p (out_output (fst s)) (O2iConnect sid True [])) s
           | (Err e, s) \<Rightarrow> on_world (send_p (out_output (fst s)) (O2iConnect sid False e)) s
           | (Panic, s) \<Rightarrow> (Panic, s)
           | (Pending, s) \<Rightarrow> (Pending, s))
      | I2oSendData sid data \<Rightarrow> on_i2o_send_data L sid data s
      | I2oSendToData sid data target \<Rightarrow> on_i2o_send_to_data L E sid data target s
      | I2oDisconnect sid \<Rightarrow> on_i2o_disconnect sid s
      | I2oRecvDataResult sid data_len \<Rightarrow> on_i2o_recv_data_result sid data_len s
      | _ \<Rightarrow> (Err ''Unknown message'', s))"

text \<open>
  \<open>async_receive_input\<close>: errors are logged, a panic ends the task. Each message meets an environment of
  its own.
\<close>

fun outlet_receive_input ::
  "libs \<Rightarrow> (outlet_env \<times> proxy_message) list \<Rightarrow> outlet \<times> world \<Rightarrow> unit outcome \<times> (outlet \<times> world)" where
  "outlet_receive_input L [] s = (Pending, s)"
| "outlet_receive_input L ((E, m) # ms) s =
     (case outlet_input_internal L E m s of
        (Ok _, s) \<Rightarrow> outlet_receive_input L ms s
      | (Err _, s) \<Rightarrow> outlet_receive_input L ms s
      | (Panic, s) \<Rightarrow> (Panic, s)
      | (Pending, s) \<Rightarrow> (Pending, s))"

end
