(* ===== verification/Tunnel.thy ===== *)
theory Tunnel
  imports Outlet
begin

text \<open>
  The two ends of a tunnel together. The transfer of data in one direction is an interface,
  \<open>transfer\<close>: a sender that encodes and counts, a receiver that decodes and queues with an
  acknowledgement, and the sender's handling of that acknowledgement. Its lemma says that what was
  sent is what is written, in order, and that the acknowledgements bring the counter back. Both
  directions of the code are interpretations of it.
\<close>

section \<open>Transfer in one direction\<close>

definition write_of :: "chan_ref \<Rightarrow> (nat \<Rightarrow> proxy_message) \<Rightarrow> bytes \<Rightarrow> bytes \<Rightarrow> wmsg" where
  "write_of ack_chan ack_msg f e = SendAndThen f (ack_chan, ack_msg (length e))"

locale transfer =
  fixes enc :: "bytes \<Rightarrow> bytes outcome"
    and data_msg :: "bytes \<Rightarrow> proxy_message"
    and ack_msg :: "nat \<Rightarrow> proxy_message"
    and send_frame :: "bytes \<Rightarrow> 's \<Rightarrow> unit outcome \<times> 's"
    and outq :: "'s \<Rightarrow> proxy_message list"
    and cnt :: "'s \<Rightarrow> nat"
    and sender_ok :: "'s \<Rightarrow> bool"
    and handle :: "proxy_message \<Rightarrow> 'r \<Rightarrow> unit outcome \<times> 'r"
    and writes :: "'r \<Rightarrow> wmsg list"
    and replies :: "'r \<Rightarrow> proxy_message chan"
    and ack_chan :: chan_ref
    and receiver_ok :: "'r \<Rightarrow> bool"
    and acknowledge :: "proxy_message \<Rightarrow> 's \<Rightarrow> unit outcome \<times> 's"
  assumes sends: "sender_ok s \<Longrightarrow> send_frame f s = (Ok u, s') \<Longrightarrow>
      \<exists>e. enc f = Ok e \<and> outq s' = outq s @ [data_msg e] \<and> cnt s' = cnt s + length e \<and> sender_ok s'"
    and handles: "receiver_ok r \<Longrightarrow> enc f = Ok e \<Longrightarrow>
      \<exists>r'. handle (data_msg e) r = (Ok (), r') \<and>
        writes r' = writes r @ [SendAndThen f (ack_chan, ack_msg (length e))] \<and>
        replies r' = replies r \<and> receiver_ok r'"
    and acknowledges: "sender_ok s \<Longrightarrow>
      \<exists>s'. acknowledge (ack_msg n) s = (Ok (), s') \<and> cnt s' = cnt s - n \<and> sender_ok s'"
begin

lemma sends_all:
  "sender_ok s \<Longrightarrow> run_all send_frame fs s = (Ok u, s') \<Longrightarrow>
   \<exists>es. list_all2 (\<lambda>f e. enc f = Ok e) fs es \<and> outq s' = outq s @ map data_msg es \<and>
     cnt s' = cnt s + sum_list (map length es) \<and> sender_ok s'"
proof (induction fs arbitrary: s)
  case (Cons f fs)
  then obtain v s1 where f: "send_frame f s = (Ok v, s1)" and fs: "run_all send_frame fs s1 = (Ok u, s')"
    by (auto simp: and_then_Ok_iff)
  from sends [OF Cons.prems(1) f] obtain e where
    e: "enc f = Ok e" "outq s1 = outq s @ [data_msg e]" "cnt s1 = cnt s + length e" "sender_ok s1" by blast
  from Cons.IH [OF e(4) fs] obtain es where
    "list_all2 (\<lambda>f e. enc f = Ok e) fs es" "outq s' = outq s1 @ map data_msg es"
    "cnt s' = cnt s1 + sum_list (map length es)" "sender_ok s'" by blast
  with e show ?case by (intro exI [of _ "e # es"]) simp
qed simp

lemma handles_all:
  "receiver_ok r \<Longrightarrow> list_all2 (\<lambda>f e. enc f = Ok e) fs es \<Longrightarrow>
   \<exists>r'. run_all handle (map data_msg es) r = (Ok (), r') \<and>
     writes r' = writes r @ map2 (write_of ack_chan ack_msg) fs es \<and> replies r' = replies r \<and> receiver_ok r'"
proof (induction fs es arbitrary: r rule: list_induct2')
  case (4 f fs e es)
  then obtain r1 where r1: "handle (data_msg e) r = (Ok (), r1)"
      "writes r1 = writes r @ [write_of ack_chan ack_msg f e]" "replies r1 = replies r" "receiver_ok r1"
    using handles [of r f e] by (auto simp: write_of_def)
  with 4 obtain r' where "run_all handle (map data_msg es) r1 = (Ok (), r')"
      "writes r' = writes r1 @ map2 (write_of ack_chan ack_msg) fs es" "replies r' = replies r1" "receiver_ok r'"
    by fastforce
  with r1 show ?case by simp
qed simp_all

lemma acknowledges_all:
  "sender_ok s \<Longrightarrow>
   \<exists>s'. run_all acknowledge (map (\<lambda>e. ack_msg (length e)) es) s = (Ok (), s') \<and>
     cnt s' = cnt s - sum_list (map length es) \<and> sender_ok s'"
proof (induction es arbitrary: s)
  case (Cons e es)
  then obtain s1 where s1: "acknowledge (ack_msg (length e)) s = (Ok (), s1)" "cnt s1 = cnt s - length e"
      "sender_ok s1"
    using acknowledges by blast
  from Cons.IH [OF s1(3)] s1 show ?case by auto
qed simp

lemma delivers:
  assumes "sender_ok s" and "receiver_ok r" and "run_all send_frame fs s = (Ok u, s')"
  shows "\<exists>es r' s''. outq s' = outq s @ map data_msg es \<and> length es = length fs
    \<and> run_all handle (map data_msg es) r = (Ok (), r')
    \<and> writes r' = writes r @ map2 (write_of ack_chan ack_msg) fs es \<and> replies r' = replies r
    \<and> run_all acknowledge (map (\<lambda>e. ack_msg (length e)) es) s' = (Ok (), s'') \<and> cnt s'' = cnt s"
proof -
  obtain es where es: "list_all2 (\<lambda>f e. enc f = Ok e) fs es" "outq s' = outq s @ map data_msg es"
      "cnt s' = cnt s + sum_list (map length es)" "sender_ok s'"
    using sends_all [OF assms(1,3)] by blast
  moreover from handles_all [OF assms(2) es(1)] acknowledges_all [OF es(4), of es] es(3)
  obtain r' s'' where "run_all handle (map data_msg es) r = (Ok (), r')"
      "writes r' = writes r @ map2 (write_of ack_chan ack_msg) fs es" "replies r' = replies r"
      "run_all acknowledge (map (\<lambda>e. ack_msg (length e)) es) s' = (Ok (), s'')" "cnt s'' = cnt s"
    by auto
  ultimately show ?thesis using list_all2_lengthD by metis
qed

end

text \<open>What the writer of the receiving end makes of the queued writes.\<close>

lemma payloads_write_of: "length es = length fs \<Longrightarrow>
  concat (map payload (map2 (write_of c g) fs es)) = concat fs"
  by (induction es fs rule: list_induct2) (simp_all add: write_of_def)

lemma callbacks_write_of: "length es = length fs \<Longrightarrow>
  callbacks (map2 (write_of c g) fs es) = map (\<lambda>e. (c, g (length e))) es"
  by (induction es fs rule: list_induct2) (simp_all add: write_of_def)

lemma fold_callbacks_pqueue:
  "alive (pchans w c) \<Longrightarrow> pqueue (fold run_callback (map (\<lambda>e. (c, g e)) es) w) c = pqueue w c @ map g es"
  by (induction es arbitrary: w) (simp_all add: run_callback_def send_simps)

section \<open>From the inlet to the outlet\<close>

text \<open>
  A session of an inlet that is in its map, and an outlet with the session of the same id, on a
  live connection, and with the same codec.
\<close>

definition up_sender_ok :: "u32 \<Rightarrow> session_common_info \<Rightarrow> chan_ref \<Rightarrow> inlet_dstate \<times> world \<Rightarrow> bool" where
  "up_sender_ok sid ci out s \<longleftrightarrow>
     sess_id (fst (fst s)) = sid \<and> sess_common (fst (fst s)) = ci \<and> sess_output (fst (fst s)) = out \<and>
     socks5context (fst (fst s)) = None \<and>
     (\<exists>info. hm_get (snd (fst s)) sid = Some info \<and> common_info info = ci)"

definition up_receiver_ok ::
  "libs \<Rightarrow> u32 \<Rightarrow> session_common_info \<Rightarrow> chan_ref \<Rightarrow> chan_ref \<Rightarrow> outlet \<times> world \<Rightarrow> bool" where
  "up_receiver_ok L sid ci tx oc r \<longleftrightarrow>
     libs_ok L \<and> out_output (fst r) = oc \<and> alive (wchans (snd r) tx) \<and>
     (\<exists>info. hm_get (out_sessions (fst r)) sid = Some info \<and> sender_tx info = tx \<and>
        same_codec ci (out_common_info info))"

abbreviation inlet_ack :: "libs \<Rightarrow> chan_ref \<Rightarrow> proxy_message \<Rightarrow> inlet_dstate \<times> world \<Rightarrow>
    unit outcome \<times> (inlet_dstate \<times> world)" where
  "inlet_ack L ic m s \<equiv> on_world (inlet_input_internal L ic (snd (fst s)) m) s"

lemma encode_send_Ok:
  assumes "and_then (on_world (encode_data_and_limiting L ci f) s)
      (\<lambda>e s. on_world (send_p out (m e)) s) = (Ok u, s')"
  shows "\<exists>e. encode_data L ci f = Ok e \<and> pqueue (snd s') out = pqueue (snd s) out @ [m e] \<and>
    bufs (snd s') (read_buf_len ci) = bufs (snd s) (read_buf_len ci) + length e \<and> fst s' = fst s"
  using assms
  by (cases s'; cases "alive (pchans (snd s) out)")
    (auto simp: and_then_Ok_iff on_world_Ok_iff encode_limiting_Ok_iff send_simps)

lemma decode_same_codec:
  "libs_ok L \<Longrightarrow> same_codec ci ci' \<Longrightarrow> encode_data L ci f = Ok e \<Longrightarrow> decode_data L ci' e = Ok f"
  using decode_encode same_codec_cong by metis

interpretation uplink: transfer "encode_data L ci" "I2oSendData sid" "O2iSendDataResult sid"
    "inlet_on_recv_frame L" "\<lambda>s. pqueue (snd s) out" "\<lambda>s. bufs (snd s) (read_buf_len ci)"
    "up_sender_ok sid ci out" "outlet_input_internal L E" "\<lambda>r. wqueue (snd r) tx"
    "\<lambda>r. pchans (snd r) oc" oc "up_receiver_ok L sid ci tx oc" "inlet_ack L ic"
  for L ci sid out E tx oc ic
proof
  fix s f u s'
  assume ok: "up_sender_ok sid ci out s" and r: "inlet_on_recv_frame L f s = (Ok u, s')"
  then have "and_then (on_world (encode_data_and_limiting L ci f) s)
      (\<lambda>e s. on_world (send_p out (I2oSendData sid e)) s) = (Ok u, s')"
    by (simp add: inlet_on_recv_frame_def up_sender_ok_def)
  from encode_send_Ok [OF this] ok show "\<exists>e. encode_data L ci f = Ok e \<and>
      pqueue (snd s') out = pqueue (snd s) out @ [I2oSendData sid e] \<and>
      bufs (snd s') (read_buf_len ci) = bufs (snd s) (read_buf_len ci) + length e \<and> up_sender_ok sid ci out s'"
    by (auto simp: up_sender_ok_def)
next
  fix r :: "outlet \<times> world" and f e
  assume "up_receiver_ok L sid ci tx oc r" and "encode_data L ci f = Ok e"
  then show "\<exists>r'. outlet_input_internal L E (I2oSendData sid e) r = (Ok (), r') \<and>
      wqueue (snd r') tx = wqueue (snd r) tx @ [SendAndThen f (oc, O2iSendDataResult sid (length e))] \<and>
      pchans (snd r') oc = pchans (snd r) oc \<and> up_receiver_ok L sid ci tx oc r'"
    using decode_same_codec
    by (fastforce simp: up_receiver_ok_def outlet_input_internal_def on_i2o_send_data_def on_world_def send_simps)
next
  fix s :: "inlet_dstate \<times> world" and n
  assume "up_sender_ok sid ci out s"
  then show "\<exists>s'. inlet_ack L ic (O2iSendDataResult sid n) s = (Ok (), s') \<and>
      bufs (snd s') (read_buf_len ci) = bufs (snd s) (read_buf_len ci) - n \<and> up_sender_ok sid ci out s'"
    by (cases s; cases "fst s") (auto simp: up_sender_ok_def inlet_input_internal_def on_world_def)
qed

section \<open>From the outlet to the inlet\<close>

definition down_sender_ok :: "u32 \<Rightarrow> session_common_info \<Rightarrow> chan_ref \<Rightarrow> outlet_dstate \<times> world \<Rightarrow> bool" where
  "down_sender_ok sid ci out s \<longleftrightarrow>
     o_session_id (fst (fst s)) = sid \<and> o_common (fst (fst s)) = ci \<and> o_output (fst (fst s)) = out \<and>
     (\<exists>info. hm_get (snd (fst s)) sid = Some info \<and> out_common_info info = ci)"

definition down_receiver_ok ::
  "libs \<Rightarrow> u32 \<Rightarrow> session_common_info \<Rightarrow> chan_ref \<Rightarrow> inlet_session_info session_info_map \<times> world \<Rightarrow> bool" where
  "down_receiver_ok L sid ci tx r \<longleftrightarrow>
     libs_ok L \<and> alive (wchans (snd r) tx) \<and>
     (\<exists>info. hm_get (fst r) sid = Some info \<and> proxy_message_tx info = None \<and> writer_tx info = tx \<and>
        same_codec ci (common_info info))"

text \<open>The outlet handles a message while one of its sessions is in the given state.\<close>

definition outlet_ack :: "libs \<Rightarrow> outlet_env \<Rightarrow> outlet \<Rightarrow> proxy_message \<Rightarrow> outlet_dstate \<times> world \<Rightarrow>
    unit outcome \<times> (outlet_dstate \<times> world)" where
  "outlet_ack L E ob m s =
     (case outlet_input_internal L E m (ob\<lparr>out_sessions := snd (fst s)\<rparr>, snd s) of
        (r, (ob', w)) \<Rightarrow> (r, ((fst (fst s), out_sessions ob'), w)))"

abbreviation inlet_handle :: "libs \<Rightarrow> chan_ref \<Rightarrow> proxy_message \<Rightarrow>
    inlet_session_info session_info_map \<times> world \<Rightarrow>
    unit outcome \<times> (inlet_session_info session_info_map \<times> world)" where
  "inlet_handle L ic m r \<equiv> on_world (inlet_input_internal L ic (fst r) m) r"

interpretation downlink: transfer "encode_data L ci" "O2iRecvData sid" "I2oRecvDataResult sid"
    "outlet_on_recv_frame L" "\<lambda>s. pqueue (snd s) out" "\<lambda>s. bufs (snd s) (read_buf_len ci)"
    "down_sender_ok sid ci out" "inlet_handle L ic" "\<lambda>r. wqueue (snd r) tx"
    "\<lambda>r. pchans (snd r) ic" ic "down_receiver_ok L sid ci tx" "outlet_ack L E ob"
  for L ci sid out ic tx E ob
proof
  fix s f u s'
  assume ok: "down_sender_ok sid ci out s" and r: "outlet_on_recv_frame L f s = (Ok u, s')"
  then have "and_then (on_world (encode_data_and_limiting L ci f) s)
      (\<lambda>e s. on_world (send_p out (O2iRecvData sid e)) s) = (Ok u, s')"
    by (simp add: outlet_on_recv_frame_def down_sender_ok_def)
  from encode_send_Ok [OF this] ok show "\<exists>e. encode_data L ci f = Ok e \<and>
      pqueue (snd s') out = pqueue (snd s) out @ [O2iRecvData sid e] \<and>
      bufs (snd s') (read_buf_len ci) = bufs (snd s) (read_buf_len ci) + length e \<and> down_sender_ok sid ci out s'"
    by (auto simp: down_sender_ok_def)
next
  fix r :: "inlet_session_info session_info_map \<times> world" and f e
  assume "down_receiver_ok L sid ci tx r" and "encode_data L ci f = Ok e"
  then show "\<exists>r'. inlet_handle L ic (O2iRecvData sid e) r = (Ok (), r') \<and>
      wqueue (snd r') tx = wqueue (snd r) tx @ [SendAndThen f (ic, I2oRecvDataResult sid (length e))] \<and>
      pchans (snd r') ic = pchans (snd r) ic \<and> down_receiver_ok L sid ci tx r'"
    using decode_same_codec
    by (fastforce simp: down_receiver_ok_def inlet_input_internal_def on_world_def send_simps)
next
  fix s :: "outlet_dstate \<times> world" and n
  assume "down_sender_ok sid ci out s"
  then show "\<exists>s'. outlet_ack L E ob (I2oRecvDataResult sid n) s = (Ok (), s') \<and>
      bufs (snd s') (read_buf_len ci) = bufs (snd s) (read_buf_len ci) - n \<and> down_sender_ok sid ci out s'"
    by (cases s; cases "fst s")
      (auto simp: down_sender_ok_def outlet_ack_def outlet_input_internal_def on_i2o_recv_data_result_def)
qed

section \<open>End to end\<close>

lemma poll_write_of:
  assumes "reliable W acc wire" and "wqueue w tx = map2 (write_of c g) fs es" and "length es = length fs"
    and "alive (pchans w c)"
  shows "\<exists>k' w'. poll_write W tx (k, w) = (Continue, (k', w')) \<and> acc k' = acc k @ concat fs \<and>
    pqueue w' c = pqueue w c @ map (\<lambda>e. g (length e)) es"
proof -
  define ms where "ms = map2 (write_of c g) fs es"
  have ms: "concat (map payload ms) = concat fs" "callbacks ms = map (\<lambda>e. (c, g (length e))) es"
    "\<forall>m \<in> set ms. \<not> is_close m \<and> \<not> is_send_to m"
    using assms(3) by (auto simp: ms_def payloads_write_of callbacks_write_of simp del: map_map)
      (auto simp: write_of_def)
  from poll_write_spec [OF assms(1), of "(k, w)" tx ms "[]"] assms(2) ms(3)
  obtain k' where k': "poll_write W tx (k, w) = (Continue, (k', (fold run_callback (callbacks ms) w)
      \<lparr>wchans := (wchans w)(tx := (wchans w tx)\<lparr>queue := [], alive := alive (wchans w tx)\<rparr>)\<rparr>))"
    "acc k' = acc k @ concat (map payload ms)"
    by (auto simp flip: ms_def)
  show ?thesis
    by (intro exI conjI, rule k'(1))
      (simp_all add: k'(2) ms fold_callbacks_pqueue [OF assms(4)])
qed

text \<open>
  C1: Frames that an application sends into a session of an inlet arrive at the target as the same
  bytes in the same order: the messages the inlet produces are handled by the outlet without error,
  its write loop then writes exactly the concatenation of the frames, and when the inlet has handled
  the acknowledgements the outlet sends back, its counter of unacknowledged bytes is where it was.
\<close>

theorem tunnel_uplink:
  assumes "up_sender_ok sid ci out s" and "up_receiver_ok L sid ci tx oc r"
    and "wqueue (snd r) tx = []" and "alive (pchans (snd r) oc)" and "reliable W acc wire"
    and "run_all (inlet_on_recv_frame L) fs s = (Ok (), s')"
  shows "\<exists>ms r' k' w' acks s''.
      pqueue (snd s') out = pqueue (snd s) out @ ms
    \<and> run_all (outlet_input_internal L E) ms r = (Ok (), r')
    \<and> poll_write W tx (k, snd r') = (Continue, (k', w')) \<and> acc k' = acc k @ concat fs
    \<and> pqueue w' oc = pqueue (snd r) oc @ acks
    \<and> run_all (inlet_ack L ic) acks s' = (Ok (), s'')
    \<and> bufs (snd s'') (read_buf_len ci) = bufs (snd s) (read_buf_len ci)"
proof -
  from uplink.delivers [OF assms(1,2,6), of E ic] obtain es r' s'' where
    d: "pqueue (snd s') out = pqueue (snd s) out @ map (I2oSendData sid) es" "length es = length fs"
      "run_all (outlet_input_internal L E) (map (I2oSendData sid) es) r = (Ok (), r')"
      "wqueue (snd r') tx = map2 (write_of oc (O2iSendDataResult sid)) fs es"
      "pchans (snd r') oc = pchans (snd r) oc"
      "run_all (inlet_ack L ic) (map (\<lambda>e. O2iSendDataResult sid (length e)) es) s' = (Ok (), s'')"
      "bufs (snd s'') (read_buf_len ci) = bufs (snd s) (read_buf_len ci)"
    using assms(3) by auto
  from poll_write_of [OF assms(5) d(4,2), of k] assms(4) obtain k' w' where
    "poll_write W tx (k, snd r') = (Continue, (k', w'))" "acc k' = acc k @ concat fs"
    "pqueue w' oc = pqueue (snd r) oc @ map (\<lambda>e. O2iSendDataResult sid (length e)) es"
    unfolding d(5) by blast
  with d(1,3,6,7) show ?thesis by blast
qed

text \<open>
  C2: The same from the target to the application, for a session of a TCP inlet.
\<close>

theorem tunnel_downlink:
  assumes "down_sender_ok sid ci out s" and "down_receiver_ok L sid ci tx r"
    and "wqueue (snd r) tx = []" and "alive (pchans (snd r) ic)" and "reliable W acc wire"
    and "run_all (outlet_on_recv_frame L) fs s = (Ok (), s')"
  shows "\<exists>ms r' k' w' acks s''.
      pqueue (snd s') out = pqueue (snd s) out @ ms
    \<and> run_all (inlet_handle L ic) ms r = (Ok (), r')
    \<and> poll_write W tx (k, snd r') = (Continue, (k', w')) \<and> acc k' = acc k @ concat fs
    \<and> pqueue w' ic = pqueue (snd r) ic @ acks
    \<and> run_all (outlet_ack L E ob) acks s' = (Ok (), s'')
    \<and> bufs (snd s'') (read_buf_len ci) = bufs (snd s) (read_buf_len ci)"
proof -
  from downlink.delivers [OF assms(1,2,6), of ic E ob] obtain es r' s'' where
    d: "pqueue (snd s') out = pqueue (snd s) out @ map (O2iRecvData sid) es" "length es = length fs"
      "run_all (inlet_handle L ic) (map (O2iRecvData sid) es) r = (Ok (), r')"
      "wqueue (snd r') tx = map2 (write_of ic (I2oRecvDataResult sid)) fs es"
      "pchans (snd r') ic = pchans (snd r) ic"
      "run_all (outlet_ack L E ob) (map (\<lambda>e. I2oRecvDataResult sid (length e)) es) s' = (Ok (), s'')"
      "bufs (snd s'') (read_buf_len ci) = bufs (snd s) (read_buf_len ci)"
    using assms(3) by auto
  from poll_write_of [OF assms(5) d(4,2), of k] assms(4) obtain k' w' where
    "poll_write W tx (k, snd r') = (Continue, (k', w'))" "acc k' = acc k @ concat fs"
    "pqueue w' ic = pqueue (snd r) ic @ map (\<lambda>e. I2oRecvDataResult sid (length e)) es"
    unfolding d(5) by blast
  with d(1,3,6,7) show ?thesis by blast
qed

end
