(* ===== verification/Socks5_Props.thy ===== *)
theory Socks5_Props
  imports Socks5
begin

text \<open>
  Properties of the SOCKS5 state machine: the transitions it can make, that nothing reaches the
  outlet before the credentials are checked, how it treats fragmented requests, and where it
  panics.
\<close>

section \<open>Projections of the operations\<close>

lemma on_world_proj [simp]:
  "fst (snd (on_world f s)) = fst s" "snd (snd (on_world f s)) = snd (f (snd s))"
  "fst (on_world f s) = fst (f (snd s))"
  by (simp_all add: on_world_def split: prod.splits)

lemmas step_simps = Let_def and_then_proj case_prod_beta

lemma respond_and_close_ctx [simp]:
  "fst (snd (respond_and_close r d s)) = fst s"
  "pchans (snd (snd (respond_and_close r d s))) = pchans (snd s)"
  "fst (respond_and_close r d s) \<noteq> Panic"
  by (auto simp: respond_and_close_def and_then_proj split: outcome.splits)

section \<open>Transitions\<close>

text \<open>How far a session has come; the two running states are on a level.\<close>

fun rank :: "status \<Rightarrow> nat" where
  "rank Init = 0"
| "rank Verification = 1"
| "rank Connect = 2"
| "rank (Connecting _) = 3"
| "rank RunWithTcp = 4"
| "rank (RunWithUdp _) = 4"

instantiation status :: preorder
begin

definition less_eq_status :: "status \<Rightarrow> status \<Rightarrow> bool" where
  "less_eq_status s t \<longleftrightarrow> rank s \<le> rank t"

definition less_status :: "status \<Rightarrow> status \<Rightarrow> bool" where
  "less_status s t \<longleftrightarrow> rank s < rank t"

instance
  by standard (auto simp: less_eq_status_def less_status_def)

end

text \<open>The flows documented above \<open>enum Status\<close>, with and without a password.\<close>

inductive documented :: "bool \<Rightarrow> status \<Rightarrow> status \<Rightarrow> bool" for auth :: bool where
  greet_password: "auth \<Longrightarrow> documented auth Init Verification"
| greet_none: "\<not> auth \<Longrightarrow> documented auth Init Connect"
| verified: "documented auth Verification Connect"
| requested: "documented auth Connect (Connecting tcp)"
| tcp_up: "documented auth (Connecting True) RunWithTcp"
| udp_up: "documented auth (Connecting False) (RunWithUdp port)"

definition auth_required :: "inlet_data_ex \<Rightarrow> bool" where
  "auth_required d \<longleftrightarrow> username d \<noteq> [] \<or> password d \<noteq> []"

lemma select_method_cases:
  "select_method d ms = SOCKS5_AUTH_METHOD_NONE \<and> \<not> auth_required d \<and> 0 \<in> set ms \<or>
   select_method d ms = SOCKS5_AUTH_METHOD_PASSWORD \<and> auth_required d \<and> 2 \<in> set ms \<or>
   select_method d ms = SOCKS5_AUTH_METHOD_NOT_ACCEPTABLE"
  by (auto simp: select_method_def auth_required_def socks5_consts)

lemma select_method_none_iff:
  "select_method d ms \<noteq> SOCKS5_AUTH_METHOD_NOT_ACCEPTABLE \<Longrightarrow>
   select_method d ms = SOCKS5_AUTH_METHOD_NONE \<longleftrightarrow> \<not> auth_required d"
  using select_method_cases [of d ms] by (auto simp: socks5_consts)

lemma init_ctx:
  fixes s
  defines "c' \<equiv> fst (snd (on_socks5_init s))"
  shows "c' = fst s \<or>
    (\<exists>b. c' = (fst s)\<lparr>buffer := b,
      status := if auth_required (data_ex (fst s)) then Verification else Connect\<rparr>)"
  unfolding c'_def
  by (auto simp: on_socks5_init_def step_simps select_method_none_iff split: outcome.splits)

lemma init_frame:
  "pchans (snd (snd (on_socks5_init s))) = pchans (snd s)" "fst (on_socks5_init s) \<noteq> Panic"
  by (auto simp: on_socks5_init_def step_simps split: outcome.splits)

text \<open>The client's message carries the configured user name and password.\<close>

definition presents_credentials :: "inlet_data_ex \<Rightarrow> bytes \<Rightarrow> bool" where
  "presents_credentials d buf =
     (let lu = length (username d); lp = length (password d) in
      3 + lu + lp \<le> length buf \<and>
      unat (buf ! 1) = lu \<and> take lu (drop 2 buf) = as_bytes (username d) \<and>
      unat (buf ! (2 + lu)) = lp \<and> take lp (drop (3 + lu) buf) = as_bytes (password d))"

lemma presents_credentialsI:
  assumes "take n (drop 2 buf) = as_bytes (username d)" "2 + n \<le> length buf" "n = unat (buf ! 1)"
    and "m = unat (buf ! (2 + n))" "take m (drop (3 + n) buf) = as_bytes (password d)"
    and "3 + n + m \<le> length buf"
  shows "presents_credentials d buf"
proof -
  have "length (take n (drop 2 buf)) = length (username d)"
    "length (take m (drop (3 + n) buf)) = length (password d)"
    using assms(1,5) by simp_all
  with assms(2,6) have "length (username d) = n" "length (password d) = m" by simp_all
  with assms show ?thesis by (simp add: presents_credentials_def Let_def)
qed

lemma verification_ctx:
  fixes s
  defines "c' \<equiv> fst (snd (on_socks5_verification s))"
  shows "c' = fst s \<or>
    presents_credentials (data_ex (fst s)) (buffer (fst s)) \<and>
    (\<exists>b. c' = (fst s)\<lparr>buffer := b, status := Connect\<rparr>)"
  unfolding c'_def
  by (auto simp: on_socks5_verification_def step_simps idx_def slice_def
      intro!: presents_credentialsI split: outcome.splits)

lemma verification_frame: "pchans (snd (snd (on_socks5_verification s))) = pchans (snd s)"
  by (auto simp: on_socks5_verification_def step_simps idx_def slice_def split: outcome.splits)

lemma connect_ctx:
  fixes s L
  defines "c' \<equiv> fst (snd (on_socks5_connect L s))"
  shows "c' = fst s \<or> (\<exists>b. c' = (fst s)\<lparr>buffer := b\<rparr>) \<or>
    (\<exists>tcp ta. c' = (fst s)\<lparr>target_addr := Some ta, buffer := [], status := Connecting tcp\<rparr>)"
  unfolding c'_def
  by (auto simp: on_socks5_connect_def step_simps split: outcome.splits option.splits)

lemma udp_bind_ctx:
  fixes s E
  defines "c' \<equiv> fst (snd (udp_bind E s))"
  shows "(c' = fst s \<and> \<not> is_Ok (fst (udp_bind E s)) \<or>
     is_Ok (fst (udp_bind E s)) \<and> (\<exists>p. c' = (fst s)\<lparr>udp_task_handle := True, status := RunWithUdp p\<rparr>))
     \<and> snd (snd (udp_bind E s)) = snd s"
  unfolding c'_def
  by (auto simp: udp_bind_def step_simps split: outcome.splits option.splits)

lemma o2i_connect_ctx:
  fixes s E ok
  defines "c' \<equiv> fst (snd (on_recv_o2i_connect E ok s))"
  shows "c' = fst s
    \<or> status (fst s) = Connecting True \<and> ok \<and> c' = (fst s)\<lparr>status := RunWithTcp\<rparr>
    \<or> status (fst s) = Connecting False \<and> ok \<and>
      (\<exists>p. c' = (fst s)\<lparr>udp_task_handle := True, status := RunWithUdp p\<rparr>)"
  using udp_bind_ctx [of E s] unfolding c'_def
  by (auto simp: on_recv_o2i_connect_def step_simps split: outcome.splits status.splits)

lemma o2i_connect_frame: "pchans (snd (snd (on_recv_o2i_connect E ok s))) = pchans (snd s)"
  using udp_bind_ctx [of E s]
  by (auto simp: on_recv_o2i_connect_def step_simps send_w_ignore_def split: outcome.splits status.splits)

lemma recv_data_ctx: "fst (snd (on_recv_o2i_recv_data L sid d s)) = fst s"
  "pchans (snd (snd (on_recv_o2i_recv_data L sid d s))) = pchans (snd s)"
  by (auto simp: on_recv_o2i_recv_data_def step_simps split: outcome.splits status.splits)

lemma recv_data_from_ctx:
  fixes s L E sid d p
  defines "s' \<equiv> snd (on_recv_o2i_recv_data_from L E sid d p s)"
  shows "fst s' = fst s \<or> (\<exists>u. fst s' = (fst s)\<lparr>udp_sent := u\<rparr>)"
    and "(\<forall>port. status (fst s) \<noteq> RunWithUdp port) \<Longrightarrow> s' = s"
  unfolding s'_def
  by (auto simp: on_recv_o2i_recv_data_from_def step_simps split: outcome.splits status.splits option.splits)

section \<open>Steps of a session\<close>

text \<open>
  A step is a frame from the application or a message from the outlet. Between steps the other
  tasks may do anything to the store. The ghost flag of \<open>s5_run\<close> records that the application has
  presented the configured credentials while the session was verifying.
\<close>

datatype s5_event = Frame bytes | FromOutlet proxy_message

definition s5_step :: "libs \<Rightarrow> udp_env \<Rightarrow> s5_event \<Rightarrow> s5_state \<Rightarrow> unit outcome \<times> s5_state" where
  "s5_step L E ev s =
     (case ev of Frame f \<Rightarrow> recv_frame L f s | FromOutlet m \<Rightarrow> on_recv_proxy_message L E m s)"

fun authenticates :: "socks5_context \<Rightarrow> s5_event \<Rightarrow> bool" where
  "authenticates c (Frame f) =
     (status c = Verification \<and> presents_credentials (data_ex c) (buffer c @ f))"
| "authenticates c (FromOutlet m) = False"

inductive s5_run :: "libs \<Rightarrow> inlet_data_ex \<Rightarrow> bool \<Rightarrow> s5_state \<Rightarrow> bool" for L d where
  run_new: "s5_run L d False (socks5_new tx out sid a d ci, w)"
| run_env: "s5_run L d authed (c, w) \<Longrightarrow> s5_run L d authed (c, w')"
| run_step: "s5_run L d authed s \<Longrightarrow> s5_step L E ev s = (r, s') \<Longrightarrow>
    s5_run L d (authed \<or> authenticates (fst s) ev) s'"

lemma recv_frame_cases:
  fixes s L f
  defines "c \<equiv> fst s" and "c' \<equiv> fst (snd (recv_frame L f s))"
  shows "data_ex c' = data_ex c \<and>
    (status c' = status c
      \<or> status c = Init \<and> status c' = (if auth_required (data_ex c) then Verification else Connect)
      \<or> authenticates c (Frame f) \<and> status c' = Connect
      \<or> status c = Connect \<and> (\<exists>tcp. status c' = Connecting tcp))"
proof (cases "status c")
  case Init
  with init_ctx [of "(c\<lparr>buffer := buffer c @ f\<rparr>, snd s)"] show ?thesis
    unfolding c'_def by (auto simp: recv_frame_def c_def Let_def)
next
  case Verification
  with verification_ctx [of "(c\<lparr>buffer := buffer c @ f\<rparr>, snd s)"] show ?thesis
    unfolding c'_def by (auto simp: recv_frame_def c_def Let_def)
next
  case Connect
  with connect_ctx [of L "(c\<lparr>buffer := buffer c @ f\<rparr>, snd s)"] show ?thesis
    unfolding c'_def
    by (auto simp: recv_frame_def c_def Let_def)
qed (auto simp: c'_def recv_frame_def c_def step_simps split: outcome.splits)

lemma recv_frame_quiet:
  "status (fst s) = Init \<or> status (fst s) = Verification \<Longrightarrow>
   pchans (snd (snd (recv_frame L f s))) = pchans (snd s)"
  by (auto simp: recv_frame_def init_frame verification_frame Let_def)

lemma proxy_message_cases:
  fixes s L E m
  defines "c \<equiv> fst s" and "c' \<equiv> fst (snd (on_recv_proxy_message L E m s))"
  shows "data_ex c' = data_ex c \<and>
    (status c' = status c
      \<or> status c = Connecting True \<and> status c' = RunWithTcp
      \<or> status c = Connecting False \<and> (\<exists>p. status c' = RunWithUdp p))"
proof (cases m)
  case (O2iConnect sid ok err)
  with o2i_connect_ctx [of E ok s] show ?thesis
    unfolding c'_def c_def by (auto simp: on_recv_proxy_message_def)
next
  case (O2iRecvDataFrom sid data p)
  with recv_data_from_ctx(1) [of L E sid data p s] show ?thesis
    unfolding c'_def c_def by (auto simp: on_recv_proxy_message_def)
qed (auto simp: c'_def c_def on_recv_proxy_message_def recv_data_ctx)

lemma proxy_message_quiet:
  "\<forall>p. status (fst s) \<noteq> RunWithUdp p \<Longrightarrow>
   pchans (snd (snd (on_recv_proxy_message L E m s))) = pchans (snd s)"
  by (auto simp: on_recv_proxy_message_def o2i_connect_frame recv_data_ctx recv_data_from_ctx
      split: proxy_message.splits)

lemma s5_run_inv:
  "s5_run L d authed s \<Longrightarrow>
   data_ex (fst s) = d \<and> (auth_required d \<longrightarrow> \<not> authed \<longrightarrow> status (fst s) \<in> {Init, Verification})"
proof (induction rule: s5_run.induct)
  case (run_step authed s E ev r s')
  then have s': "fst s' = fst (snd (s5_step L E ev s))" by simp
  show ?case
  proof (cases ev)
    case (Frame f)
    with run_step.IH recv_frame_cases [of L f s] show ?thesis
      unfolding s' by (auto simp: s5_step_def)
  next
    case (FromOutlet m)
    with run_step.IH proxy_message_cases [of L E m s] show ?thesis
      unfolding s' by (auto simp: s5_step_def)
  qed
qed (simp_all add: socks5_new_def)

text \<open>
  C5: An inlet with a user name or a password never acts for an application that has not presented
  exactly these: until then, whatever frames and messages arrive and whatever the other tasks do,
  the session is still greeting or verifying and no step of it sends anything to the outlet.
\<close>

theorem no_proxying_before_authentication:
  assumes "s5_run L d authed (c, w)" and "auth_required d" and "\<not> authed"
  shows "status c \<in> {Init, Verification} \<and> pchans (snd (snd (s5_step L E ev (c, w)))) = pchans w"
proof -
  from s5_run_inv [OF assms(1)] assms(2,3) have st: "status c = Init \<or> status c = Verification"
    by simp
  then have "pchans (snd (snd (s5_step L E ev (c, w)))) = pchans w"
    using recv_frame_quiet [of "(c, w)" L] proxy_message_quiet [of "(c, w)" L E]
    by (auto simp: s5_step_def split: s5_event.splits)
  with st show ?thesis by blast
qed

definition demo_data_ex :: inlet_data_ex where
  "demo_data_ex = \<lparr>username = ''u'', password = ''p''\<rparr>"

definition demo_udp :: udp_env where
  "demo_udp = \<lparr>udp_bind_io = Inr (), udp_connect_io = (\<lambda>_. Inr ()), udp_local_port_io = Inr 4000,
     udp_send_io = (\<lambda>_. Inr ())\<rparr>"

definition demo_socks5 :: "inlet_data_ex \<Rightarrow> socks5_context" where
  "demo_socks5 d = socks5_new 0 1 7 (V4 (Ipv4Addr 10 0 0 9) 5555) d demo_info"

lemmas demo_defs = demo_data_ex_def demo_udp_def demo_socks5_def socks5_new_def demo_info_def

theorem no_proxying_before_authentication_witness:
  "pchans (snd (snd (s5_step demo_libs demo_udp (Frame [5, 1, 0, 1, 10, 0, 0, 1, 0, 80])
     (demo_socks5 demo_data_ex, init_world)))) = pchans init_world"
proof -
  have "s5_run demo_libs demo_data_ex False (demo_socks5 demo_data_ex, init_world)"
    unfolding demo_socks5_def by (rule run_new)
  moreover have "auth_required demo_data_ex"
    by (simp add: auth_required_def demo_data_ex_def)
  ultimately show ?thesis
    using no_proxying_before_authentication [of demo_libs demo_data_ex False
        "demo_socks5 demo_data_ex" init_world] by blast
qed

inductive_simps documented_simps [simp]:
  "documented auth Init t" "documented auth Verification t" "documented auth Connect t"
  "documented auth (Connecting tcp) t" "documented auth RunWithTcp t" "documented auth (RunWithUdp p) t"

lemma documented_less: "documented auth s t \<Longrightarrow> s < t"
  by (induction rule: documented.induct) (simp_all add: less_status_def)

text \<open>
  Every step of a session keeps its status or moves along one of the two flows documented with
  the status type, chosen by whether the inlet has credentials; so the status never goes back, and
  the credentials are never changed.
\<close>

theorem steps_follow_documented_flow:
  fixes L E ev s
  defines "c \<equiv> fst s" and "c' \<equiv> fst (snd (s5_step L E ev s))"
  shows "(status c' = status c \<or> documented (auth_required (data_ex c)) (status c) (status c'))
    \<and> status c \<le> status c' \<and> data_ex c' = data_ex c"
proof -
  have "data_ex c' = data_ex c \<and>
    (status c' = status c \<or> documented (auth_required (data_ex c)) (status c) (status c'))"
    using recv_frame_cases [of L _ s] proxy_message_cases [of L E _ s]
    unfolding c_def c'_def by (cases ev) (fastforce simp: s5_step_def split: if_splits)+
  then show ?thesis
    using documented_less by (auto simp: less_le_not_le)
qed

section \<open>Fragmented requests\<close>

text \<open>Frames arrive one after the other; the session ends at the first error.\<close>

fun recv_frames :: "libs \<Rightarrow> bytes list \<Rightarrow> s5_state \<Rightarrow> unit outcome \<times> s5_state" where
  "recv_frames L [] s = (Ok (), s)"
| "recv_frames L (f # fs) s = and_then (recv_frame L f s) (\<lambda>_ s. recv_frames L fs s)"

lemma recv_frames_Nil: "recv_frames L [] = Pair (Ok ())"
  by (rule ext) simp

text \<open>While the data so far asks for more, it only accumulates.\<close>

definition waits :: "libs \<Rightarrow> s5_state \<Rightarrow> bytes \<Rightarrow> bool" where
  "waits L s data \<longleftrightarrow>
     recv_frame L data s = (Ok (), ((fst s)\<lparr>buffer := buffer (fst s) @ data\<rparr>, snd s))"

lemma recv_frame_append:
  assumes "status (fst s) \<in> {Init, Verification, Connect}"
  shows "recv_frame L f2 ((fst s)\<lparr>buffer := buffer (fst s) @ f1\<rparr>, snd s) = recv_frame L (f1 @ f2) s"
  using assms by (auto simp: recv_frame_def Let_def)

lemma recv_frames_waits:
  assumes "status (fst s) \<in> {Init, Verification, Connect}"
    and "\<And>k. k < length (concat fs) + length f \<Longrightarrow> waits L s (take k (concat fs @ f))"
    and "f \<noteq> []"
  shows "recv_frames L (fs @ [f]) s = recv_frame L (concat fs @ f) s"
  using assms
proof (induction fs arbitrary: s)
  case Nil
  show ?case by (simp add: recv_frames_Nil)
next
  case (Cons g fs)
  let ?s = "((fst s)\<lparr>buffer := buffer (fst s) @ g\<rparr>, snd s)"
  have "waits L s g"
    using Cons.prems(2) [of "length g"] Cons.prems(3) by simp
  then have "recv_frame L g s = (Ok (), ?s)" by (simp add: waits_def)
  moreover have "recv_frames L (fs @ [f]) ?s = recv_frame L (concat fs @ f) ?s"
  proof (rule Cons.IH)
    fix k
    assume "k < length (concat fs) + length f"
    then have "waits L s (g @ take k (concat fs @ f))"
      using Cons.prems(2) [of "length g + k"] by simp
    then show "waits L ?s (take k (concat fs @ f))"
      using recv_frame_append [OF Cons.prems(1)] by (simp add: waits_def)
  qed (use Cons.prems in auto)
  moreover have "recv_frame L (concat fs @ f) ?s = recv_frame L (g @ concat fs @ f) s"
    using recv_frame_append [OF Cons.prems(1)] by simp
  ultimately show ?case by simp
qed

lemma greeting_waits:
  assumes "status c = Init" and "buffer c = []" and "length methods = unat n"
    and "k < length (SOCKS5_VERSION # n # methods)"
  shows "waits L (c, w) (take k (SOCKS5_VERSION # n # methods))"
  using assms by (auto simp: waits_def recv_frame_def on_socks5_init_def Let_def nth_append min_def)

text \<open>
  A greeting may arrive in any pieces: once its last byte is there, and not before, the session
  answers it once with the selected method, consumes it, and goes on to verification exactly when the
  inlet has credentials.
\<close>

theorem greeting_in_pieces:
  assumes "status c = Init" and "buffer c = []" and "alive (wchans w (write_msg_tx c))"
    and "concat fs @ f = SOCKS5_VERSION # n # methods" and "f \<noteq> []"
    and "length methods = unat n" and "methods \<noteq> []"
    and "select_method (data_ex c) methods \<noteq> SOCKS5_AUTH_METHOD_NOT_ACCEPTABLE"
  shows "recv_frames L (fs @ [f]) (c, w) =
     (Ok (), (c\<lparr>status := if auth_required (data_ex c) then Verification else Connect\<rparr>,
       snd (send_w (write_msg_tx c)
         (Send [SOCKS5_VERSION, select_method (data_ex c) methods] True) w)))"
proof -
  have "recv_frames L (fs @ [f]) (c, w) = recv_frame L (SOCKS5_VERSION # n # methods) (c, w)"
    using assms greeting_waits [of c methods n]
    by (subst recv_frames_waits) (auto simp flip: length_append)
  moreover have "0 < unat n" using assms(6,7) by (metis length_greater_0_conv)
  ultimately show ?thesis
    using assms select_method_none_iff [OF assms(8)]
    by (simp add: recv_frame_def on_socks5_init_def Let_def send_w_alive on_world_def)
qed

theorem greeting_in_pieces_witness:
  "recv_frames demo_libs ([[5], [2]] @ [[0, 2]]) (demo_socks5 demo_data_ex, init_world) =
     (Ok (), ((demo_socks5 demo_data_ex)\<lparr>status := Verification\<rparr>,
       snd (send_w 0 (Send [5, 2] True) init_world)))"
proof -
  have m: "select_method demo_data_ex [0, 2] = 2"
    by (simp add: select_method_def demo_data_ex_def socks5_consts)
  show ?thesis
    using greeting_in_pieces [of "demo_socks5 demo_data_ex" init_world "[[5], [2]]" "[0, 2]" 2 "[0, 2]"
        demo_libs]
    by (simp add: demo_socks5_def socks5_new_def m auth_required_def init_world_def new_chan_def
        socks5_consts) (simp add: demo_data_ex_def)
qed

definition connect_msg :: "libs \<Rightarrow> socks5_context \<Rightarrow> bool \<Rightarrow> target_addr \<Rightarrow> proxy_message" where
  "connect_msg L c tcp ta =
     I2oConnect (session_id c) (to_u8 SOCKS5) tcp (is_compressed (common_data c)) (ta_to_string ta)
       (method_to_string (encryption_method (common_data c)))
       (base64_encode L (encryption_key (common_data c))) (show_socket_addr (addr c))"

lemma request_waits:
  assumes "status c = Connect" and "buffer c = []" and "to_be_bytes ta = Ok (t # bs)"
    and "cmd \<in> {SOCKS5_CMD_TCP_CONNECT, SOCKS5_CMD_UDP_ASSOCIATE}"
    and "k < length ([SOCKS5_VERSION, cmd, 0, t] @ bs)"
  shows "waits L (c, w) (take k ([SOCKS5_VERSION, cmd, 0, t] @ bs))"
proof (cases "k < 8")
  case False
  then obtain j where k: "k = Suc (Suc (Suc (Suc j)))" "4 \<le> j"
    using that [of "k - 4"] by simp
  with assms(5) have "j < length bs" by simp
  moreover from to_be_bytes_block [OF assms(3)]
  have b: "bs \<noteq> []" "block_length bs t = length bs"
    "t \<in> {SOCKS5_ADDR_TYPE_IPV4, SOCKS5_ADDR_TYPE_IPV6, SOCKS5_ADDR_TYPE_DOMAIN_NAME}" by auto
  moreover have "block_length (take j bs) t = block_length bs t"
    using k(2) b(1) by (simp add: block_length_def)
  ultimately have "read_address (take j bs) t = Ok None"
    using k(2) by (intro read_address_incomplete) auto
  with assms False k show ?thesis
    by (auto simp: waits_def recv_frame_def on_socks5_connect_def Let_def)
qed (use assms in \<open>simp add: waits_def recv_frame_def on_socks5_connect_def min_def\<close>)

text \<open>
  C31: A connect or UDP-associate request for a representable address may arrive in any pieces:
  once its last byte is there, and not before, exactly one \<open>I2oConnect\<close> is sent, for the requested
  address (for UDP, the client's own address with the requested port), and the session waits for the
  outlet.
\<close>

theorem request_in_pieces:
  fixes c tcp ta
  defines "target \<equiv> if tcp then ta else Ip (set_port (ta_port ta) (addr c))"
  assumes "status c = Connect" and "buffer c = []" and "alive (pchans w (output_tx c))"
    and "to_be_bytes ta = Ok bs" and "representable ta" and "5 \<le> length bs"
    and "concat fs @ f =
      [SOCKS5_VERSION, if tcp then SOCKS5_CMD_TCP_CONNECT else SOCKS5_CMD_UDP_ASSOCIATE, 0] @ bs"
    and "f \<noteq> []"
  shows "recv_frames L (fs @ [f]) (c, w) =
     (Ok (), (c\<lparr>target_addr := Some target, status := Connecting tcp\<rparr>,
       snd (send_p (output_tx c) (connect_msg L c tcp target) w)))"
proof -
  obtain t bs' where bs: "bs = t # bs'" using assms(7) by (cases bs) auto
  let ?cmd = "if tcp then SOCKS5_CMD_TCP_CONNECT else SOCKS5_CMD_UDP_ASSOCIATE"
  have "recv_frames L (fs @ [f]) (c, w) = recv_frame L ([SOCKS5_VERSION, ?cmd, 0, t] @ bs') (c, w)"
    using assms request_waits [of c ta t bs' ?cmd]
    by (subst recv_frames_waits) (auto simp: bs simp flip: length_append)
  moreover have "read_address bs' t = Ok (Some (ta, length bs'))"
    using read_to_be_bytes [of ta t bs' "[]"] assms(5,6) by (simp add: bs)
  ultimately show ?thesis
    using assms
    by (auto simp: bs recv_frame_def on_socks5_connect_def Let_def send_p_alive on_world_def
        connect_msg_def socks5_consts)
qed

theorem request_in_pieces_witness:
  "snd (snd (recv_frames demo_libs ([[5, 1], [0, 1, 10, 0]] @ [[0, 1, 0, 80]])
     ((demo_socks5 demo_data_ex)\<lparr>status := Connect\<rparr>, init_world))) =
   snd (send_p 1 (connect_msg demo_libs (demo_socks5 demo_data_ex) True
     (Ip (V4 (Ipv4Addr 10 0 0 1) 80))) init_world)"
proof -
  have "to_be_bytes (Ip (V4 (Ipv4Addr 10 0 0 1) 80)) = Ok [1, 10, 0, 0, 1, 0, 80]"
    by (simp add: socks5_consts u16_to_be_bytes_def)
  then show ?thesis
    using request_in_pieces [where tcp = True and f = "[0, 1, 0, 80]" and L = demo_libs
        and c = "(demo_socks5 demo_data_ex)\<lparr>status := Connect\<rparr>" and w = init_world
        and fs = "[[5, 1], [0, 1, 10, 0]]" and ta = "Ip (V4 (Ipv4Addr 10 0 0 1) 80)"]
    by (simp add: demo_socks5_def socks5_new_def init_world_def new_chan_def connect_msg_def socks5_consts)
qed

section \<open>Where the session panics\<close>

text \<open>The bytes that \<open>on_socks5_verification\<close> indexes after it has seen four of them.\<close>

definition auth_message_length :: "bytes \<Rightarrow> nat" where
  "auth_message_length buf =
     (let unl = unat (buf ! 1) in
      if 2 + unl < length buf then 3 + unl + unat (buf ! (2 + unl)) else 3 + unl)"

lemma verification_panic:
  "fst (on_socks5_verification s) = Panic \<longleftrightarrow>
     4 \<le> length (buffer (fst s)) \<and> length (buffer (fst s)) < auth_message_length (buffer (fst s))"
  by (auto simp: on_socks5_verification_def step_simps idx_def slice_def auth_message_length_def
      not_le split: outcome.splits)

lemma connect_no_panic: "fst (on_socks5_connect L s) \<noteq> Panic"
proof (cases "length (buffer (fst s)) < 8")
  case False
  then have "read_address (drop 4 (buffer (fst s))) t \<noteq> Panic" for t
    by (intro read_address_no_panic) auto
  then show ?thesis
    by (auto simp: on_socks5_connect_def step_simps split: outcome.splits option.splits)
qed (simp add: on_socks5_connect_def)

lemma encode_limiting_no_panic: "fst (encode_data_and_limiting L ci data w) \<noteq> Panic"
  by (auto simp: encode_data_and_limiting_def fst_and_then encode_data_no_panic split: outcome.splits)

text \<open>
  C32: A frame makes the session panic in exactly one situation: it is verifying, has at least four
  bytes of the user name and password message, and not yet all of them. Every other frame, of any
  content in any state, is answered without a panic.
\<close>

theorem recv_frame_panics_iff:
  "fst (recv_frame L f (c, w)) = Panic \<longleftrightarrow>
     status c = Verification \<and> 4 \<le> length (buffer c @ f) \<and>
     length (buffer c @ f) < auth_message_length (buffer c @ f)"
proof (cases "status c")
  case RunWithTcp
  with encode_limiting_no_panic [of L "common_data c" f w] show ?thesis
    by (auto simp: recv_frame_def fst_and_then split: outcome.splits)
qed (simp_all add: recv_frame_def Let_def init_frame connect_no_panic verification_panic)

section \<open>UDP associations\<close>

text \<open>
  A datagram from the outlet reaches the application with the SOCKS5 UDP header: three zero
  bytes, then a block that \<open>read_address\<close> reads back as the sender's address, then the decoded
  payload; and the outlet is told how many encoded bytes were consumed.
\<close>

theorem udp_reply_readable:
  assumes "status c = RunWithUdp port" and "decode_data L (common_data c) data = Ok payload"
    and "parse_socket_addr peer = Some a" and "representable (Ip a)"
    and "\<And>d. udp_send_io E d = Inr ()"
  shows "\<exists>t bs. on_recv_o2i_recv_data_from L E sid data peer (c, w) =
      (Ok (), (c\<lparr>udp_sent := udp_sent c @ [[0, 0, 0, t] @ bs @ payload]\<rparr>,
        send_p_ignore (output_tx c) (I2oRecvDataResult sid (length data)) w))
    \<and> read_address (bs @ payload) t = Ok (Some (Ip a, length bs))"
proof -
  obtain bs where "to_be_bytes (Ip a) = Ok bs" by (cases a) auto
  moreover from to_be_bytes_block [OF this] obtain t bs' where "bs = t # bs'" by (cases bs) auto
  ultimately have b: "to_be_bytes (Ip a) = Ok (t # bs')" by simp
  from read_to_be_bytes [OF b assms(4)] assms b show ?thesis
    by (intro exI [of _ t] exI [of _ bs'])
      (simp add: on_recv_o2i_recv_data_from_def io_result_def)
qed

definition plain_info :: session_common_info where
  "plain_info = \<lparr>is_compressed = False, encryption_method = MethodNone, encryption_key = [], read_buf_len = 0\<rparr>"

lemmas eval_text = as_bytes_def byte_of_char_def of_char_def char_of_byte_def

lemma demo_peer: "parse_socket_addr ''10.0.0.1:53'' = Some (V4 (Ipv4Addr 10 0 0 1) 53)"
proof -
  have "show_socket_addr (V4 (Ipv4Addr 10 0 0 1) 53) = ''10.0.0.1:53''"
    by (simp add: show_ipv4_def show_radix.simps digit_char_def)
  then show ?thesis using parse_show_socket_addr_v4 by metis
qed

theorem udp_reply_readable_witness:
  "\<exists>t bs. on_recv_o2i_recv_data_from demo_libs demo_udp 7 [42] ''10.0.0.1:53''
      ((demo_socks5 demo_data_ex)\<lparr>status := RunWithUdp 4000, common_data := plain_info\<rparr>, init_world) =
     (Ok (), ((demo_socks5 demo_data_ex)\<lparr>status := RunWithUdp 4000, common_data := plain_info,
        udp_sent := [[0, 0, 0, t] @ bs @ [42]]\<rparr>, send_p_ignore 1 (I2oRecvDataResult 7 1) init_world))
    \<and> read_address (bs @ [42]) t = Ok (Some (Ip (V4 (Ipv4Addr 10 0 0 1) 53), length bs))"
  using udp_reply_readable
    [of "(demo_socks5 demo_data_ex)\<lparr>status := RunWithUdp 4000, common_data := plain_info\<rparr>" 4000
        demo_libs "[42]" "[42]", OF _ _ demo_peer, of demo_udp 7 init_world]
  by (simp add: decode_data_def plain_info_def demo_udp_def demo_socks5_def socks5_new_def)

lemma recv_udp_data_parsed:
  assumes "to_be_bytes a = Ok (t # bs)" and "representable a" and "length hdr = 3"
    and "11 \<le> length (hdr @ [t] @ bs @ payload)"
  shows "recv_udp_data L sid (length (hdr @ [t] @ bs @ payload)) (hdr @ [t] @ bs @ payload) out ci w =
     and_then (decode_data L ci payload, w)
       (\<lambda>data w. send_p out (I2oSendToData sid data (ta_to_string a)) w)"
proof -
  have "read_address (bs @ payload) t = Ok (Some (a, length bs))"
    by (rule read_to_be_bytes [OF assms(1,2)])
  with assms(3,4) show ?thesis
    by (simp add: recv_udp_data_def slice_def nth_append)
qed

lemma decode_twice:
  assumes "\<not> is_compressed ci" and "encryption_method ci \<noteq> Aes128"
  shows "\<exists>d. decode_data L ci payload = Ok d \<and> decode_data L ci d = Ok payload"
  using assms
  by (cases "encryption_method ci")
    (auto simp: decode_data_def xor_encrypt_decrypt_def xor_cycle_involution)



end
