(* ===== verification/Tunnel_Control.thy ===== *)
theory Tunnel_Control
  imports Tunnel_Props
begin

text \<open>
  The control messages of a tunnel: failed connects, disconnects from either side, messages for
  unknown sessions, the isolation of sessions from each other, repeated answers to a SOCKS5 connect,
  and starting and stopping an inlet.
\<close>

section \<open>A target that cannot be reached\<close>

definition connect_fails :: "outlet_env \<Rightarrow> inlet_proxy_type \<Rightarrow> string \<Rightarrow> string \<Rightarrow> bool" where
  "connect_fails E t a e \<longleftrightarrow>
     (case t of
        TCP \<Rightarrow> tcp_connect_io E a = Inl e
      | UDP \<Rightarrow> udp_socket_bind_io E = Inl e \<or>
          udp_socket_bind_io E = Inr () \<and> a \<noteq> [] \<and> udp_socket_connect_io E a = Inl e
      | SOCKS5 \<Rightarrow> False)"

lemma outlet_connect_fails:
  assumes "libs_ok L" and "\<not> hm_contains (out_sessions ob) sid"
    and "connect_fails E (inlet_proxy_type ses) (output_addr ses) e" and "alive (pchans w (out_output ob))"
  shows "\<exists>w'. outlet_input_internal L E (connect_request L ses sid a) (ob, w) = (Ok (), (ob, w'))
    \<and> pqueue w' (out_output ob) = pqueue w (out_output ob) @ [O2iConnect sid False e] \<and> wchans w' = wchans w"
proof -
  have key: "base64_decode L (base64_encode L k) = Inr k" for k
    using assms(1) by (simp add: libs_ok_def base64_ok_def)
  have "\<exists>w1. on_i2o_connect L E sid (to_u8 (inlet_proxy_type ses)) (is_tcp (inlet_proxy_type ses))
      (is_compressed (sess_common ses)) (output_addr ses) (method_to_string (encryption_method (sess_common ses)))
      (base64_encode L (encryption_key (sess_common ses))) (ob, w) = (Err e, (ob, w1)) \<and>
      pchans w1 = pchans w \<and> wchans w1 = wchans w"
    using assms(2,3)
    by (cases "inlet_proxy_type ses")
      (auto simp: connect_fails_def on_i2o_connect_def from_u32_def io_result_def tcp_connect_def
        udp_connect_def session_common_info_new_def key)
  then show ?thesis
    using assms(4) by (auto simp: outlet_input_internal_def connect_request_def on_world_def send_p_alive)
qed

text \<open>
  If the outlet cannot connect to the target of a TCP or UDP tunnel, it registers no session and
  answers with the reason; the inlet then closes the application's connection. A connect request for
  a session that exists is refused and changes no session.
\<close>

theorem failed_connect_closes:
  assumes "libs_ok L" and "connect_fails E (inlet_proxy_type ses) (output_addr ses) e"
    and "alive (pchans wo (out_output ob))"
    and "hm_get ss sid = Some info" and "proxy_message_tx info = None" and "alive (wchans wi (writer_tx info))"
  shows "(\<not> hm_contains (out_sessions ob) sid \<longrightarrow>
      (\<exists>wo'. outlet_input_internal L E (connect_request L ses sid a) (ob, wo) = (Ok (), (ob, wo'))
        \<and> pqueue wo' (out_output ob) = pqueue wo (out_output ob) @ [O2iConnect sid False e]))
    \<and> (\<exists>wi'. inlet_input_internal L ic ss (O2iConnect sid False e) wi = (Ok (), wi')
        \<and> wqueue wi' (writer_tx info) = wqueue wi (writer_tx info) @ [Close])
    \<and> (hm_contains (out_sessions ob) sid \<longrightarrow>
        (\<exists>wo'. outlet_input_internal L E (connect_request L ses sid a) (ob, wo) = (Ok (), (ob, wo'))
          \<and> pqueue wo' (out_output ob) =
            pqueue wo (out_output ob) @ [O2iConnect sid False ''repeated connection'']))"
proof (intro conjI impI)
  show "\<not> hm_contains (out_sessions ob) sid \<Longrightarrow>
      \<exists>wo'. outlet_input_internal L E (connect_request L ses sid a) (ob, wo) = (Ok (), (ob, wo'))
        \<and> pqueue wo' (out_output ob) = pqueue wo (out_output ob) @ [O2iConnect sid False e]"
    using outlet_connect_fails [OF assms(1) _ assms(2,3)] by blast
  show "\<exists>wi'. inlet_input_internal L ic ss (O2iConnect sid False e) wi = (Ok (), wi')
        \<and> wqueue wi' (writer_tx info) = wqueue wi (writer_tx info) @ [Close]"
    using assms(4-6) by (simp add: inlet_input_internal_def send_w_alive)
  show "hm_contains (out_sessions ob) sid \<Longrightarrow>
      \<exists>wo'. outlet_input_internal L E (connect_request L ses sid a) (ob, wo) = (Ok (), (ob, wo'))
        \<and> pqueue wo' (out_output ob) =
          pqueue wo (out_output ob) @ [O2iConnect sid False ''repeated connection'']"
    using assms(3)
    by (simp add: outlet_input_internal_def connect_request_def on_i2o_connect_def on_world_def send_p_alive)
qed

theorem failed_connect_closes_witness:
  "\<exists>wi'. inlet_input_internal demo_libs 1 demo_inlet_sessions (O2iConnect 7 False ''refused'') init_world =
      (Ok (), wi') \<and> wqueue wi' 5 = [Close]"
proof -
  let ?E = "demo_env\<lparr>tcp_connect_io := (\<lambda>_. Inl ''refused'')\<rparr>"
  let ?info = "\<lparr>proxy_message_tx = None, writer_tx = 5, common_info = demo_info\<rparr>"
  have "connect_fails ?E (inlet_proxy_type demo_inlet_session) (output_addr demo_inlet_session) ''refused''"
    "alive (pchans init_world (out_output demo_outlet))" "hm_get demo_inlet_sessions 7 = Some ?info"
    "proxy_message_tx ?info = None" "alive (wchans init_world (writer_tx ?info))"
    by (simp_all add: connect_fails_def demo_inlet_session_def demo_inlet_sessions_def)
  from failed_connect_closes [OF demo_libs_ok this, of any_addr 1] show ?thesis by simp
qed

section \<open>Disconnecting\<close>

text \<open>
  C34: When a session of an inlet closes it leaves the map and tells the outlet, which removes the
  session and closes the connection to the target; when a session of an outlet closes it leaves the
  map and tells the inlet, which closes the connection to the application.
\<close>

theorem disconnect_propagates:
  assumes "alive (pchans wi (sess_output ses))"
    and "hm_get (out_sessions ob) (sess_id ses) = Some oinfo" and "alive (wchans wo (sender_tx oinfo))"
    and "alive (pchans w2 (o_output oses))"
    and "hm_get ss2 (o_session_id oses) = Some iinfo" and "alive (wchans w3 (writer_tx iinfo))"
  shows "(\<exists>ses' wi'. inlet_on_session_close ((ses, ss), wi) = (Ok (), ((ses', hm_remove (sess_id ses) ss), wi'))
        \<and> pqueue wi' (sess_output ses) = pqueue wi (sess_output ses) @ [I2oDisconnect (sess_id ses)])
    \<and> (\<exists>wo'. outlet_input_internal L E (I2oDisconnect (sess_id ses)) (ob, wo) =
          (Ok (), (ob\<lparr>out_sessions := hm_remove (sess_id ses) (out_sessions ob)\<rparr>, wo'))
        \<and> wqueue wo' (sender_tx oinfo) = wqueue wo (sender_tx oinfo) @ [Close])
    \<and> (\<exists>w2'. outlet_on_session_close ((oses, os), w2) = (Ok (), ((oses, hm_remove (o_session_id oses) os), w2'))
        \<and> pqueue w2' (o_output oses) = pqueue w2 (o_output oses) @ [O2iDisconnect (o_session_id oses)])
    \<and> (\<exists>w3'. inlet_input_internal L ic ss2 (O2iDisconnect (o_session_id oses)) w3 = (Ok (), w3')
        \<and> wqueue w3' (writer_tx iinfo) = wqueue w3 (writer_tx iinfo) @ [Close])"
  using assms
  by (simp add: inlet_on_session_close_def on_world_def send_simps outlet_input_internal_def
      on_i2o_disconnect_def outlet_on_session_close_def inlet_input_internal_def Let_def)

theorem disconnect_propagates_witness:
  "\<exists>wo'. outlet_input_internal demo_libs demo_env (I2oDisconnect 7) (demo_outlet, init_world) =
      (Ok (), (demo_outlet\<lparr>out_sessions := []\<rparr>, wo')) \<and> wqueue wo' 3 = [Close]"
proof -
  let ?oinfo = "\<lparr>sender_tx = 3, out_common_info = demo_outlet_info\<rparr>"
  let ?iinfo = "\<lparr>proxy_message_tx = None, writer_tx = 5, common_info = demo_info\<rparr>"
  have "alive (pchans init_world (sess_output demo_inlet_session))"
    "hm_get (out_sessions demo_outlet) (sess_id demo_inlet_session) = Some ?oinfo"
    "alive (wchans init_world (sender_tx ?oinfo))" "alive (pchans init_world (o_output demo_outlet_session))"
    "hm_get demo_inlet_sessions (o_session_id demo_outlet_session) = Some ?iinfo"
    "alive (wchans init_world (writer_tx ?iinfo))"
    by (simp_all add: demo_tunnel_defs)
  from disconnect_propagates [OF this, of "[]" demo_libs demo_env "[]" 1]
  have "\<exists>wo'. outlet_input_internal demo_libs demo_env (I2oDisconnect (sess_id demo_inlet_session)) (demo_outlet, init_world) =
      (Ok (), (demo_outlet\<lparr>out_sessions := hm_remove (sess_id demo_inlet_session) (out_sessions demo_outlet)\<rparr>, wo'))
      \<and> wqueue wo' 3 = [Close]" by simp
  then show ?thesis by (simp add: demo_inlet_session_def demo_outlet_def)
qed

section \<open>Isolation of sessions\<close>

text \<open>
  C35: A message the inlet receives touches only the session it names: its writer channel, its SOCKS5
  channel and its counter. A message for a session that is not in the map changes nothing. Only two
  messages make the inlet panic: a datagram for a session that is not SOCKS5, and data for such a
  session that cannot be decoded.
\<close>

theorem inlet_sessions_isolated:
  fixes L ic ss m w
  defines "w' \<equiv> snd (inlet_input_internal L ic ss m w)"
  shows "(hm_get ss (msg_session m) = None \<longrightarrow> w' = w)
    \<and> (\<forall>info. hm_get ss (msg_session m) = Some info \<longrightarrow>
        (\<forall>c. c \<noteq> writer_tx info \<longrightarrow> wchans w' c = wchans w c) \<and>
        (\<forall>c. proxy_message_tx info \<noteq> Some c \<longrightarrow> pchans w' c = pchans w c) \<and>
        (\<forall>r. r \<noteq> read_buf_len (common_info info) \<longrightarrow> bufs w' r = bufs w r))
    \<and> (fst (inlet_input_internal L ic ss m w) = Panic \<longrightarrow>
        (\<exists>sid info d a. m = O2iRecvDataFrom sid d a \<and> hm_get ss sid = Some info \<and> proxy_message_tx info = None)
        \<or> (\<exists>sid info d. m = O2iRecvData sid d \<and> hm_get ss sid = Some info \<and>
            decode_data L (common_info info) d = Panic))"
  unfolding w'_def
  by (cases m)
    (auto simp: inlet_input_internal_def Let_def and_then_proj split: option.splits outcome.splits if_splits)

theorem inlet_sessions_isolated_witness:
  "snd (inlet_input_internal demo_libs 1 demo_inlet_sessions (O2iDisconnect 8) init_world) = init_world"
proof -
  have "hm_get demo_inlet_sessions (msg_session (O2iDisconnect 8)) = None"
    by (simp add: demo_inlet_sessions_def)
  with inlet_sessions_isolated [of demo_inlet_sessions "O2iDisconnect 8" demo_libs 1 init_world]
  show ?thesis by blast
qed

section \<open>Repeated answers\<close>

text \<open>
  An outlet answers a successful connect twice, once when the session starts and once when the
  request has been handled. A SOCKS5 session of a TCP connect replies to the application once: the
  first answer moves it to the running state, every further one is ignored.
\<close>

theorem repeated_connect_answers_ignored:
  assumes "status c = Connecting True" and "target_addr c = Some ta" and "alive (wchans w (write_msg_tx c))"
  shows "let s1 = (c\<lparr>status := RunWithTcp\<rparr>, snd (send_w (write_msg_tx c)
        (Send [SOCKS5_VERSION, 0, 0, 1, 0, 0, 0, 0, 0, 0] True) w)) in
    on_recv_proxy_message L E (O2iConnect sid True err) (c, w) = (Ok (), s1)
    \<and> on_recv_proxy_message L E (O2iConnect sid ok' err') s1 = (Ok (), s1)"
  using assms
  by (simp add: on_recv_proxy_message_def on_recv_o2i_connect_def send_w_ignore_def Let_def)

theorem repeated_connect_answers_ignored_witness:
  "\<exists>s1. on_recv_proxy_message demo_libs demo_udp (O2iConnect 7 True [])
      ((demo_socks5 demo_data_ex)\<lparr>status := Connecting True, target_addr := Some (Ip any_addr)\<rparr>, init_world) =
      (Ok (), s1)
    \<and> on_recv_proxy_message demo_libs demo_udp (O2iConnect 7 True []) s1 = (Ok (), s1)"
proof -
  let ?c = "(demo_socks5 demo_data_ex)\<lparr>status := Connecting True, target_addr := Some (Ip any_addr)\<rparr>"
  have "status ?c = Connecting True" "target_addr ?c = Some (Ip any_addr)"
    "alive (wchans init_world (write_msg_tx ?c))" by simp_all
  from repeated_connect_answers_ignored [OF this, of demo_libs demo_udp 7 "[]" True "[]"]
  show ?thesis unfolding Let_def by blast
qed

section \<open>Starting and stopping an inlet\<close>

text \<open>
  A running inlet refuses a second start. A started inlet whose task has ended can be stopped,
  which empties its map, and started again. After a start that could not bind its address the
  running flag stays set although there is no task that could clear it: every later start is refused
  and \<open>stop\<close> waits forever.
\<close>

theorem inlet_start_stop:
  assumes "\<not> inlet_running i"
  shows "(bind t a = Inr () \<longrightarrow>
      (\<exists>i' w'. inlet_start bind ir orf t a (i, w) = (Ok (), (i', w')) \<and> inlet_running i'
        \<and> inlet_start bind ir orf t a (i', w') = (Err ''Repeated start'', (i', w'))
        \<and> (\<exists>i''. inlet_stop (inlet_task_ended i') = (Ok (), i'') \<and> session_info_map i'' = []
            \<and> fst (inlet_start bind ir orf t a (i'', w')) = Ok ())))
    \<and> (bind t a = Inl e \<longrightarrow>
      (\<exists>i' w'. inlet_start bind ir orf t a (i, w) = (Err e, (i', w'))
        \<and> inlet_start bind' ir orf t' a' (i', w') = (Err ''Repeated start'', (i', w'))
        \<and> fst (inlet_stop i') = Pending \<and> inlet_running (snd (inlet_stop i'))))"
  using assms
  by (auto simp: inlet_start_def inlet_running_def inlet_stop_def inlet_task_ended_def io_result_def Let_def)

theorem inlet_start_stop_witness:
  "\<exists>i' w'. inlet_start (\<lambda>_ _. Inl ''in use'') 8 9 TCP ''0.0.0.0:80'' (inlet_new ''d'', init_world) =
      (Err ''in use'', (i', w'))
    \<and> inlet_start (\<lambda>_ _. Inr ()) 8 9 TCP ''0.0.0.0:81'' (i', w') = (Err ''Repeated start'', (i', w'))"
proof -
  have "\<not> inlet_running (inlet_new ''d'')" by (simp add: inlet_running_def inlet_new_def)
  from inlet_start_stop [OF this, of "\<lambda>_ _. Inl ''in use''" TCP "''0.0.0.0:80''" 8 9 init_world "''in use''"
      "\<lambda>_ _. Inr ()" TCP "''0.0.0.0:81''"]
  show ?thesis by auto
qed

end
