(* ===== verification/Reconcile.thy ===== *)
theory Reconcile
  imports Prelude
begin

text \<open>
  The pattern of \<open>sync_tunnels\<close>, which the client and the server each have for their outlets and for
  their inlets: objects whose tunnel is gone, disabled, moved or described differently are removed
  and stopped, then every wanted tunnel without an object gets one. The interface \<open>sync\<close> asks that a
  created object carries the description of its tunnel; shown inside it: what is there afterwards,
  and that an object whose tunnel has not changed is kept.
\<close>

text \<open>The collection of the keys to remove, and their removal one by one with a stop.\<close>

definition stale_keys :: "('t \<Rightarrow> bool) \<Rightarrow> ('t \<Rightarrow> u32) \<Rightarrow> ('t \<Rightarrow> string) \<Rightarrow> ('o \<Rightarrow> string) \<Rightarrow> 't list \<Rightarrow>
    (u32, 'o) hmap \<Rightarrow> u32 list" where
  "stale_keys wanted key descr odescr ts m =
     map fst (filter (\<lambda>(k, ob). \<not> list_ex (\<lambda>t. k = key t \<and> wanted t \<and> descr t = odescr ob) ts) m)"

fun remove_keys :: "('o \<Rightarrow> 's \<Rightarrow> 's) \<Rightarrow> u32 list \<Rightarrow> (u32, 'o) hmap \<times> 's \<Rightarrow> (u32, 'o) hmap \<times> 's" where
  "remove_keys stop [] ms = ms"
| "remove_keys stop (k # ks) (m, s) =
     (case hm_get m k of
        Some ob \<Rightarrow> remove_keys stop ks (hm_remove k m, stop ob s)
      | None \<Rightarrow> remove_keys stop ks (m, s))"

text \<open>The loop that adds; \<open>create\<close> may fail.\<close>

fun add_missing :: "('t \<Rightarrow> u32) \<Rightarrow> ('t \<Rightarrow> 's \<Rightarrow> 'o option \<times> 's) \<Rightarrow> 't list \<Rightarrow> (u32, 'o) hmap \<times> 's \<Rightarrow>
    (u32, 'o) hmap \<times> 's" where
  "add_missing key create [] ms = ms"
| "add_missing key create (t # ts) (m, s) =
     (if hm_contains m (key t) then add_missing key create ts (m, s)
      else
        (case create t s of
           (Some ob, s) \<Rightarrow> add_missing key create ts (hm_insert (key t) ob m, s)
         | (None, s) \<Rightarrow> add_missing key create ts (m, s)))"

text \<open>The whole synchronisation of one kind of object; the two halves may meet different stores.\<close>

definition synced :: "('t \<Rightarrow> bool) \<Rightarrow> ('t \<Rightarrow> u32) \<Rightarrow> ('t \<Rightarrow> string) \<Rightarrow> ('o \<Rightarrow> string) \<Rightarrow> ('t \<Rightarrow> 's \<Rightarrow> 'o option \<times> 's) \<Rightarrow>
    ('o \<Rightarrow> 's \<Rightarrow> 's) \<Rightarrow> 't list \<Rightarrow> (u32, 'o) hmap \<Rightarrow> 's \<Rightarrow> 's \<Rightarrow> (u32, 'o) hmap" where
  "synced wanted key descr odescr create stop ts m s s1 = fst (add_missing key create (filter wanted ts)
     (fst (remove_keys stop (stale_keys wanted key descr odescr ts m) (m, s)), s1))"

locale sync =
  fixes wanted :: "'t \<Rightarrow> bool"
    and key :: "'t \<Rightarrow> u32"
    and descr :: "'t \<Rightarrow> string"
    and odescr :: "'o \<Rightarrow> string"
    and create :: "'t \<Rightarrow> 's \<Rightarrow> 'o option \<times> 's"
  assumes create_descr: "create t s = (Some ob, s') \<Longrightarrow> odescr ob = descr t"
begin

lemma stale_iff:
  assumes "hm_wf m" and "hm_get m k = Some ob"
  shows "k \<in> set (stale_keys wanted key descr odescr ts m) \<longleftrightarrow>
    \<not> (\<exists>t \<in> set ts. k = key t \<and> wanted t \<and> descr t = odescr ob)"
proof -
  have "(k, ob') \<in> set m \<longleftrightarrow> ob' = ob" for ob'
    using assms by (metis hm_wf_def map_of_is_SomeI map_of_SomeD option.inject)
  then have "k \<in> set (stale_keys wanted key descr odescr ts m) \<longleftrightarrow>
      \<not> list_ex (\<lambda>t. k = key t \<and> wanted t \<and> descr t = odescr ob) ts"
    by (auto simp: stale_keys_def image_iff)
  then show ?thesis by (auto simp: list_ex_iff)
qed

lemma get_remove_keys:
  "hm_get (fst (remove_keys stop ks (m, s))) k = (if k \<in> set ks then None else hm_get m k)"
  by (induction ks arbitrary: m s) (auto split: option.splits)

lemma wf_remove_keys: "hm_wf m \<Longrightarrow> hm_wf (fst (remove_keys stop ks (m, s)))"
  by (induction ks arbitrary: m s) (auto simp: hm.wf_rem split: option.splits)

lemma get_remove_stale:
  assumes "hm_wf m"
  shows "hm_get (fst (remove_keys stop (stale_keys wanted key descr odescr ts m) (m, s))) k = Some ob \<longleftrightarrow>
    hm_get m k = Some ob \<and> (\<exists>t \<in> set ts. k = key t \<and> wanted t \<and> descr t = odescr ob)"
  using stale_iff [OF assms, of k] by (auto simp: get_remove_keys)

lemma add_missing_keeps:
  "hm_get m k = Some ob \<Longrightarrow> hm_get (fst (add_missing key create ts (m, s))) k = Some ob"
proof (induction ts arbitrary: m s)
  case (Cons t ts)
  show ?case
  proof (cases "hm_contains m (key t)")
    case False
    with Cons.prems have "k \<noteq> key t" by (auto simp: hm_contains_def)
    with Cons False show ?thesis by (simp split: prod.splits option.splits)
  qed (use Cons in simp)
qed simp

lemma add_missing_sound:
  "hm_get (fst (add_missing key create ts (m, s))) k = Some ob \<Longrightarrow>
   hm_get m k = Some ob \<or> (\<exists>t \<in> set ts. k = key t \<and> odescr ob = descr t)"
proof (induction ts arbitrary: m s)
  case (Cons t ts)
  show ?case
  proof (cases "hm_contains m (key t)")
    case True
    with Cons show ?thesis by auto
  next
    case False
    obtain r s' where c: "create t s = (r, s')" by fastforce
    with Cons False create_descr [of t s] show ?thesis
      by (cases r) (fastforce split: if_splits)+
  qed
qed simp

lemma add_missing_complete:
  "t \<in> set ts \<Longrightarrow> (\<And>s. fst (create t s) \<noteq> None) \<Longrightarrow> hm_contains (fst (add_missing key create ts (m, s))) (key t)"
proof (induction ts arbitrary: m s)
  case (Cons u ts)
  show ?case
  proof (cases "t = u")
    case True
    obtain r s' where c: "create u s = (r, s')" by fastforce
    with Cons.prems(2) True obtain ob where "r = Some ob" by (metis fst_conv not_None_eq)
    with c True show ?thesis
      using add_missing_keeps [of m "key u"] add_missing_keeps [of "hm_insert (key u) ob m" "key u" ob ts s']
      by (auto simp: hm_contains_def)
  next
    case False
    with Cons show ?thesis by (auto split: prod.splits option.splits)
  qed
qed simp

lemma wf_add_missing: "hm_wf m \<Longrightarrow> hm_wf (fst (add_missing key create ts (m, s)))"
  by (induction ts arbitrary: m s) (auto simp: hm.wf_ins split: prod.splits option.splits)

abbreviation after :: "('o \<Rightarrow> 's \<Rightarrow> 's) \<Rightarrow> 't list \<Rightarrow> (u32, 'o) hmap \<Rightarrow> 's \<Rightarrow> 's \<Rightarrow> (u32, 'o) hmap" where
  "after \<equiv> synced wanted key descr odescr create"

lemma after_wf: "hm_wf m \<Longrightarrow> hm_wf (after stop ts m s s1)"
  by (simp add: synced_def wf_add_missing wf_remove_keys)

lemma after_sound:
  assumes "hm_wf m" and "hm_get (after stop ts m s s1) k = Some ob"
  shows "\<exists>t \<in> set ts. k = key t \<and> wanted t \<and> descr t = odescr ob"
  using add_missing_sound [OF assms(2) [unfolded synced_def]]
proof
  assume "\<exists>t \<in> set (filter wanted ts). k = key t \<and> odescr ob = descr t"
  then show ?thesis by auto
qed (simp add: get_remove_stale [OF assms(1)])

lemma after_keeps:
  assumes "hm_wf m" and "hm_get m k = Some ob"
    and "t \<in> set ts" and "k = key t" and "wanted t" and "descr t = odescr ob"
  shows "hm_get (after stop ts m s s1) k = Some ob"
  unfolding synced_def
  by (rule add_missing_keeps) (use assms in \<open>auto simp: get_remove_stale [OF assms(1)]\<close>)

lemma add_missing_all:
  "(\<And>k ob. hm_get m k = Some ob \<Longrightarrow> Q k ob) \<Longrightarrow>
   (\<And>t s ob s'. t \<in> set ts \<Longrightarrow> create t s = (Some ob, s') \<Longrightarrow> Q (key t) ob) \<Longrightarrow>
   hm_get (fst (add_missing key create ts (m, s))) k = Some ob \<Longrightarrow> Q k ob"
proof (induction ts arbitrary: m s)
  case (Cons t ts)
  show ?case
  proof (cases "hm_contains m (key t)")
    case True
    with Cons show ?thesis by auto
  next
    case False
    obtain r s' where c: "create t s = (r, s')" by fastforce
    show ?thesis
    proof (cases r)
      case None
      with Cons False c show ?thesis by auto
    next
      case (Some a)
      show ?thesis
      proof (rule Cons.IH)
        show "hm_get (fst (add_missing key create ts (hm_insert (key t) a m, s'))) k = Some ob"
          using Cons.prems(3) False c Some by simp
        show "hm_get (hm_insert (key t) a m) k' = Some ob' \<Longrightarrow> Q k' ob'" for k' ob'
          using Cons.prems(1) Cons.prems(2) [of t s a s'] c Some by (auto split: if_splits)
      qed (use Cons.prems(2) in auto)
    qed
  qed
qed simp

lemma after_all:
  assumes "hm_wf m" and "\<And>k ob. hm_get m k = Some ob \<Longrightarrow> Q k ob"
    and "\<And>t s ob s'. create t s = (Some ob, s') \<Longrightarrow> Q (key t) ob"
    and "hm_get (after stop ts m s s1) k = Some ob"
  shows "Q k ob"
proof (rule add_missing_all [OF _ _ assms(4) [unfolded synced_def]])
  show "hm_get (fst (remove_keys stop (stale_keys wanted key descr odescr ts m) (m, s))) k' = Some ob' \<Longrightarrow>
      Q k' ob'" for k' ob'
    using assms(2) [of k' ob'] by (auto simp: get_remove_stale [OF assms(1)])
qed (rule assms(3))

lemma after_complete:
  "t \<in> set ts \<Longrightarrow> wanted t \<Longrightarrow> (\<And>s. fst (create t s) \<noteq> None) \<Longrightarrow>
   hm_contains (after stop ts m s s1) (key t)"
  unfolding synced_def by (rule add_missing_complete) simp_all

lemma after_gone:
  assumes "hm_wf m" and "\<And>t. t \<in> set ts \<Longrightarrow> wanted t \<Longrightarrow> key t \<noteq> k"
  shows "hm_get (after stop ts m s s1) k = None"
proof (cases "hm_get (after stop ts m s s1) k")
  case (Some ob)
  from after_sound [OF assms(1) this] assms(2) show ?thesis by blast
qed

lemma after_nothing:
  assumes "hm_wf m"
  shows "after stop [] m s s1 = []"
proof (cases "after stop [] m s s1")
  case (Cons p ps)
  with after_gone [OF assms, of "[]" "fst p" stop s s1] show ?thesis by (cases p) auto
qed

end

end
