(* ===== verification/Endpoints.thy ===== *)
theory Endpoints
  imports Outlet Reconcile
begin

text \<open>
  The outlets and inlets that a client or the server runs, and their synchronisation with the list of
  tunnels (\<open>sync_tunnels\<close> of np\_client/src/client.rs and of np\_server/src/global/manager/proxy.rs, which
  differ in the type of a tunnel and in the player they run for). An outlet or inlet is kept with
  what its closures captured when it was created: \<open>route\<close> for the output callback, \<open>inlet_config\<close> for the
  sessions that an inlet accepts. References of new channels and the answers to a bind are
  \<open>endpoint_env\<close>.
\<close>

record route =
  this_machine :: bool
  self_player_id :: u32
  peer_player_id :: u32
  route_tunnel :: u32

record inlet_config =
  cfg_type :: inlet_proxy_type
  cfg_listen_addr :: string
  cfg_output_addr :: string
  cfg_is_compressed :: bool
  cfg_encryption_method :: string
  cfg_data_ex :: inlet_data_ex

record running_outlet =
  ro_outlet :: outlet
  ro_route :: route

record running_inlet =
  ri_inlet :: inlet
  ri_output :: chan_ref
  ri_route :: route
  ri_config :: inlet_config

record endpoint_env =
  bind_io :: "inlet_proxy_type \<Rightarrow> string \<Rightarrow> string + unit"
  outlet_refs :: "u32 \<Rightarrow> chan_ref \<times> chan_ref"
  inlet_refs :: "u32 \<Rightarrow> chan_ref \<times> chan_ref"

abbreviation outlet_descr :: "running_outlet \<Rightarrow> string" where
  "outlet_descr ob \<equiv> out_description (ro_outlet ob)"

abbreviation inlet_descr :: "running_inlet \<Rightarrow> string" where
  "inlet_descr i \<equiv> description (ri_inlet i)"

definition close_pchan :: "chan_ref \<Rightarrow> world \<Rightarrow> world" where
  "close_pchan c w = w\<lparr>pchans := (pchans w)(c := (pchans w c)\<lparr>alive := False\<rparr>)\<rparr>"

text \<open>
  A stopped outlet or inlet has ended its task, which owned the receivers of its two channels. The
  waiting of \<open>stop\<close> itself is in \<open>outlet_stop\<close> and \<open>inlet_stop\<close>.
\<close>

definition stop_outlet :: "running_outlet \<Rightarrow> world \<Rightarrow> world" where
  "stop_outlet ob w = close_pchan (out_output (ro_outlet ob)) (close_pchan (out_input (ro_outlet ob)) w)"

definition stop_inlet :: "running_inlet \<Rightarrow> world \<Rightarrow> world" where
  "stop_inlet i w =
     close_pchan (ri_output i) (case input_tx (ri_inlet i) of Some c \<Rightarrow> close_pchan c w | None \<Rightarrow> w)"

definition start_outlet ::
  "'e endpoint_env_scheme \<Rightarrow> u32 \<Rightarrow> string \<Rightarrow> route \<Rightarrow> world \<Rightarrow> running_outlet option \<times> world" where
  "start_outlet E tun descr rt w =
     (case outlet_refs E tun of
        (ir, orf) \<Rightarrow>
          (case outlet_new descr ir orf w of
             (ob, w) \<Rightarrow> (Some \<lparr>ro_outlet = ob, ro_route = rt\<rparr>, w)))"

definition start_inlet ::
  "'e endpoint_env_scheme \<Rightarrow> u32 \<Rightarrow> string \<Rightarrow> route \<Rightarrow> inlet_config \<Rightarrow> world \<Rightarrow> running_inlet option \<times> world" where
  "start_inlet E tun descr rt cfg w =
     (case inlet_refs E tun of
        (ir, orf) \<Rightarrow>
          (case inlet_start (bind_io E) ir orf (cfg_type cfg) (cfg_listen_addr cfg) (inlet_new descr, w) of
             (Ok _, (i, w)) \<Rightarrow> (Some \<lparr>ri_inlet = i, ri_output = orf, ri_route = rt, ri_config = cfg\<rparr>, w)
           | (_, (i, w)) \<Rightarrow> (None, w)))"

definition sync_endpoints ::
  "('t \<Rightarrow> u32) \<Rightarrow> ('t \<Rightarrow> bool) \<Rightarrow> ('t \<Rightarrow> string) \<Rightarrow> ('t \<Rightarrow> world \<Rightarrow> running_outlet option \<times> world) \<Rightarrow>
   ('t \<Rightarrow> bool) \<Rightarrow> ('t \<Rightarrow> string) \<Rightarrow> ('t \<Rightarrow> world \<Rightarrow> running_inlet option \<times> world) \<Rightarrow>
   't list \<Rightarrow> (u32, running_outlet) hmap \<Rightarrow> (u32, running_inlet) hmap \<Rightarrow> world \<Rightarrow>
   (u32, running_outlet) hmap \<times> (u32, running_inlet) hmap \<times> world" where
  "sync_endpoints key wants_o o_descr create_o wants_i i_descr create_i ts os is w =
     (let (os, w) = remove_keys stop_outlet (stale_keys wants_o key o_descr outlet_descr ts os) (os, w);
          (is, w) = remove_keys stop_inlet (stale_keys wants_i key i_descr inlet_descr ts is) (is, w);
          (os, w) = add_missing key create_o (filter wants_o ts) (os, w);
          (is, w) = add_missing key create_i (filter wants_i ts) (is, w)
      in (os, is, w))"

lemma sync_endpoints_eq:
  "\<exists>s1 s2 s3 s4 w'. sync_endpoints key wants_o o_descr create_o wants_i i_descr create_i ts os is w =
     (synced wants_o key o_descr outlet_descr create_o stop_outlet ts os s1 s2,
      synced wants_i key i_descr inlet_descr create_i stop_inlet ts is s3 s4, w')"
  unfolding sync_endpoints_def synced_def Let_def fst_conv snd_conv case_prod_beta
  by (intro exI) (rule refl)

lemma start_outlet_Some:
  "start_outlet E tun descr rt w = (Some ob, w') \<Longrightarrow> outlet_descr ob = descr \<and> ro_route ob = rt"
  by (auto simp: start_outlet_def outlet_new_def split: prod.splits)

lemma start_outlet_total: "fst (start_outlet E tun descr rt w) \<noteq> None"
  by (simp add: start_outlet_def split: prod.splits)

lemma start_inlet_Some:
  "start_inlet E tun descr rt cfg w = (Some i, w') \<Longrightarrow>
     inlet_descr i = descr \<and> ri_route i = rt \<and> ri_config i = cfg"
  by (auto simp: start_inlet_def inlet_start_def inlet_new_def inlet_running_def io_result_def Let_def
      split: prod.splits sum.splits if_splits)

lemma start_inlet_total:
  "bind_io E (cfg_type cfg) (cfg_listen_addr cfg) = Inr () \<Longrightarrow> fst (start_inlet E tun descr rt cfg w) \<noteq> None"
  by (simp add: start_inlet_def inlet_start_def inlet_new_def inlet_running_def io_result_def Let_def
      split: prod.splits)

end
