(* ===== verification/Messages.thy ===== *)
theory Messages
  imports Prelude
begin

text \<open>
  np\_proto/src: the protobuf messages (class\_def.rs, client\_server.rs, server\_client.rs,
  generic.rs), the message type and its numbering (message\_map.rs). The encoding of a struct is
  derived by the package \<open>prost\<close>: it is the parameter \<open>prost\<close>, with the promise of that package for
  one message as \<open>prost_ok\<close>. Field \<open>id\<close> of \<open>Tunnel\<close> is \<open>tid\<close>, field \<open>tunnel\<close> of \<open>ModifyTunnelNtf\<close> is
  \<open>tunnel_opt\<close>. Shown: the numbering identifies the kind of a message, decoding undoes encoding, and
  the announced size is the encoded size.
\<close>

section \<open>Structures\<close>

record tunnel_point =
  addr :: string

record tunnel =
  source :: "tunnel_point option"
  endpoint :: "tunnel_point option"
  tid :: u32
  enabled :: bool
  sender :: u32
  receiver :: u32
  tunnel_type :: i32
  password :: string
  username :: string
  is_compressed :: bool
  encryption_method :: string
  custom_mapping :: "(string, string) hmap"

record login_req =
  version :: string
  username :: string
  password :: string

record register_req =
  username :: string
  password :: string

record management_login_req =
  username :: string
  password :: string

record login_ack =
  player_id :: u32
  tunnel_list :: "tunnel list"

record management_login_ack =
  code :: i32

record modify_tunnel_ntf =
  is_delete :: bool
  tunnel_opt :: "tunnel option"

datatype success = Success

record fail =
  number :: i32
  message :: string

record error =
  number :: i32
  message :: string

record ping =
  ticks :: i64

record pong =
  ticks :: i64

record i2o_connect =
  tunnel_id :: u32
  session_id :: u32
  tunnel_type :: u32
  is_tcp :: bool
  is_compressed :: bool
  addr :: string
  encryption_method :: string
  encryption_key :: string
  client_addr :: string

record o2i_connect =
  tunnel_id :: u32
  session_id :: u32
  success :: bool
  error_info :: string

record i2o_send_data =
  tunnel_id :: u32
  session_id :: u32
  data :: bytes

record o2i_recv_data =
  tunnel_id :: u32
  session_id :: u32
  data :: bytes

record i2o_disconnect =
  tunnel_id :: u32
  session_id :: u32

record o2i_disconnect =
  tunnel_id :: u32
  session_id :: u32

record o2i_send_data_result =
  tunnel_id :: u32
  session_id :: u32
  data_len :: u32

record i2o_recv_data_result =
  tunnel_id :: u32
  session_id :: u32
  data_len :: u32

record i2o_send_to_data =
  tunnel_id :: u32
  session_id :: u32
  data :: bytes
  target_addr :: string

record o2i_recv_data_from =
  tunnel_id :: u32
  session_id :: u32
  data :: bytes
  remote_addr :: string

datatype error_code = ErrorNone | InternalError | InterfaceAbsent | PlayerNotLogin

fun error_code_to_i32 :: "error_code \<Rightarrow> i32" where
  "error_code_to_i32 ErrorNone = 0"
| "error_code_to_i32 InternalError = - 1000"
| "error_code_to_i32 InterfaceAbsent = - 1001"
| "error_code_to_i32 PlayerNotLogin = - 1002"

fun as_str_name :: "error_code \<Rightarrow> string" where
  "as_str_name ErrorNone = ''None''"
| "as_str_name InternalError = ''InternalError''"
| "as_str_name InterfaceAbsent = ''InterfaceAbsent''"
| "as_str_name PlayerNotLogin = ''PlayerNotLogin''"

definition from_str_name :: "string \<Rightarrow> error_code option" where
  "from_str_name value =
     (if value = ''None'' then Some ErrorNone
      else if value = ''InternalError'' then Some InternalError
      else if value = ''InterfaceAbsent'' then Some InterfaceAbsent
      else if value = ''PlayerNotLogin'' then Some PlayerNotLogin else None)"

datatype tunnel_type_enum = Tcp | Udp | Socks5 | Unknown

fun tunnel_type_to_i32 :: "tunnel_type_enum \<Rightarrow> i32" where
  "tunnel_type_to_i32 Tcp = 0"
| "tunnel_type_to_i32 Udp = 1"
| "tunnel_type_to_i32 Socks5 = 2"
| "tunnel_type_to_i32 Unknown = 3"

fun tunnel_type_as_str_name :: "tunnel_type_enum \<Rightarrow> string" where
  "tunnel_type_as_str_name Tcp = ''TCP''"
| "tunnel_type_as_str_name Udp = ''UDP''"
| "tunnel_type_as_str_name Socks5 = ''SOCKS5''"
| "tunnel_type_as_str_name Unknown = ''UNKNOWN''"

definition tunnel_type_from_str_name :: "string \<Rightarrow> tunnel_type_enum option" where
  "tunnel_type_from_str_name value =
     (if value = ''TCP'' then Some Tcp else if value = ''UDP'' then Some Udp
      else if value = ''SOCKS5'' then Some Socks5
      else if value = ''UNKNOWN'' then Some Unknown else None)"

datatype message_type =
    NoMessage
  | ClientServerLoginReq login_req
  | ClientServerRegisterReq register_req
  | ClientServerManagementLoginReq management_login_req
  | ServerClientLoginAck login_ack
  | ServerClientManagementLoginAck management_login_ack
  | ServerClientModifyTunnelNtf modify_tunnel_ntf
  | GenericSuccess success
  | GenericFail fail
  | GenericError error
  | GenericPing ping
  | GenericPong pong
  | GenericI2oConnect i2o_connect
  | GenericO2iConnect o2i_connect
  | GenericI2oSendData i2o_send_data
  | GenericO2iRecvData o2i_recv_data
  | GenericI2oDisconnect i2o_disconnect
  | GenericO2iDisconnect o2i_disconnect
  | GenericO2iSendDataResult o2i_send_data_result
  | GenericI2oRecvDataResult i2o_recv_data_result
  | GenericI2oSendToData i2o_send_to_data
  | GenericO2iRecvDataFrom o2i_recv_data_from

fun message_is_none :: "message_type \<Rightarrow> bool" where
  "message_is_none NoMessage = True"
| "message_is_none _ = False"

section \<open>The derived encodings\<close>

record 'm pb =
  encode_raw :: "'m \<Rightarrow> bytes"
  encoded_len :: "'m \<Rightarrow> nat"
  decode :: "bytes \<Rightarrow> string + 'm"

definition pb_ok :: "'m pb \<Rightarrow> 'm \<Rightarrow> bool" where
  "pb_ok c m \<longleftrightarrow> decode c (encode_raw c m) = Inr m \<and> encoded_len c m = length (encode_raw c m)"

record prost =
  login_req_pb :: "login_req pb"
  register_req_pb :: "register_req pb"
  management_login_req_pb :: "management_login_req pb"
  login_ack_pb :: "login_ack pb"
  management_login_ack_pb :: "management_login_ack pb"
  modify_tunnel_ntf_pb :: "modify_tunnel_ntf pb"
  success_pb :: "success pb"
  fail_pb :: "fail pb"
  error_pb :: "error pb"
  ping_pb :: "ping pb"
  pong_pb :: "pong pb"
  i2o_connect_pb :: "i2o_connect pb"
  o2i_connect_pb :: "o2i_connect pb"
  i2o_send_data_pb :: "i2o_send_data pb"
  o2i_recv_data_pb :: "o2i_recv_data pb"
  i2o_disconnect_pb :: "i2o_disconnect pb"
  o2i_disconnect_pb :: "o2i_disconnect pb"
  o2i_send_data_result_pb :: "o2i_send_data_result pb"
  i2o_recv_data_result_pb :: "i2o_recv_data_result pb"
  i2o_send_to_data_pb :: "i2o_send_to_data pb"
  o2i_recv_data_from_pb :: "o2i_recv_data_from pb"

text \<open>
  What \<open>prost\<close> promises for one message: decoding the encoded bytes gives the message, and
  \<open>encoded_len\<close> is their number.
\<close>

fun prost_ok :: "prost \<Rightarrow> message_type \<Rightarrow> bool" where
  "prost_ok P NoMessage = True"
| "prost_ok P (ClientServerLoginReq m) = pb_ok (login_req_pb P) m"
| "prost_ok P (ClientServerRegisterReq m) = pb_ok (register_req_pb P) m"
| "prost_ok P (ClientServerManagementLoginReq m) = pb_ok (management_login_req_pb P) m"
| "prost_ok P (ServerClientLoginAck m) = pb_ok (login_ack_pb P) m"
| "prost_ok P (ServerClientManagementLoginAck m) = pb_ok (management_login_ack_pb P) m"
| "prost_ok P (ServerClientModifyTunnelNtf m) = pb_ok (modify_tunnel_ntf_pb P) m"
| "prost_ok P (GenericSuccess m) = pb_ok (success_pb P) m"
| "prost_ok P (GenericFail m) = pb_ok (fail_pb P) m"
| "prost_ok P (GenericError m) = pb_ok (error_pb P) m"
| "prost_ok P (GenericPing m) = pb_ok (ping_pb P) m"
| "prost_ok P (GenericPong m) = pb_ok (pong_pb P) m"
| "prost_ok P (GenericI2oConnect m) = pb_ok (i2o_connect_pb P) m"
| "prost_ok P (GenericO2iConnect m) = pb_ok (o2i_connect_pb P) m"
| "prost_ok P (GenericI2oSendData m) = pb_ok (i2o_send_data_pb P) m"
| "prost_ok P (GenericO2iRecvData m) = pb_ok (o2i_recv_data_pb P) m"
| "prost_ok P (GenericI2oDisconnect m) = pb_ok (i2o_disconnect_pb P) m"
| "prost_ok P (GenericO2iDisconnect m) = pb_ok (o2i_disconnect_pb P) m"
| "prost_ok P (GenericO2iSendDataResult m) = pb_ok (o2i_send_data_result_pb P) m"
| "prost_ok P (GenericI2oRecvDataResult m) = pb_ok (i2o_recv_data_result_pb P) m"
| "prost_ok P (GenericI2oSendToData m) = pb_ok (i2o_send_to_data_pb P) m"
| "prost_ok P (GenericO2iRecvDataFrom m) = pb_ok (o2i_recv_data_from_pb P) m"

section \<open>Numbering, encoding and decoding\<close>

fun get_message_id :: "message_type \<Rightarrow> u32 option" where
  "get_message_id (ClientServerLoginReq _) = Some 1001"
| "get_message_id (ClientServerRegisterReq _) = Some 1003"
| "get_message_id (ClientServerManagementLoginReq _) = Some 1005"
| "get_message_id (ServerClientLoginAck _) = Some 1002"
| "get_message_id (ServerClientManagementLoginAck _) = Some 1006"
| "get_message_id (ServerClientModifyTunnelNtf _) = Some 1008"
| "get_message_id (GenericSuccess _) = Some 150001"
| "get_message_id (GenericFail _) = Some 150002"
| "get_message_id (GenericError _) = Some 150003"
| "get_message_id (GenericPing _) = Some 150004"
| "get_message_id (GenericPong _) = Some 150005"
| "get_message_id (GenericI2oConnect _) = Some 150006"
| "get_message_id (GenericO2iConnect _) = Some 150007"
| "get_message_id (GenericI2oSendData _) = Some 150008"
| "get_message_id (GenericO2iRecvData _) = Some 150009"
| "get_message_id (GenericI2oDisconnect _) = Some 150010"
| "get_message_id (GenericO2iDisconnect _) = Some 150011"
| "get_message_id (GenericO2iSendDataResult _) = Some 150012"
| "get_message_id (GenericI2oRecvDataResult _) = Some 150013"
| "get_message_id (GenericI2oSendToData _) = Some 150014"
| "get_message_id (GenericO2iRecvDataFrom _) = Some 150015"
| "get_message_id _ = None"

definition decoded :: "('m \<Rightarrow> message_type) \<Rightarrow> string + 'm \<Rightarrow> message_type outcome" where
  "decoded con r = (case r of Inr m \<Rightarrow> Ok (con m) | Inl err \<Rightarrow> Err err)"

definition decode_message :: "prost \<Rightarrow> u32 \<Rightarrow> bytes \<Rightarrow> message_type outcome" where
  "decode_message P message_id bs =
     (if message_id = 1001 then decoded ClientServerLoginReq (decode (login_req_pb P) bs)
      else if message_id = 1003 then decoded ClientServerRegisterReq (decode (register_req_pb P) bs)
      else if message_id = 1005 then decoded ClientServerManagementLoginReq (decode (management_login_req_pb P) bs)
      else if message_id = 1002 then decoded ServerClientLoginAck (decode (login_ack_pb P) bs)
      else if message_id = 1006 then decoded ServerClientManagementLoginAck (decode (management_login_ack_pb P) bs)
      else if message_id = 1008 then decoded ServerClientModifyTunnelNtf (decode (modify_tunnel_ntf_pb P) bs)
      else if message_id = 150001 then decoded GenericSuccess (decode (success_pb P) bs)
      else if message_id = 150002 then decoded GenericFail (decode (fail_pb P) bs)
      else if message_id = 150003 then decoded GenericError (decode (error_pb P) bs)
      else if message_id = 150004 then decoded GenericPing (decode (ping_pb P) bs)
      else if message_id = 150005 then decoded GenericPong (decode (pong_pb P) bs)
      else if message_id = 150006 then decoded GenericI2oConnect (decode (i2o_connect_pb P) bs)
      else if message_id = 150007 then decoded GenericO2iConnect (decode (o2i_connect_pb P) bs)
      else if message_id = 150008 then decoded GenericI2oSendData (decode (i2o_send_data_pb P) bs)
      else if message_id = 150009 then decoded GenericO2iRecvData (decode (o2i_recv_data_pb P) bs)
      else if message_id = 150010 then decoded GenericI2oDisconnect (decode (i2o_disconnect_pb P) bs)
      else if message_id = 150011 then decoded GenericO2iDisconnect (decode (o2i_disconnect_pb P) bs)
      else if message_id = 150012 then decoded GenericO2iSendDataResult (decode (o2i_send_data_result_pb P) bs)
      else if message_id = 150013 then decoded GenericI2oRecvDataResult (decode (i2o_recv_data_result_pb P) bs)
      else if message_id = 150014 then decoded GenericI2oSendToData (decode (i2o_send_to_data_pb P) bs)
      else if message_id = 150015 then decoded GenericO2iRecvDataFrom (decode (o2i_recv_data_from_pb P) bs)
      else Err ''failed to decode Protobuf message: unknown message id'')"

fun encode_message :: "prost \<Rightarrow> message_type \<Rightarrow> (u32 \<times> bytes) option" where
  "encode_message P (ClientServerLoginReq msg) = Some (1001, encode_raw (login_req_pb P) msg)"
| "encode_message P (ClientServerRegisterReq msg) = Some (1003, encode_raw (register_req_pb P) msg)"
| "encode_message P (ClientServerManagementLoginReq msg) = Some (1005, encode_raw (management_login_req_pb P) msg)"
| "encode_message P (ServerClientLoginAck msg) = Some (1002, encode_raw (login_ack_pb P) msg)"
| "encode_message P (ServerClientManagementLoginAck msg) = Some (1006, encode_raw (management_login_ack_pb P) msg)"
| "encode_message P (ServerClientModifyTunnelNtf msg) = Some (1008, encode_raw (modify_tunnel_ntf_pb P) msg)"
| "encode_message P (GenericSuccess msg) = Some (150001, encode_raw (success_pb P) msg)"
| "encode_message P (GenericFail msg) = Some (150002, encode_raw (fail_pb P) msg)"
| "encode_message P (GenericError msg) = Some (150003, encode_raw (error_pb P) msg)"
| "encode_message P (GenericPing msg) = Some (150004, encode_raw (ping_pb P) msg)"
| "encode_message P (GenericPong msg) = Some (150005, encode_raw (pong_pb P) msg)"
| "encode_message P (GenericI2oConnect msg) = Some (150006, encode_raw (i2o_connect_pb P) msg)"
| "encode_message P (GenericO2iConnect msg) = Some (150007, encode_raw (o2i_connect_pb P) msg)"
| "encode_message P (GenericI2oSendData msg) = Some (150008, encode_raw (i2o_send_data_pb P) msg)"
| "encode_message P (GenericO2iRecvData msg) = Some (150009, encode_raw (o2i_recv_data_pb P) msg)"
| "encode_message P (GenericI2oDisconnect msg) = Some (150010, encode_raw (i2o_disconnect_pb P) msg)"
| "encode_message P (GenericO2iDisconnect msg) = Some (150011, encode_raw (o2i_disconnect_pb P) msg)"
| "encode_message P (GenericO2iSendDataResult msg) = Some (150012, encode_raw (o2i_send_data_result_pb P) msg)"
| "encode_message P (GenericI2oRecvDataResult msg) = Some (150013, encode_raw (i2o_recv_data_result_pb P) msg)"
| "encode_message P (GenericI2oSendToData msg) = Some (150014, encode_raw (i2o_send_to_data_pb P) msg)"
| "encode_message P (GenericO2iRecvDataFrom msg) = Some (150015, encode_raw (o2i_recv_data_from_pb P) msg)"
| "encode_message P _ = None"

fun get_message_size :: "prost \<Rightarrow> message_type \<Rightarrow> nat" where
  "get_message_size P (ClientServerLoginReq msg) = encoded_len (login_req_pb P) msg"
| "get_message_size P (ClientServerRegisterReq msg) = encoded_len (register_req_pb P) msg"
| "get_message_size P (ClientServerManagementLoginReq msg) = encoded_len (management_login_req_pb P) msg"
| "get_message_size P (ServerClientLoginAck msg) = encoded_len (login_ack_pb P) msg"
| "get_message_size P (ServerClientManagementLoginAck msg) = encoded_len (management_login_ack_pb P) msg"
| "get_message_size P (ServerClientModifyTunnelNtf msg) = encoded_len (modify_tunnel_ntf_pb P) msg"
| "get_message_size P (GenericSuccess msg) = encoded_len (success_pb P) msg"
| "get_message_size P (GenericFail msg) = encoded_len (fail_pb P) msg"
| "get_message_size P (GenericError msg) = encoded_len (error_pb P) msg"
| "get_message_size P (GenericPing msg) = encoded_len (ping_pb P) msg"
| "get_message_size P (GenericPong msg) = encoded_len (pong_pb P) msg"
| "get_message_size P (GenericI2oConnect msg) = encoded_len (i2o_connect_pb P) msg"
| "get_message_size P (GenericO2iConnect msg) = encoded_len (o2i_connect_pb P) msg"
| "get_message_size P (GenericI2oSendData msg) = encoded_len (i2o_send_data_pb P) msg"
| "get_message_size P (GenericO2iRecvData msg) = encoded_len (o2i_recv_data_pb P) msg"
| "get_message_size P (GenericI2oDisconnect msg) = encoded_len (i2o_disconnect_pb P) msg"
| "get_message_size P (GenericO2iDisconnect msg) = encoded_len (o2i_disconnect_pb P) msg"
| "get_message_size P (GenericO2iSendDataResult msg) = encoded_len (o2i_send_data_result_pb P) msg"
| "get_message_size P (GenericI2oRecvDataResult msg) = encoded_len (i2o_recv_data_result_pb P) msg"
| "get_message_size P (GenericI2oSendToData msg) = encoded_len (i2o_send_to_data_pb P) msg"
| "get_message_size P (GenericO2iRecvDataFrom msg) = encoded_len (o2i_recv_data_from_pb P) msg"
| "get_message_size P _ = 0"

fun encode_raw_message :: "prost \<Rightarrow> message_type \<Rightarrow> bytes" where
  "encode_raw_message P (ClientServerLoginReq msg) = encode_raw (login_req_pb P) msg"
| "encode_raw_message P (ClientServerRegisterReq msg) = encode_raw (register_req_pb P) msg"
| "encode_raw_message P (ClientServerManagementLoginReq msg) = encode_raw (management_login_req_pb P) msg"
| "encode_raw_message P (ServerClientLoginAck msg) = encode_raw (login_ack_pb P) msg"
| "encode_raw_message P (ServerClientManagementLoginAck msg) = encode_raw (management_login_ack_pb P) msg"
| "encode_raw_message P (ServerClientModifyTunnelNtf msg) = encode_raw (modify_tunnel_ntf_pb P) msg"
| "encode_raw_message P (GenericSuccess msg) = encode_raw (success_pb P) msg"
| "encode_raw_message P (GenericFail msg) = encode_raw (fail_pb P) msg"
| "encode_raw_message P (GenericError msg) = encode_raw (error_pb P) msg"
| "encode_raw_message P (GenericPing msg) = encode_raw (ping_pb P) msg"
| "encode_raw_message P (GenericPong msg) = encode_raw (pong_pb P) msg"
| "encode_raw_message P (GenericI2oConnect msg) = encode_raw (i2o_connect_pb P) msg"
| "encode_raw_message P (GenericO2iConnect msg) = encode_raw (o2i_connect_pb P) msg"
| "encode_raw_message P (GenericI2oSendData msg) = encode_raw (i2o_send_data_pb P) msg"
| "encode_raw_message P (GenericO2iRecvData msg) = encode_raw (o2i_recv_data_pb P) msg"
| "encode_raw_message P (GenericI2oDisconnect msg) = encode_raw (i2o_disconnect_pb P) msg"
| "encode_raw_message P (GenericO2iDisconnect msg) = encode_raw (o2i_disconnect_pb P) msg"
| "encode_raw_message P (GenericO2iSendDataResult msg) = encode_raw (o2i_send_data_result_pb P) msg"
| "encode_raw_message P (GenericI2oRecvDataResult msg) = encode_raw (i2o_recv_data_result_pb P) msg"
| "encode_raw_message P (GenericI2oSendToData msg) = encode_raw (i2o_send_to_data_pb P) msg"
| "encode_raw_message P (GenericO2iRecvDataFrom msg) = encode_raw (o2i_recv_data_from_pb P) msg"
| "encode_raw_message P _ = []"

section \<open>Properties\<close>

lemma message_id_None_iff: "get_message_id m = None \<longleftrightarrow> m = NoMessage"
  by (cases m) simp_all

lemma encode_message_eq:
  "encode_message P m = map_option (\<lambda>i. (i, encode_raw_message P m)) (get_message_id m)"
  by (cases m) simp_all

lemma get_message_size_ok: "prost_ok P m \<Longrightarrow> get_message_size P m = length (encode_raw_message P m)"
  by (cases m) (simp_all add: pb_ok_def)

lemma decode_encode_raw:
  "get_message_id m = Some i \<Longrightarrow> prost_ok P m \<Longrightarrow> decode_message P i (encode_raw_message P m) = Ok m"
  by (cases m) (auto simp: decode_message_def pb_ok_def decoded_def)

definition message_ids :: "u32 list" where
  "message_ids = [1001, 1003, 1005, 1002, 1006, 1008, 150001, 150002, 150003, 150004, 150005, 150006,
     150007, 150008, 150009, 150010, 150011, 150012, 150013, 150014, 150015]"

lemma decoded_Ok_iff: "decoded con r = Ok m \<longleftrightarrow> (\<exists>x. r = Inr x \<and> m = con x)"
  by (auto simp: decoded_def split: sum.splits)

lemma decode_message_id: "decode_message P i bs = Ok m \<Longrightarrow> get_message_id m = Some i"
  by (auto simp: decode_message_def decoded_Ok_iff split: if_splits)

lemma decoded_total [simp]: "decoded con r \<noteq> Panic" "decoded con r \<noteq> Pending"
  by (simp_all add: decoded_def split: sum.splits)

lemma decode_message_total: "decode_message P i bs \<noteq> Panic" "decode_message P i bs \<noteq> Pending"
  by (simp_all add: decode_message_def)

lemma decode_message_unknown:
  "i \<notin> set message_ids \<Longrightarrow>
   decode_message P i bs = Err ''failed to decode Protobuf message: unknown message id''"
  by (simp add: decode_message_def message_ids_def)

text \<open>
  A message that has a number is decoded from its number and its encoded bytes to itself; a
  decoded message always has the number it was decoded under, so no bytes are read as a message of
  another kind; and bytes under a number that is not in the list are an error, never a panic.
\<close>

theorem message_map_round_trip:
  assumes "prost_ok P m"
  shows "(\<forall>i bs. encode_message P m = Some (i, bs) \<longrightarrow>
        decode_message P i bs = Ok m \<and> length bs = get_message_size P m)
    \<and> (\<forall>i bs m'. decode_message P i bs = Ok m' \<longrightarrow> get_message_id m' = Some i)
    \<and> (\<forall>i bs. i \<notin> set message_ids \<longrightarrow> (\<exists>e. decode_message P i bs = Err e))"
proof (intro conjI allI impI)
  fix i bs
  assume "encode_message P m = Some (i, bs)"
  then show "decode_message P i bs = Ok m" and "length bs = get_message_size P m"
    using assms by (auto simp: encode_message_eq decode_encode_raw get_message_size_ok)
next
  fix i bs m'
  show "decode_message P i bs = Ok m' \<Longrightarrow> get_message_id m' = Some i" by (rule decode_message_id)
next
  fix i bs
  assume "i \<notin> set message_ids"
  then show "\<exists>e. decode_message P i bs = Err e"
    using decode_message_unknown by blast
qed

text \<open>
  A concrete encoding for the numbered messages used in examples: single-byte integers, data to
  the end.
\<close>

definition no_pb :: "'m pb" where
  "no_pb = \<lparr>encode_raw = (\<lambda>_. []), encoded_len = (\<lambda>_. 0), decode = (\<lambda>_. Inl ''invalid'')\<rparr>"

definition demo_ping_pb :: "ping pb" where
  "demo_ping_pb = \<lparr>encode_raw = (\<lambda>m. [ucast (ping.ticks m)]), encoded_len = (\<lambda>_. 1),
     decode = (\<lambda>bs. case bs of [b] \<Rightarrow> Inr (ping.make (ucast b)) | _ \<Rightarrow> Inl ''invalid'')\<rparr>"

definition demo_send_data_pb :: "i2o_send_data pb" where
  "demo_send_data_pb =
     \<lparr>encode_raw = (\<lambda>m. ucast (i2o_send_data.tunnel_id m) # ucast (i2o_send_data.session_id m) #
        i2o_send_data.data m),
      encoded_len = (\<lambda>m. 2 + length (i2o_send_data.data m)),
      decode = (\<lambda>bs. case bs of t # s # d \<Rightarrow> Inr (i2o_send_data.make (ucast t) (ucast s) d)
                     | _ \<Rightarrow> Inl ''invalid'')\<rparr>"

definition demo_prost :: prost where
  "demo_prost =
     \<lparr>login_req_pb = no_pb, register_req_pb = no_pb, management_login_req_pb = no_pb,
      login_ack_pb = no_pb, management_login_ack_pb = no_pb, modify_tunnel_ntf_pb = no_pb,
      success_pb = no_pb, fail_pb = no_pb, error_pb = no_pb,
      ping_pb = demo_ping_pb, pong_pb = no_pb, i2o_connect_pb = no_pb,
      o2i_connect_pb = no_pb, i2o_send_data_pb = demo_send_data_pb, o2i_recv_data_pb = no_pb,
      i2o_disconnect_pb = no_pb, o2i_disconnect_pb = no_pb, o2i_send_data_result_pb = no_pb,
      i2o_recv_data_result_pb = no_pb, i2o_send_to_data_pb = no_pb, o2i_recv_data_from_pb = no_pb\<rparr>"

theorem message_map_round_trip_witness:
  "decode_message demo_prost 150004 [7] = Ok (GenericPing (ping.make 7))"
proof -
  have "prost_ok demo_prost (GenericPing (ping.make 7))"
    by (simp add: demo_prost_def pb_ok_def demo_ping_pb_def ping.defs)
  moreover have "encode_message demo_prost (GenericPing (ping.make 7)) = Some (150004, [7])"
    by (simp add: demo_prost_def demo_ping_pb_def ping.defs)
  ultimately show ?thesis using message_map_round_trip by blast
qed

end
