(* ===== verification/Framing.thy ===== *)
theory Framing
  imports Messages Frame_Loop
begin

text \<open>
  The frames on the connection between client and server: one byte 33, the length as a big-endian
  32-bit number, then serial, message id and the encoded message. \<open>package\<close> is the buffer both copies
  of \<open>package_and_send_message\<close> build (np\_client/src/client.rs, np\_server/src/peer/mod.rs),
  \<open>try_extract_frame\<close> and \<open>client_run\<close> the extraction and the receive loop of the client. Shown:
  extraction undoes packaging, and the receive loop returns and does not depend on how the stream
  was cut into reads.
\<close>

definition package :: "prost \<Rightarrow> i32 \<Rightarrow> message_type \<Rightarrow> bytes option" where
  "package P serial m =
     (case get_message_id m of
        Some i \<Rightarrow>
          Some ([33] @ u32_to_be_bytes (of_nat (8 + get_message_size P m)) @ u32_to_be_bytes serial
                @ u32_to_be_bytes i @ encode_raw_message P m)
      | None \<Rightarrow> None)"

definition read_u32 :: "bytes \<Rightarrow> u32" where
  "read_u32 bs = (case bs of [a, b, c, d] \<Rightarrow> u32_from_be a b c d | _ \<Rightarrow> 0)"

text \<open>
  The extraction of a frame below a limit; an error leaves the buffer as it is. The client's limit is
  five megabytes, the server's two.
\<close>

definition try_extract_limit :: "nat \<Rightarrow> bytes \<Rightarrow> bytes option outcome \<times> bytes" where
  "try_extract_limit limit buf =
     (if length buf > 0 \<and> buf ! 0 \<noteq> 33 then (Err ''Bad flag'', buf)
      else if length buf < 5 then (Ok None, buf)
      else
        (let len = unat (read_u32 (take 4 (drop 1 buf))) in
         if len \<le> 0 \<or> len \<ge> limit then (Err ''Message too long'', buf)
         else if length buf < 5 + len then (Ok None, buf)
         else (Ok (Some (drop 5 (take (5 + len) buf))), drop (5 + len) buf)))"

definition try_extract_frame :: "bytes \<Rightarrow> bytes option outcome \<times> bytes" where
  "try_extract_frame = try_extract_limit (1024 * 1024 * 5)"

text \<open>
  \<open>Client::run\<close>: what the reads of the socket return, until the peer closes (a read of zero bytes)
  or something fails. With no more reads the task waits in the socket.
\<close>

fun client_run :: "(bytes \<Rightarrow> 's \<Rightarrow> unit outcome \<times> 's) \<Rightarrow> (string + bytes) list \<Rightarrow> bytes \<Rightarrow> 's \<Rightarrow>
    (unit outcome \<times> (bytes \<times> 's)) option" where
  "client_run on_recv_frame [] buf st = Some (Pending, (buf, st))"
| "client_run on_recv_frame (Inl e # rs) buf st = Some (Err e, (buf, st))"
| "client_run on_recv_frame (Inr chunk # rs) buf st =
     (if chunk = [] then Some (Ok (), (buf, st))
      else
        (case drain_loop (\<lambda>b st. apsnd (\<lambda>b. (b, st)) (try_extract_frame b)) on_recv_frame (buf @ chunk) st of
           None \<Rightarrow> None
         | Some (Ok _, (buf, st)) \<Rightarrow> client_run on_recv_frame rs buf st
         | Some r \<Rightarrow> Some r))"

section \<open>The client's extractor\<close>

lemma read_u32_to_be [simp]: "read_u32 (u32_to_be_bytes w) = w"
  by (simp add: read_u32_def u32_to_be_bytes_def)

lemma try_extract_limit_Ok:
  "try_extract_limit lim buf = (Ok r, rest) \<longleftrightarrow>
     (let len = unat (read_u32 (take 4 (drop 1 buf))) in
      (length buf > 0 \<longrightarrow> buf ! 0 = 33) \<and>
      (length buf < 5 \<and> r = None \<and> rest = buf \<or>
       5 \<le> length buf \<and> 0 < len \<and> len < lim \<and>
        (length buf < 5 + len \<and> r = None \<and> rest = buf \<or>
         5 + len \<le> length buf \<and> r = Some (take len (drop 5 buf)) \<and> rest = drop (5 + len) buf)))"
  by (auto simp: try_extract_limit_def Let_def drop_take)

lemma try_extract_limit_fails:
  assumes "try_extract_limit lim buf = (r, rest)" and "\<not> is_Ok r"
  shows "try_extract_limit lim (buf @ ext) = (r, rest @ ext)"
proof (cases "buf \<noteq> [] \<and> buf ! 0 \<noteq> 33")
  case True
  with assms show ?thesis by (auto simp: try_extract_limit_def nth_append)
next
  case False
  with assms have "5 \<le> length buf" "buf ! 0 = 33"
    by (auto simp: try_extract_limit_def Let_def split: if_splits)
  moreover from this have "(buf @ ext) ! 0 = 33" "take 4 (drop 1 (buf @ ext)) = take 4 (drop 1 buf)"
    by (auto simp: nth_append)
  ultimately show ?thesis
    using assms by (auto simp: try_extract_limit_def Let_def split: if_splits)
qed

lemma try_extract_packaged:
  assumes "length f = unat len" and "0 < unat len" and "unat len < lim"
  shows "try_extract_limit lim ([33] @ u32_to_be_bytes len @ f @ rest) = (Ok (Some f), rest)"
proof -
  have "drop (5 + unat len) ([33] @ u32_to_be_bytes len @ f @ rest) = rest"
    using assms(1) by (simp add: numeral_eq_Suc u32_to_be_bytes_def)
  with assms show ?thesis by (simp add: try_extract_limit_Ok Let_def)
qed

interpretation limited_frames: frame_extractor "try_extract_limit lim" for lim
proof
  fix buf frame rest ext
  show "try_extract_limit lim buf = (Ok (Some frame), rest) \<Longrightarrow> length rest < length buf"
    by (auto simp: try_extract_limit_Ok Let_def)
  show "try_extract_limit lim buf = (Ok None, rest) \<Longrightarrow> rest = buf"
    by (auto simp: try_extract_limit_Ok Let_def)
  show "try_extract_limit lim buf = (Ok (Some frame), rest) \<Longrightarrow>
      try_extract_limit lim (buf @ ext) = (Ok (Some frame), rest @ ext)"
    by (auto simp: try_extract_limit_Ok Let_def nth_append)
  show "try_extract_limit lim buf = (r, rest) \<Longrightarrow> \<not> is_Ok r \<Longrightarrow>
      try_extract_limit lim (buf @ ext) = (r, rest @ ext)" for r
    by (rule try_extract_limit_fails)
qed

interpretation client_frames: frame_extractor try_extract_frame
  unfolding try_extract_frame_def by (rule limited_frames.frame_extractor_axioms)

section \<open>Properties\<close>

lemma package_Some_iff:
  "package P serial m = Some bs \<longleftrightarrow>
     (\<exists>i. get_message_id m = Some i \<and>
        bs = [33] @ u32_to_be_bytes (of_nat (8 + get_message_size P m)) @ u32_to_be_bytes serial
          @ u32_to_be_bytes i @ encode_raw_message P m)"
  by (auto simp: package_def split: option.splits)

lemma drop4_be [simp]: "drop 4 (u32_to_be_bytes w @ xs) = xs" "take 4 (u32_to_be_bytes w @ xs) = u32_to_be_bytes w"
  by simp_all

lemma packaged_frame:
  assumes "package P serial m = Some bs" and "prost_ok P m" and "8 + get_message_size P m < lim"
    and "lim \<le> 4294967296"
  shows "\<exists>frame. try_extract_limit lim (bs @ rest) = (Ok (Some frame), rest)
    \<and> length frame = 8 + get_message_size P m
    \<and> read_u32 (take 4 frame) = serial
    \<and> decode_message P (read_u32 (take 4 (drop 4 frame))) (drop 8 frame) = Ok m"
proof -
  obtain i where i: "get_message_id m = Some i"
    and bs: "bs = [33] @ u32_to_be_bytes (of_nat (8 + get_message_size P m)) @ u32_to_be_bytes serial
      @ u32_to_be_bytes i @ encode_raw_message P m"
    using assms(1) by (auto simp: package_Some_iff)
  let ?frame = "u32_to_be_bytes serial @ u32_to_be_bytes i @ encode_raw_message P m"
  let ?n = "8 + get_message_size P m"
  have len: "length ?frame = ?n" using get_message_size_ok [OF assms(2)] by simp
  have n: "unat (of_nat ?n :: u32) = ?n" using assms(3,4) by (intro unat_of_nat_u32) simp
  have "try_extract_limit lim (bs @ rest) = (Ok (Some ?frame), rest)"
    using try_extract_packaged [of ?frame "of_nat ?n" lim rest] assms(3) len n by (simp add: bs)
  moreover have "drop 8 ?frame = encode_raw_message P m" by simp
  ultimately show ?thesis
    using len decode_encode_raw [OF i assms(2)] by (intro exI [of _ ?frame]) simp
qed

text \<open>
  C23: A packaged message below the client's limit of five megabytes is extracted again, whatever
  bytes follow it; the frame carries the serial and the message id, and decodes to the message.
\<close>

theorem extract_undoes_package:
  assumes "package P serial m = Some bs" and "prost_ok P m" and "8 + get_message_size P m < 1024 * 1024 * 5"
  shows "\<exists>frame. try_extract_frame (bs @ rest) = (Ok (Some frame), rest)
    \<and> length frame = 8 + get_message_size P m
    \<and> read_u32 (take 4 frame) = serial
    \<and> decode_message P (read_u32 (take 4 (drop 4 frame))) (drop 8 frame) = Ok m"
  using packaged_frame [OF assms] by (simp add: try_extract_frame_def)

definition demo_msg :: message_type where
  "demo_msg = GenericI2oSendData (i2o_send_data.make 3 7 [104, 105])"

lemma demo_msg_ok: "prost_ok demo_prost demo_msg" "get_message_size demo_prost demo_msg = 4"
  by (simp_all add: demo_msg_def demo_prost_def pb_ok_def demo_send_data_pb_def i2o_send_data.defs)

lemma demo_package:
  "package demo_prost 0 demo_msg =
     Some [33, 0, 0, 0, 12, 0, 0, 0, 0, 0, 2, 73, 248, 3, 7, 104, 105]"
  by (simp add: package_def demo_msg_def demo_prost_def demo_send_data_pb_def i2o_send_data.defs
      u32_to_be_bytes_def)

theorem extract_undoes_package_witness:
  "\<exists>frame. try_extract_frame ([33, 0, 0, 0, 12, 0, 0, 0, 0, 0, 2, 73, 248, 3, 7, 104, 105] @ [33, 0]) =
     (Ok (Some frame), [33, 0])
    \<and> decode_message demo_prost (read_u32 (take 4 (drop 4 frame))) (drop 8 frame) = Ok demo_msg"
  using extract_undoes_package [OF demo_package demo_msg_ok(1), of "[33, 0]"] demo_msg_ok(2)
  by auto

lemma client_run_total: "\<exists>y. client_run h rs buf st = Some y"
proof (induction h rs buf st rule: client_run.induct)
  case (3 h chunk rs buf st)
  then show ?case
    using client_frames.drain_terminates [of h "buf @ chunk" st]
    by (auto split: outcome.splits)
qed simp_all

lemma try_extract_frame_returns: "fst (try_extract_frame b) \<notin> {Panic, Pending}"
  by (simp add: try_extract_frame_def try_extract_limit_def Let_def)

lemma client_run_inv:
  assumes "\<And>f st. I st \<Longrightarrow> I (snd (h f st)) \<and> fst (h f st) \<notin> {Panic, Pending}"
    and "client_run h rs buf st = Some (r, (rest, st'))" and "I st"
  shows "I st' \<and> r \<noteq> Panic"
  using assms
proof (induction h rs buf st rule: client_run.induct)
  case (3 h chunk rs buf st)
  obtain q rest1 st1 where d: "drain_loop (stateless try_extract_frame) h (buf @ chunk) st = Some (q, rest1, st1)"
    using client_frames.drain_terminates by (metis prod_cases3)
  with client_frames.drain_inv [where I = I, OF "3.prems"(1) try_extract_frame_returns d "3.prems"(3)]
  have "I st1" and "q \<noteq> Panic" by auto
  with 3 d show ?case by (cases q) (auto split: if_splits)
qed auto

lemma client_run_merge:
  assumes "a \<noteq> []" and "b \<noteq> []"
  shows "map_option (apsnd snd) (client_run h (Inr a # Inr b # rs) buf st) =
    map_option (apsnd snd) (client_run h (Inr (a @ b) # rs) buf st)"
proof -
  obtain r rest st' where d: "drain_loop (stateless try_extract_frame) h (buf @ a) st = Some (r, rest, st')"
    using client_frames.drain_terminates by (metis prod_cases3)
  show ?thesis
  proof (cases "is_Ok r")
    case True
    then obtain u where "r = Ok u" by (auto simp: is_Ok_iff)
    with assms d client_frames.drain_append [of h "buf @ a" st u rest st' b] show ?thesis by simp
  next
    case False
    with assms d client_frames.drain_append_fail [OF d False, of b] show ?thesis
      by (cases r) simp_all
  qed
qed

text \<open>
  C22: The client's receive loop always returns, and neither its outcome nor the state its handlers
  leave depends on how the stream of bytes was cut into reads.
\<close>

theorem client_run_ignores_fragmentation:
  assumes "cs \<noteq> []" and "[] \<notin> set cs"
  shows "\<exists>r. map_option (apsnd snd) (client_run h (map Inr cs @ rs) buf st) = Some r
    \<and> map_option (apsnd snd) (client_run h (Inr (concat cs) # rs) buf st) = Some r"
proof -
  have "map_option (apsnd snd) (client_run h (map Inr cs @ rs) buf st) =
      map_option (apsnd snd) (client_run h (Inr (concat cs) # rs) buf st)"
    using assms
  proof (induction cs arbitrary: rs rule: rev_induct)
    case (snoc c cs)
    show ?case
    proof (cases "cs = []")
      case False
      moreover from this snoc.prems have "concat cs \<noteq> []" by (cases cs) auto
      ultimately show ?thesis
        using snoc.IH [of "Inr c # rs"] snoc.prems client_run_merge [of "concat cs" c h rs buf st]
        by (auto simp del: client_run.simps concat_eq_Nil_conv)
    qed simp
  qed simp
  with client_run_total [of h "map Inr cs @ rs" buf st] show ?thesis by (metis option.map(2))
qed

theorem client_run_ignores_fragmentation_witness:
  "\<exists>r. map_option (apsnd snd) (client_run (\<lambda>f st. (Ok (), st @ [f])) (map Inr [[33, 0], [0, 0, 1, 9]] @ []) [] []) =
      Some r
    \<and> map_option (apsnd snd) (client_run (\<lambda>f st. (Ok (), st @ [f])) [Inr [33, 0, 0, 0, 1, 9]] [] []) =
      Some (r :: unit outcome \<times> bytes list)"
  using client_run_ignores_fragmentation
    [of "[[33, 0], [0, 0, 1, 9]]" "\<lambda>f (st :: bytes list). (Ok (), st @ [f])" "[]" "[]" "[]"] by simp

end
