(* ===== verification/Message_Bridge.thy ===== *)
theory Message_Bridge
  imports Messages Proxy_Core
begin

text \<open>
  np\_proto/src/utils/message\_bridge.rs: proxy messages to protobuf messages and back, with the
  casts of the source (\<open>usize\<close> to \<open>u32\<close> truncates, \<open>u32\<close> to \<open>u8\<close> truncates). Shown: within the
  ranges of the casts the two directions are inverse, and no other message is taken for a proxy
  message.
\<close>

fun proxy_message_2_pb :: "proxy_message \<Rightarrow> u32 \<Rightarrow> message_type" where
  "proxy_message_2_pb (I2oConnect sid tt tcp cmp a em
       ek ca) t =
     GenericI2oConnect (i2o_connect.make t sid (ucast tt) tcp cmp a
       em ek ca)"
| "proxy_message_2_pb (O2iConnect sid ok err) t =
     GenericO2iConnect (o2i_connect.make t sid ok err)"
| "proxy_message_2_pb (I2oSendData sid d) t = GenericI2oSendData (i2o_send_data.make t sid d)"
| "proxy_message_2_pb (I2oSendToData sid d ta) t =
     GenericI2oSendToData (i2o_send_to_data.make t sid d ta)"
| "proxy_message_2_pb (O2iSendDataResult sid n) t =
     GenericO2iSendDataResult (o2i_send_data_result.make t sid (of_nat n))"
| "proxy_message_2_pb (O2iRecvData sid d) t = GenericO2iRecvData (o2i_recv_data.make t sid d)"
| "proxy_message_2_pb (O2iRecvDataFrom sid d ra) t =
     GenericO2iRecvDataFrom (o2i_recv_data_from.make t sid d ra)"
| "proxy_message_2_pb (I2oRecvDataResult sid n) t =
     GenericI2oRecvDataResult (i2o_recv_data_result.make t sid (of_nat n))"
| "proxy_message_2_pb (I2oDisconnect sid) t = GenericI2oDisconnect (i2o_disconnect.make t sid)"
| "proxy_message_2_pb (O2iDisconnect sid) t = GenericO2iDisconnect (o2i_disconnect.make t sid)"

section \<open>The conversions \<open>From\<close>\<close>

definition from_i2o_connect :: "i2o_connect \<Rightarrow> proxy_message" where
  "from_i2o_connect msg =
     I2oConnect (i2o_connect.session_id msg) (ucast (i2o_connect.tunnel_type msg))
       (i2o_connect.is_tcp msg) (i2o_connect.is_compressed msg) (i2o_connect.addr msg)
       (i2o_connect.encryption_method msg) (i2o_connect.encryption_key msg)
       (i2o_connect.client_addr msg)"

definition from_o2i_connect :: "o2i_connect \<Rightarrow> proxy_message" where
  "from_o2i_connect msg =
     O2iConnect (o2i_connect.session_id msg) (o2i_connect.success msg) (o2i_connect.error_info msg)"

definition from_i2o_send_data :: "i2o_send_data \<Rightarrow> proxy_message" where
  "from_i2o_send_data msg = I2oSendData (i2o_send_data.session_id msg) (i2o_send_data.data msg)"

definition from_i2o_send_to_data :: "i2o_send_to_data \<Rightarrow> proxy_message" where
  "from_i2o_send_to_data msg =
     I2oSendToData (i2o_send_to_data.session_id msg) (i2o_send_to_data.data msg)
       (i2o_send_to_data.target_addr msg)"

definition from_o2i_send_data_result :: "o2i_send_data_result \<Rightarrow> proxy_message" where
  "from_o2i_send_data_result msg =
     O2iSendDataResult (o2i_send_data_result.session_id msg) (unat (o2i_send_data_result.data_len msg))"

definition from_o2i_recv_data :: "o2i_recv_data \<Rightarrow> proxy_message" where
  "from_o2i_recv_data msg = O2iRecvData (o2i_recv_data.session_id msg) (o2i_recv_data.data msg)"

definition from_o2i_recv_data_from :: "o2i_recv_data_from \<Rightarrow> proxy_message" where
  "from_o2i_recv_data_from msg =
     O2iRecvDataFrom (o2i_recv_data_from.session_id msg) (o2i_recv_data_from.data msg)
       (o2i_recv_data_from.remote_addr msg)"

definition from_i2o_recv_data_result :: "i2o_recv_data_result \<Rightarrow> proxy_message" where
  "from_i2o_recv_data_result msg =
     I2oRecvDataResult (i2o_recv_data_result.session_id msg) (unat (i2o_recv_data_result.data_len msg))"

definition from_i2o_disconnect :: "i2o_disconnect \<Rightarrow> proxy_message" where
  "from_i2o_disconnect msg = I2oDisconnect (i2o_disconnect.session_id msg)"

definition from_o2i_disconnect :: "o2i_disconnect \<Rightarrow> proxy_message" where
  "from_o2i_disconnect msg = O2iDisconnect (o2i_disconnect.session_id msg)"

lemmas from_defs = from_i2o_connect_def from_o2i_connect_def from_i2o_send_data_def
  from_i2o_send_to_data_def from_o2i_send_data_result_def from_o2i_recv_data_def
  from_o2i_recv_data_from_def from_i2o_recv_data_result_def from_i2o_disconnect_def
  from_o2i_disconnect_def

lemmas make_defs = i2o_connect.defs o2i_connect.defs i2o_send_data.defs i2o_send_to_data.defs
  o2i_send_data_result.defs o2i_recv_data.defs o2i_recv_data_from.defs i2o_recv_data_result.defs
  i2o_disconnect.defs o2i_disconnect.defs

fun pb_2_proxy_message :: "message_type \<Rightarrow> (proxy_message \<times> u32) option" where
  "pb_2_proxy_message (GenericI2oConnect msg) = Some (from_i2o_connect msg, i2o_connect.tunnel_id msg)"
| "pb_2_proxy_message (GenericI2oSendData msg) =
     Some (from_i2o_send_data msg, i2o_send_data.tunnel_id msg)"
| "pb_2_proxy_message (GenericI2oSendToData msg) =
     Some (from_i2o_send_to_data msg, i2o_send_to_data.tunnel_id msg)"
| "pb_2_proxy_message (GenericI2oRecvDataResult msg) =
     Some (from_i2o_recv_data_result msg, i2o_recv_data_result.tunnel_id msg)"
| "pb_2_proxy_message (GenericI2oDisconnect msg) =
     Some (from_i2o_disconnect msg, i2o_disconnect.tunnel_id msg)"
| "pb_2_proxy_message (GenericO2iConnect msg) = Some (from_o2i_connect msg, o2i_connect.tunnel_id msg)"
| "pb_2_proxy_message (GenericO2iRecvData msg) =
     Some (from_o2i_recv_data msg, o2i_recv_data.tunnel_id msg)"
| "pb_2_proxy_message (GenericO2iRecvDataFrom msg) =
     Some (from_o2i_recv_data_from msg, o2i_recv_data_from.tunnel_id msg)"
| "pb_2_proxy_message (GenericO2iDisconnect msg) =
     Some (from_o2i_disconnect msg, o2i_disconnect.tunnel_id msg)"
| "pb_2_proxy_message (GenericO2iSendDataResult msg) =
     Some (from_o2i_send_data_result msg, o2i_send_data_result.tunnel_id msg)"
| "pb_2_proxy_message _ = None"

fun is_i2o_message :: "proxy_message \<Rightarrow> bool" where
  "is_i2o_message (I2oConnect _ _ _ _ _ _ _ _) = True"
| "is_i2o_message (I2oSendData _ _) = True"
| "is_i2o_message (I2oSendToData _ _ _) = True"
| "is_i2o_message (I2oDisconnect _) = True"
| "is_i2o_message (I2oRecvDataResult _ _) = True"
| "is_i2o_message _ = False"

section \<open>Properties\<close>

text \<open>The lengths of acknowledgements that survive the cast to \<open>u32\<close>.\<close>

fun fits_u32 :: "proxy_message \<Rightarrow> bool" where
  "fits_u32 (O2iSendDataResult _ n) = (n < 2 ^ 32)"
| "fits_u32 (I2oRecvDataResult _ n) = (n < 2 ^ 32)"
| "fits_u32 _ = True"

fun tunnel_type_fits :: "message_type \<Rightarrow> bool" where
  "tunnel_type_fits (GenericI2oConnect msg) = (unat (i2o_connect.tunnel_type msg) < 256)"
| "tunnel_type_fits _ = True"

lemma ucast_u8_u32 [simp]: "(ucast (ucast (b :: u8) :: u32) :: u8) = b"
  by (rule bit_word_eqI) (simp add: bit_simps)

lemma ucast_u32_u8:
  assumes "unat (w :: u32) < 256"
  shows "(ucast (ucast w :: u8) :: u32) = w"
proof -
  have "unat (ucast (ucast w :: u8) :: u32) = unat w"
    using assms by (simp add: unsigned_ucast_eq unsigned_take_bit_eq take_bit_nat_eq_self)
  then show ?thesis by (rule unsigned_word_eqI)
qed

lemma pb_2_proxy_message_2_pb:
  "fits_u32 m \<Longrightarrow> pb_2_proxy_message (proxy_message_2_pb m t) = Some (m, t)"
  by (cases m) (simp_all add: from_defs make_defs unat_of_nat)

lemma proxy_message_2_pb_2:
  "pb_2_proxy_message pb = Some (m, t) \<Longrightarrow> tunnel_type_fits pb \<Longrightarrow> proxy_message_2_pb m t = pb"
  by (cases pb) (auto simp: from_defs make_defs ucast_u32_u8)

lemma proxy_message_2_pb_id: "\<exists>i. get_message_id (proxy_message_2_pb m t) = Some i"
  by (cases m) simp_all

text \<open>
  A proxy message whose lengths fit into 32 bits survives the way over the wire with its tunnel,
  so also with its session and its direction; conversely a protobuf message that is taken for a proxy
  message is the image of exactly that message.
\<close>

theorem bridge_round_trip:
  assumes "fits_u32 m" and "tunnel_type_fits pb"
  shows "pb_2_proxy_message (proxy_message_2_pb m t) = Some (m, t)
    \<and> (\<forall>m' t'. pb_2_proxy_message pb = Some (m', t') \<longleftrightarrow> proxy_message_2_pb m' t' = pb \<and> fits_u32 m')"
proof (intro conjI allI)
  show "pb_2_proxy_message (proxy_message_2_pb m t) = Some (m, t)"
    using assms(1) by (rule pb_2_proxy_message_2_pb)
  fix m' t
  have "pb_2_proxy_message pb = Some (m', t) \<Longrightarrow> fits_u32 m'"
    by (cases pb) (use unat_u32_less in \<open>auto simp: from_defs\<close>)
  then show "pb_2_proxy_message pb = Some (m', t) \<longleftrightarrow> proxy_message_2_pb m' t = pb \<and> fits_u32 m'"
    using assms(2) proxy_message_2_pb_2 pb_2_proxy_message_2_pb by blast
qed

theorem bridge_round_trip_witness:
  "pb_2_proxy_message (proxy_message_2_pb (I2oRecvDataResult 7 1000) 3) = Some (I2oRecvDataResult 7 1000, 3)"
proof -
  have "fits_u32 (I2oRecvDataResult 7 1000)" and "tunnel_type_fits NoMessage" by simp_all
  from bridge_round_trip [OF this] show ?thesis by blast
qed

end
