(* ===== verification/Addr_Check.thy ===== *)
theory Addr_Check
  imports Sock_Addr
begin

text \<open>
  np\_server/src/utils/str.rs: the checks of user names, passwords and tunnel addresses, and the port
  that the conflict detection of the tunnel manager compares. Shown: for every source address that is
  accepted, this port is the port of the IPv4 address; for IPv6 addresses there is none.

  Which characters beyond ASCII are alphanumeric is a table of the standard library: the parameter
  \<open>unicode_alnum\<close> on code points.
\<close>

fun utf8_chars :: "bytes \<Rightarrow> nat list" where
  "utf8_chars [] = []"
| "utf8_chars (b # bs) =
     (if unat b < 128 then unat b # utf8_chars bs
      else if unat b < 224 then
        (case bs of
           c # bs \<Rightarrow> (unat b mod 32 * 64 + unat c mod 64) # utf8_chars bs
         | _ \<Rightarrow> [])
      else if unat b < 240 then
        (case bs of
           c # d # bs \<Rightarrow> (unat b mod 16 * 4096 + unat c mod 64 * 64 + unat d mod 64) # utf8_chars bs
         | _ \<Rightarrow> [])
      else
        (case bs of
           c # d # e # bs \<Rightarrow>
             (unat b mod 8 * 262144 + unat c mod 64 * 4096 + unat d mod 64 * 64 + unat e mod 64) # utf8_chars bs
         | _ \<Rightarrow> []))"

definition is_alphanumeric :: "(nat \<Rightarrow> bool) \<Rightarrow> nat \<Rightarrow> bool" where
  "is_alphanumeric unicode_alnum c =
     (48 \<le> c \<and> c \<le> 57 \<or> 65 \<le> c \<and> c \<le> 90 \<or> 97 \<le> c \<and> c \<le> 122 \<or> 128 \<le> c \<and> unicode_alnum c)"

definition is_ascii_nospace :: "string \<Rightarrow> bool" where
  "is_ascii_nospace s = (list_all (\<lambda>c. of_char c < (128 :: nat)) s \<and> CHR '' '' \<notin> set s)"

definition is_valid_username :: "string \<Rightarrow> bool" where
  "is_valid_username s = (length s \<ge> 1 \<and> length s \<le> 30 \<and> is_ascii_nospace s)"

definition is_valid_password :: "string \<Rightarrow> bool" where
  "is_valid_password s = (length s \<ge> 1 \<and> length s \<le> 15 \<and> is_ascii_nospace s)"

definition valid_domain_part :: "(nat \<Rightarrow> bool) \<Rightarrow> string \<Rightarrow> bool" where
  "valid_domain_part unicode_alnum part =
     (part \<noteq> []
      \<and> list_all (\<lambda>c. is_alphanumeric unicode_alnum c \<or> c = 45) (utf8_chars (as_bytes part))
      \<and> hd part \<noteq> CHR ''-'' \<and> last part \<noteq> CHR ''-'')"

definition is_valid_domain :: "(nat \<Rightarrow> bool) \<Rightarrow> string \<Rightarrow> bool" where
  "is_valid_domain unicode_alnum domain =
     (let parts = split_on (CHR ''.'') domain in
      length parts \<ge> 2 \<and> list_all (valid_domain_part unicode_alnum) parts)"

definition is_valid_tunnel_source_address :: "string \<Rightarrow> bool" where
  "is_valid_tunnel_source_address a = (parse_socket_addr a \<noteq> None)"

definition is_valid_tunnel_endpoint_address :: "(nat \<Rightarrow> bool) \<Rightarrow> string \<Rightarrow> bool" where
  "is_valid_tunnel_endpoint_address unicode_alnum a =
     (if parse_socket_addr a \<noteq> None then True
      else
        (let s = split_on (CHR '':'') a in
         length s = 2 \<and> is_valid_domain unicode_alnum (s ! 0) \<and> parse_u16 (s ! 1) \<noteq> None))"

definition get_tunnel_address_port :: "string \<Rightarrow> u16 option" where
  "get_tunnel_address_port a =
     (let s = split_on (CHR '':'') a in if length s = 2 then parse_u16 (s ! 1) else None)"

section \<open>The port of an accepted source address\<close>

lemma length_split_on: "length (split_on sep s) = Suc (count_list s sep)"
  by (induction s) (auto split: list.splits)

lemma split_on_two:
  "sep \<notin> set a \<Longrightarrow> sep \<notin> set b \<Longrightarrow> split_on sep (a @ sep # b) = [a, b]"
proof (induction a)
  case Nil
  then show ?case by (induction b) (auto split: list.splits)
next
  case (Cons c a)
  then show ?case by auto
qed

text \<open>What the readers of \<open>FromStr\<close> consume: digits and their own separators, never more.\<close>

lemma not_colon_digit [simp]: "to_digit r (CHR '':'') = None" "to_digit r (CHR ''.'') = None"
  by (simp_all add: to_digit_def digit_val_def of_char_def)

lemma read_digits_consumes:
  "read_digits r acc n s = (acc', n', rest) \<Longrightarrow>
   \<exists>ds. s = ds @ rest \<and> (\<forall>c \<in> set ds. to_digit r c \<noteq> None) \<and> n' = n + length ds
     \<and> acc' = foldl (\<lambda>a c. a * r + the (to_digit r c)) acc ds"
proof (induction r acc n s rule: read_digits.induct)
  case (2 r acc n c s)
  show ?case
  proof (cases "to_digit r c")
    case (Some d)
    with 2 obtain ds where "s = ds @ rest" "\<forall>c \<in> set ds. to_digit r c \<noteq> None" "n' = Suc n + length ds"
        "acc' = foldl (\<lambda>a c. a * r + the (to_digit r c)) (acc * r + d) ds"
      by fastforce
    with Some show ?thesis by (intro exI [of _ "c # ds"]) auto
  qed (use 2 in auto)
qed auto

lemma read_number_consumes:
  assumes "read_number r mx lim zp s = Some (v, rest)"
  obtains ds where "s = ds @ rest" and "ds \<noteq> []" and "\<forall>c \<in> set ds. to_digit r c \<noteq> None" and "v \<le> mx"
    and "v = foldl (\<lambda>a c. a * r + the (to_digit r c)) 0 ds"
proof -
  obtain v' n where d: "read_digits r 0 0 s = (v', n, rest)" "n \<noteq> 0" "v' = v" "v \<le> mx"
    using assms by (auto simp: read_number_def split: prod.splits if_splits)
  from read_digits_consumes [OF d(1)] d that show thesis by auto
qed

lemma read_number_no_colon:
  "read_number r mx lim zp s = Some (v, rest) \<Longrightarrow> \<exists>pre. s = pre @ rest \<and> CHR '':'' \<notin> set pre"
  by (erule read_number_consumes) fastforce

lemma read_octet_no_colon: "read_octet i s = Some (b, rest) \<Longrightarrow> \<exists>pre. s = pre @ rest \<and> CHR '':'' \<notin> set pre"
proof -
  assume a: "read_octet i s = Some (b, rest)"
  show ?thesis
  proof (cases "i > 0")
    case False
    with a show ?thesis using read_number_no_colon by (fastforce simp: read_octet_def read_separator_def)
  next
    case True
    with a obtain s1 v where s1: "s = CHR ''.'' # s1" "read_number 10 255 (Some 3) False s1 = Some (v, rest)"
      by (cases s) (auto simp: read_octet_def read_separator_def split: if_splits)
    from read_number_no_colon [OF s1(2)] obtain pre where "s1 = pre @ rest" "CHR '':'' \<notin> set pre" by blast
    with s1(1) show ?thesis by (intro exI [of _ "CHR ''.'' # pre"]) simp
  qed
qed

lemma read_ipv4_no_colon:
  assumes "read_ipv4_addr s = Some (ip, rest)"
  shows "\<exists>pre. s = pre @ rest \<and> CHR '':'' \<notin> set pre"
proof -
  obtain a b c d s1 s2 s3 where "read_octet 0 s = Some (a, s1)" "read_octet 1 s1 = Some (b, s2)"
      "read_octet 2 s2 = Some (c, s3)" "read_octet 3 s3 = Some (d, rest)"
    using assms by (auto simp: read_ipv4_addr_def bind_eq_Some_conv)
  then obtain p1 p2 p3 p4 where "s = p1 @ s1" "s1 = p2 @ s2" "s2 = p3 @ s3" "s3 = p4 @ rest"
      "CHR '':'' \<notin> set p1 \<union> set p2 \<union> set p3 \<union> set p4"
    using read_octet_no_colon by (metis UnE)
  then show ?thesis by (intro exI [of _ "p1 @ p2 @ p3 @ p4"]) auto
qed

lemma foldl_digits_mono: "acc \<le> foldl (\<lambda>a c. a * 10 + the (to_digit 10 c)) acc ds"
proof (induction ds arbitrary: acc)
  case (Cons d ds)
  have "acc \<le> acc * 10 + the (to_digit 10 d)" by simp
  also have "\<dots> \<le> foldl (\<lambda>a c. a * 10 + the (to_digit 10 c)) (acc * 10 + the (to_digit 10 d)) ds" by (rule Cons)
  finally show ?case by simp
qed simp

lemma parse_digits_read:
  "\<forall>c \<in> set ds. to_digit 10 c \<noteq> None \<Longrightarrow> foldl (\<lambda>a c. a * 10 + the (to_digit 10 c)) acc ds \<le> mx \<Longrightarrow>
   parse_digits mx acc ds = Some (foldl (\<lambda>a c. a * 10 + the (to_digit 10 c)) acc ds)"
proof (induction ds arbitrary: acc)
  case (Cons d ds)
  then obtain k where k: "to_digit 10 d = Some k" by auto
  with Cons.prems foldl_digits_mono [of "acc * 10 + k" ds] have "acc * 10 + k \<le> mx" by simp
  with Cons k show ?case by simp
qed simp

lemma parse_u16_digits:
  assumes "ds \<noteq> []" and "\<forall>c \<in> set ds. to_digit 10 c \<noteq> None"
    and "foldl (\<lambda>a c. a * 10 + the (to_digit 10 c)) 0 ds \<le> 65535"
  shows "parse_u16 ds = Some (of_nat (foldl (\<lambda>a c. a * 10 + the (to_digit 10 c)) 0 ds))"
proof -
  have "to_digit 10 (CHR ''+'') = None" by (simp add: to_digit_def digit_val_def of_char_def)
  with assms(1,2) have "hd ds \<noteq> CHR ''+''" by (metis list.set_sel(1))
  with assms(1) have "parse_u16 ds = map_option of_nat (parse_digits 65535 0 ds)"
    by (auto simp: parse_u16_def split: list.splits)
  with parse_digits_read [OF assms(2,3)] show ?thesis by simp
qed

lemma read_port_end:
  assumes "read_port s = Some (p, [])"
  shows "\<exists>ds. s = CHR '':'' # ds \<and> CHR '':'' \<notin> set ds \<and> parse_u16 ds = Some p"
proof -
  obtain s1 v where s1: "s = CHR '':'' # s1" "read_number 10 65535 None True s1 = Some (v, [])" "p = of_nat v"
    using assms by (cases s) (auto simp: read_port_def split: if_splits)
  from s1(2) obtain ds where ds: "s1 = ds @ []" "ds \<noteq> []" "\<forall>c \<in> set ds. to_digit 10 c \<noteq> None" "v \<le> 65535"
      "v = foldl (\<lambda>a c. a * 10 + the (to_digit 10 c)) 0 ds"
    by (rule read_number_consumes)
  then have "parse_u16 ds = Some p" using s1(3) parse_u16_digits by metis
  moreover have "CHR '':'' \<notin> set ds" using ds(3) not_colon_digit by metis
  ultimately show ?thesis using s1(1) ds(1) by auto
qed

lemma port_of_v4:
  assumes "parse_socket_addr a = Some (V4 ip p)"
  shows "get_tunnel_address_port a = Some p"
proof -
  have "read_socket_addr a = Some (V4 ip p, [])"
    using assms by (auto simp: parse_socket_addr_def parse_all_def split: option.splits list.splits)
  then obtain s1 where "read_ipv4_addr a = Some (ip, s1)" "read_port s1 = Some (p, [])"
    by (auto simp: read_socket_addr_def bind_eq_Some_conv split: option.splits)
  then obtain pre ds where "a = pre @ CHR '':'' # ds" "CHR '':'' \<notin> set pre" "CHR '':'' \<notin> set ds"
      "parse_u16 ds = Some p"
    using read_ipv4_no_colon read_port_end by metis
  then show ?thesis by (simp add: get_tunnel_address_port_def split_on_two)
qed

lemma read_groups_colons:
  "read_groups limit i s = (gs, v4, rest) \<Longrightarrow>
   \<exists>pre. s = pre @ rest \<and> length gs \<le> 2 * count_list pre (CHR '':'') + (if i = 0 then 2 else 0)"
proof (induction limit i s arbitrary: gs v4 rest rule: read_groups.induct)
  case (1 limit i s)
  have sep: "\<exists>pre. s = pre @ s' \<and> (0 < i \<longrightarrow> 1 \<le> count_list pre (CHR '':''))"
    if "read_separator (CHR '':'') i rd s = Some (x, s')"
      and "\<And>t. rd t = Some (x, s') \<Longrightarrow> \<exists>pre. t = pre @ s'" for rd :: "'b reader" and x s'
    using that by (cases s; cases "i > 0") (fastforce simp: read_separator_def split: if_splits)+
  consider "limit \<le> i" "gs = []" "rest = s"
    | a b c d where "read_separator (CHR '':'') i read_ipv4_addr s = Some (Ipv4Addr a b c d, rest)" "length gs = 2"
    | "gs = []" "rest = s"
    | v s' gs' v4' where "i < limit" "(if i + 1 < limit then read_separator (CHR '':'') i read_ipv4_addr s else None) = None"
        "read_separator (CHR '':'') i (read_number 16 65535 (Some 4) True) s = Some (v, s')"
        "read_groups limit (Suc i) s' = (gs', v4', rest)" "gs = of_nat v # gs'"
    using "1.prems" by (subst (asm) read_groups.simps)
      (auto split: if_splits option.splits prod.splits ipv4.splits)
  then show ?case
  proof cases
    case (2 a b c d)
    from sep [OF 2(1)] read_ipv4_no_colon obtain pre where "s = pre @ rest" "0 < i \<longrightarrow> 1 \<le> count_list pre (CHR '':'')"
      by blast
    with 2(2) show ?thesis by (intro exI [of _ pre]) auto
  next
    case (4 v s' gs' v4')
    from sep [OF 4(3)] read_number_no_colon obtain p1 where "s = p1 @ s'" "0 < i \<longrightarrow> 1 \<le> count_list p1 (CHR '':'')"
      by blast
    moreover from "1.IH" 4 obtain p2 where "s' = p2 @ rest" "length gs' \<le> 2 * count_list p2 (CHR '':'')"
      by fastforce
    ultimately show ?thesis using 4(5) by (intro exI [of _ "p1 @ p2"]) auto
  qed auto
qed

lemma read_ipv6_colons:
  assumes "read_ipv6_addr s = Some (ip, rest)"
  shows "\<exists>pre. s = pre @ rest \<and> 2 \<le> count_list pre (CHR '':'')"
proof -
  obtain hd6 v4 s1 where g: "read_groups 8 0 s = (hd6, v4, s1)" by (cases "read_groups 8 0 s") auto
  from read_groups_colons [OF this] obtain p1 where p1: "s = p1 @ s1" "length hd6 \<le> 2 * count_list p1 (CHR '':'') + 2"
    by auto
  show ?thesis
  proof (cases "length hd6 = 8")
    case True
    with assms g p1 show ?thesis by (intro exI [of _ p1]) (auto simp: read_ipv6_addr_def)
  next
    case False
    with assms g obtain s3 tl6 v where s3: "s1 = CHR '':'' # CHR '':'' # s3"
      "read_groups (8 - (length hd6 + 1)) 0 s3 = (tl6, v, rest)"
      by (cases s1; cases "tl s1")
        (auto simp: read_ipv6_addr_def bind_eq_Some_conv split: if_splits prod.splits)
    from read_groups_colons [OF s3(2)] obtain p2 where "s3 = p2 @ rest" by auto
    with p1 s3 show ?thesis by (intro exI [of _ "p1 @ '':'' @ '':'' @ p2"]) auto
  qed
qed

lemma port_of_v6:
  assumes "parse_socket_addr a = Some (V6 ip p fl sc)"
  shows "get_tunnel_address_port a = None"
proof -
  have "read_socket_addr a = Some (V6 ip p fl sc, [])"
    using assms by (auto simp: parse_socket_addr_def parse_all_def split: option.splits list.splits)
  then obtain s1 s2 where "a = CHR ''['' # s1" "read_ipv6_addr s1 = Some (ip, s2)"
    by (cases a) (auto simp: read_socket_addr_def bind_eq_Some_conv split: option.splits if_splits)
  with read_ipv6_colons [of s1 ip s2] have "2 \<le> count_list a (CHR '':'')" by auto
  then show ?thesis by (simp add: get_tunnel_address_port_def length_split_on)
qed

text \<open>
  For every source address the server accepts, the port it compares is the port of the address
  when that is an IPv4 address; an IPv6 address has no port for it.
\<close>

theorem compared_port:
  assumes "is_valid_tunnel_source_address a"
  shows "\<exists>sa. parse_socket_addr a = Some sa
    \<and> get_tunnel_address_port a = (case sa of V4 _ p \<Rightarrow> Some p | V6 _ _ _ _ \<Rightarrow> None)"
  using assms port_of_v4 port_of_v6
  by (auto simp: is_valid_tunnel_source_address_def split: socket_addr.splits)

theorem compared_port_witness:
  "\<exists>sa. parse_socket_addr ''0.0.0.0:8080'' = Some sa
    \<and> get_tunnel_address_port ''0.0.0.0:8080'' = (case sa of V4 _ p \<Rightarrow> Some p | V6 _ _ _ _ \<Rightarrow> None)"
proof -
  have "show_socket_addr (V4 (Ipv4Addr 0 0 0 0) 8080) = ''0.0.0.0:8080''"
    by (simp add: show_ipv4_def show_radix.simps digit_char_def)
  then have "is_valid_tunnel_source_address ''0.0.0.0:8080''"
    using parse_show_socket_addr_v4 by (metis is_valid_tunnel_source_address_def option.distinct(1))
  then show ?thesis by (rule compared_port)
qed

end
