(* ===== verification/Server_State.thy ===== *)
theory Server_State
  imports Endpoints Framing Message_Bridge Addr_Check
begin

text \<open>
  The state of the server: rows of the database (np\_server/src/orm\_entity), players
  (np\_server/src/player/mod.rs) and the three managers behind \<open>GLOBAL_MANAGER\<close>
  (np\_server/src/global/manager/mod.rs). A player is shared between the two collections of the player
  manager and the peer that is logged in, so it lives in a store and the others hold references.

  The database is reached through the package \<open>sea_orm\<close>: its queries are the fields of \<open>db_ops\<close>, over a
  database state of any type. What the server relies on is stated for the two tables in
  \<open>tunnel_table\<close> and \<open>user_table\<close>: rows are kept under their primary key.
\<close>

section \<open>Rows\<close>

record tunnel_model =
  tm_id :: u32
  tm_source :: string
  tm_endpoint :: string
  tm_enabled :: u8
  tm_sender :: u32
  tm_receiver :: u32
  tm_description :: string
  tm_tunnel_type :: u32
  tm_password :: string
  tm_username :: string
  tm_is_compressed :: u8
  tm_custom_mapping :: string
  tm_encryption_method :: string

record user_model =
  um_id :: u32
  um_username :: string
  um_password :: string
  um_create_time :: i64

record 'db db_ops =
  tunnels_all :: "'db \<Rightarrow> string + tunnel_model list"
  tunnel_find :: "u32 \<Rightarrow> 'db \<Rightarrow> string + tunnel_model option"
  tunnel_insert :: "tunnel_model \<Rightarrow> 'db \<Rightarrow> (string + u32) \<times> 'db"
  tunnel_update :: "tunnel_model \<Rightarrow> 'db \<Rightarrow> (string + unit) \<times> 'db"
  tunnel_delete :: "u32 \<Rightarrow> 'db \<Rightarrow> (string + nat) \<times> 'db"
  users_all :: "'db \<Rightarrow> string + user_model list"
  user_find :: "u32 \<Rightarrow> 'db \<Rightarrow> string + user_model option"
  user_find_name :: "string \<Rightarrow> 'db \<Rightarrow> string + user_model option"
  user_find_login :: "string \<Rightarrow> string \<Rightarrow> 'db \<Rightarrow> string + user_model option"
  user_insert :: "user_model \<Rightarrow> 'db \<Rightarrow> (string + unit) \<times> 'db"
  user_update :: "user_model \<Rightarrow> 'db \<Rightarrow> (string + unit) \<times> 'db"
  user_delete :: "u32 \<Rightarrow> 'db \<Rightarrow> (string + nat) \<times> 'db"
  user_page :: "nat \<Rightarrow> nat \<Rightarrow> 'db \<Rightarrow> string + user_model list"
  user_count :: "'db \<Rightarrow> string + nat"

text \<open>
  The table of tunnels with an auto-incremented key: \<open>rows\<close> reads a database state. A failed statement
  changes nothing, nor does one on the other table.
\<close>

definition tunnel_table :: "'db db_ops \<Rightarrow> ('db \<Rightarrow> u32 \<Rightarrow> tunnel_model option) \<Rightarrow> bool" where
  "tunnel_table D rows \<longleftrightarrow>
     (\<forall>d ts. tunnels_all D d = Inr ts \<longrightarrow> 
        distinct (map tm_id ts) \<and> rows d = map_of (map (\<lambda>t. (tm_id t, t)) ts))
     \<and> (\<forall>i d r. tunnel_find D i d = Inr r \<longrightarrow> r = rows d i)
     \<and> (\<forall>t d i d'. tunnel_insert D t d = (Inr i, d') \<longrightarrow>
          i \<noteq> 0 \<and> rows d i = None \<and> rows d' = (rows d)(i \<mapsto> t\<lparr>tm_id := i\<rparr>))
     \<and> (\<forall>t d d'. tunnel_update D t d = (Inr (), d') \<longrightarrow> rows d' = (rows d)(tm_id t \<mapsto> t))
     \<and> (\<forall>i d n d'. tunnel_delete D i d = (Inr n, d') \<longrightarrow>
          n = (if rows d i = None then 0 else 1) \<and> rows d' = (rows d)(i := None))
     \<and> (\<forall>t i d e d'. tunnel_insert D t d = (Inl e, d') \<or> tunnel_update D t d = (Inl e, d') \<or>
          tunnel_delete D i d = (Inl e, d') \<longrightarrow> rows d' = rows d)
     \<and> (\<forall>u i d. rows (snd (user_insert D u d)) = rows d \<and> rows (snd (user_update D u d)) = rows d
          \<and> rows (snd (user_delete D i d)) = rows d)"

definition user_table :: "'db db_ops \<Rightarrow> ('db \<Rightarrow> u32 \<Rightarrow> user_model option) \<Rightarrow> bool" where
  "user_table D users \<longleftrightarrow>
     (\<forall>n p d u. user_find_login D n p d = Inr (Some u) \<longrightarrow>
        users d (um_id u) = Some u \<and> um_username u = n \<and> um_password u = p)
     \<and> (\<forall>n p d i u. user_find_login D n p d = Inr None \<and> users d i = Some u \<longrightarrow>
        \<not> (um_username u = n \<and> um_password u = p))
     \<and> (\<forall>n d i u. user_find_name D n d = Inr None \<and> users d i = Some u \<longrightarrow> um_username u \<noteq> n)
     \<and> (\<forall>i d r. user_find D i d = Inr r \<longrightarrow> r = users d i)
     \<and> (\<forall>u d d'. user_insert D u d = (Inr (), d') \<longrightarrow>
          users d (um_id u) = None \<and> users d' = (users d)(um_id u \<mapsto> u))
     \<and> (\<forall>u d d'. user_update D u d = (Inr (), d') \<longrightarrow> users d' = (users d)(um_id u \<mapsto> u))
     \<and> (\<forall>i d n d'. user_delete D i d = (Inr n, d') \<longrightarrow>
          n = (if users d i = None then 0 else 1) \<and> users d' = (users d)(i := None))"

section \<open>Players\<close>

text \<open>The buffer is packaged as by the client; an error of the channel is logged.\<close>

definition peer_package_and_send_message ::
  "prost \<Rightarrow> chan_ref option \<Rightarrow> i32 \<Rightarrow> message_type \<Rightarrow> bool \<Rightarrow> world \<Rightarrow> world" where
  "peer_package_and_send_message P tx serial m fl w =
     (case tx of
        Some c \<Rightarrow>
          (case package P serial m of
             Some buf \<Rightarrow> send_w_ignore c (Send buf fl) w
           | None \<Rightarrow> w)
      | None \<Rightarrow> w)"

record player =
  pl_tx :: "chan_ref option"
  pl_player_id :: u32
  pl_session_id :: u32

definition player_new :: "u32 \<Rightarrow> player" where
  "player_new pid = \<lparr>pl_tx = None, pl_player_id = pid, pl_session_id = 0\<rparr>"

definition is_online :: "player \<Rightarrow> bool" where
  "is_online p = (pl_session_id p > 0)"

definition player_send_response ::
  "prost \<Rightarrow> player \<Rightarrow> i32 \<Rightarrow> message_type \<Rightarrow> world \<Rightarrow> unit outcome \<times> world" where
  "player_send_response P p serial m w =
     (if \<not> sint serial < 0 then (Panic, w)
      else (Ok (), peer_package_and_send_message P (pl_tx p) (- serial) m True w))"

definition player_send_push :: "prost \<Rightarrow> player \<Rightarrow> message_type \<Rightarrow> world \<Rightarrow> world" where
  "player_send_push P p m w = peer_package_and_send_message P (pl_tx p) 0 m True w"

definition player_flush :: "player \<Rightarrow> world \<Rightarrow> world" where
  "player_flush p w = (case pl_tx p of Some c \<Rightarrow> send_w_ignore c Flush w | None \<Rightarrow> w)"

definition close_session :: "player \<Rightarrow> world \<Rightarrow> world" where
  "close_session p w = (case pl_tx p of Some c \<Rightarrow> send_w_ignore c Close w | None \<Rightarrow> w)"

definition reset_session_info :: "player \<Rightarrow> player" where
  "reset_session_info p = p\<lparr>pl_session_id := 0, pl_tx := None\<rparr>"

text \<open>The assertion of \<open>on_connect_session\<close> is a panic.\<close>

definition on_connect_session :: "u32 \<Rightarrow> chan_ref \<Rightarrow> player \<Rightarrow> player outcome" where
  "on_connect_session sid tx p = (if is_online p then Panic else Ok (p\<lparr>pl_session_id := sid, pl_tx := Some tx\<rparr>))"

definition on_disconnect_session :: "player \<Rightarrow> player" where
  "on_disconnect_session p = reset_session_info p"

definition on_terminate_old_session :: "player \<Rightarrow> world \<Rightarrow> player \<times> world" where
  "on_terminate_old_session p w = (reset_session_info p, close_session p w)"

definition player_handle_request :: "message_type \<Rightarrow> message_type outcome" where
  "player_handle_request m = Ok (GenericError (error.make (- 1001) ''interface absent''))"

section \<open>The managers\<close>

record 'db server =
  sv_pstore :: "nat \<Rightarrow> player"
  sv_next :: nat
  sv_players :: "nat list"
  sv_player_map :: "(u32, nat) hmap"
  sv_tunnels :: "tunnel_model list"
  sv_outlets :: "(u32, running_outlet) hmap"
  sv_inlets :: "(u32, running_inlet) hmap"
  sv_db :: 'db

type_synonym 'db server_state = "'db server \<times> world"

record 'db server_env = endpoint_env +
  db_io :: "'db db_ops"
  prost_io :: prost
  from_json :: "string \<Rightarrow> (string, string) hmap option"
  unicode_alnum :: "nat \<Rightarrow> bool"

definition new_server :: "'db \<Rightarrow> 'db server" where
  "new_server d =
     \<lparr>sv_pstore = (\<lambda>_. player_new 0), sv_next = 0, sv_players = [], sv_player_map = [], sv_tunnels = [],
      sv_outlets = [], sv_inlets = [], sv_db = d\<rparr>"

definition player_contain :: "u32 \<Rightarrow> 'db server \<Rightarrow> bool" where
  "player_contain pid sv = hm_contains (sv_player_map sv) pid"

definition get_player :: "u32 \<Rightarrow> 'db server \<Rightarrow> nat option" where
  "get_player pid sv = hm_get (sv_player_map sv) pid"

abbreviation upd_player :: "nat \<Rightarrow> player \<Rightarrow> 'db server \<Rightarrow> 'db server" where
  "upd_player r p sv \<equiv> sv\<lparr>sv_pstore := (sv_pstore sv)(r := p)\<rparr>"

text \<open>\<open>get_player(id)\<close> and, if there is one, \<open>send_push\<close>.\<close>

definition push_message_to_player :: "prost \<Rightarrow> u32 \<Rightarrow> message_type \<Rightarrow> 'db server_state \<Rightarrow> 'db server_state" where
  "push_message_to_player P pid m s =
     (case get_player pid (fst s) of
        Some r \<Rightarrow> (fst s, player_send_push P (sv_pstore (fst s) r) m (snd s))
      | None \<Rightarrow> s)"

section \<open>Tunnels as messages\<close>

definition tunnel_of_model :: "('db, 'z) server_env_scheme \<Rightarrow> tunnel_model \<Rightarrow> tunnel" where
  "tunnel_of_model E t =
     \<lparr>tunnel.source = Some (tunnel_point.make (tm_source t)),
      endpoint = Some (tunnel_point.make (tm_endpoint t)),
      tid = tm_id t,
      enabled = (tm_enabled t = 1),
      sender = tm_sender t,
      receiver = tm_receiver t,
      tunnel_type = tm_tunnel_type t,
      password = tm_password t,
      username = tm_username t,
      is_compressed = (tm_is_compressed t = 1),
      encryption_method = tm_encryption_method t,
      custom_mapping = (case from_json E (tm_custom_mapping t) of Some m \<Rightarrow> m | None \<Rightarrow> [])\<rparr>"

definition model_outlet_description :: "tunnel_model \<Rightarrow> string" where
  "model_outlet_description t =
     ''id:'' @ show_nat (unat (tm_id t)) @ ''-sender:'' @ show_nat (unat (tm_sender t))
     @ ''-enabled:'' @ show_nat (unat (tm_enabled t))"

definition model_inlet_description :: "tunnel_model \<Rightarrow> string" where
  "model_inlet_description t =
     ''id:'' @ show_nat (unat (tm_id t))
     @ ''-source:'' @ tm_source t
     @ ''-endpoint:'' @ tm_endpoint t
     @ ''-sender:'' @ show_nat (unat (tm_sender t))
     @ ''-receiver:'' @ show_nat (unat (tm_receiver t))
     @ ''-tunnel_type:'' @ show_nat (unat (tm_tunnel_type t))
     @ ''-username:'' @ tm_username t
     @ ''-password:'' @ tm_password t
     @ ''-enabled:'' @ show_nat (unat (tm_enabled t))
     @ ''-is_compressed:'' @ show_nat (unat (tm_is_compressed t))
     @ ''-encryption_method:'' @ tm_encryption_method t
     @ ''-custom_mapping:'' @ tm_custom_mapping t"

end
