(* ===== verification/Managers.thy ===== *)
theory Managers
  imports Server_State
begin

text \<open>
  The managers of the server (np\_server/src/global/manager): the outlets and inlets the server runs
  itself, as player 0 (proxy.rs), the tunnels (tunnel.rs) and the players (player.rs). An operation runs
  to its end before the next one starts; \<open>E\<close> holds the database queries, the protobuf encodings and
  the answers of the operating system.
\<close>

section \<open>Proxy manager\<close>

definition server_create_outlet ::
  "('db, 'z) server_env_scheme \<Rightarrow> tunnel_model \<Rightarrow> world \<Rightarrow> running_outlet option \<times> world" where
  "server_create_outlet E t =
     start_outlet E (tm_id t) (model_outlet_description t)
       \<lparr>this_machine = (tm_receiver t = tm_sender t), self_player_id = 0,
        peer_player_id = tm_receiver t, route_tunnel = tm_id t\<rparr>"

definition model_inlet_config :: "inlet_proxy_type \<Rightarrow> tunnel_model \<Rightarrow> inlet_config" where
  "model_inlet_config proxy_type t =
     \<lparr>cfg_type = proxy_type,
      cfg_listen_addr = tm_source t,
      cfg_output_addr = tm_endpoint t,
      cfg_is_compressed = (tm_is_compressed t = 1),
      cfg_encryption_method = tm_encryption_method t,
      cfg_data_ex = inlet_data_ex.make (tm_username t) (tm_password t)\<rparr>"

definition server_create_inlet ::
  "('db, 'z) server_env_scheme \<Rightarrow> tunnel_model \<Rightarrow> world \<Rightarrow> running_inlet option \<times> world" where
  "server_create_inlet E t w =
     (case from_u32 (tm_tunnel_type t) of
        Some proxy_type \<Rightarrow>
          start_inlet E (tm_id t) (model_inlet_description t)
            \<lparr>this_machine = (tm_receiver t = tm_sender t), self_player_id = 0,
             peer_player_id = tm_sender t, route_tunnel = tm_id t\<rparr>
            (model_inlet_config proxy_type t) w
      | None \<Rightarrow> (None, w))"

abbreviation server_wants_outlet :: "tunnel_model \<Rightarrow> bool" where
  "server_wants_outlet t \<equiv> tm_enabled t = 1 \<and> tm_sender t = 0"

abbreviation server_wants_inlet :: "tunnel_model \<Rightarrow> bool" where
  "server_wants_inlet t \<equiv> tm_enabled t = 1 \<and> tm_receiver t = 0"

definition server_sync_tunnels ::
  "('db, 'z) server_env_scheme \<Rightarrow> 'db server_state \<Rightarrow> 'db server_state" where
  "server_sync_tunnels E s =
     (let sv = fst s in
      case sync_endpoints tm_id server_wants_outlet model_outlet_description (server_create_outlet E)
             server_wants_inlet model_inlet_description (server_create_inlet E)
             (sv_tunnels sv) (sv_outlets sv) (sv_inlets sv) (snd s) of
        (os, is, w) \<Rightarrow> (sv\<lparr>sv_outlets := os, sv_inlets := is\<rparr>, w))"

definition send_input_to_outlet :: "u32 \<Rightarrow> proxy_message \<Rightarrow> 'db server_state \<Rightarrow> 'db server_state" where
  "send_input_to_outlet tun m s =
     (case hm_get (sv_outlets (fst s)) tun of
        Some ob \<Rightarrow> (fst s, snd (outlet_input m (ro_outlet ob, snd s)))
      | None \<Rightarrow> s)"

definition send_input_to_inlet :: "u32 \<Rightarrow> proxy_message \<Rightarrow> 'db server_state \<Rightarrow> 'db server_state" where
  "send_input_to_inlet tun m s =
     (case hm_get (sv_inlets (fst s)) tun of
        Some i \<Rightarrow> (fst s, snd (inlet_input m (ri_inlet i, snd s)))
      | None \<Rightarrow> s)"

abbreviation send_input :: "u32 \<Rightarrow> proxy_message \<Rightarrow> 'db server_state \<Rightarrow> 'db server_state" where
  "send_input tun m s \<equiv> (if is_i2o_message m then send_input_to_outlet tun m s else send_input_to_inlet tun m s)"

text \<open>What goes back to the other end when the addressee is unknown or not connected.\<close>

fun offline_answer :: "u32 \<Rightarrow> proxy_message \<Rightarrow> proxy_message option" where
  "offline_answer to (I2oConnect sid _ _ _ _ _ _ _) =
     Some (O2iConnect sid False (''no player '' @ show_nat (unat to) @ '' or the player is offline''))"
| "offline_answer to (I2oSendData sid _) = Some (O2iDisconnect sid)"
| "offline_answer to (I2oRecvDataResult sid _) = Some (O2iDisconnect sid)"
| "offline_answer to (O2iConnect sid _ _) = Some (I2oDisconnect sid)"
| "offline_answer to (O2iRecvData sid _) = Some (I2oDisconnect sid)"
| "offline_answer to (O2iSendDataResult sid _) = Some (I2oDisconnect sid)"
| "offline_answer to _ = None"

definition server_send_proxy_message ::
  "('db, 'z) server_env_scheme \<Rightarrow> u32 \<Rightarrow> u32 \<Rightarrow> u32 \<Rightarrow> proxy_message \<Rightarrow> 'db server_state \<Rightarrow> 'db server_state" where
  "server_send_proxy_message E from to tun m s =
     (if to = 0 then send_input tun m s
      else
        (case (case get_player to (fst s) of
                 Some r \<Rightarrow> if is_online (sv_pstore (fst s) r) then Some r else None
               | None \<Rightarrow> None) of
           Some r \<Rightarrow>
             (let pb = proxy_message_2_pb m tun in
              if \<not> message_is_none pb
              then (fst s, player_send_push (prost_io E) (sv_pstore (fst s) r) pb (snd s))
              else s)
         | None \<Rightarrow>
             (case offline_answer to m of
                Some answer \<Rightarrow>
                  (if from = 0 then send_input tun answer s
                   else push_message_to_player (prost_io E) from (proxy_message_2_pb answer tun) s)
              | None \<Rightarrow> s)))"

text \<open>The closures of the server's own outlets and inlets.\<close>

definition server_outlet_output ::
  "('db, 'z) server_env_scheme \<Rightarrow> route \<Rightarrow> proxy_message \<Rightarrow> 'db server_state \<Rightarrow> 'db server_state" where
  "server_outlet_output E rt m s =
     (if this_machine rt then send_input_to_inlet (route_tunnel rt) m s
      else server_send_proxy_message E 0 (peer_player_id rt) (route_tunnel rt) m s)"

definition server_inlet_output ::
  "('db, 'z) server_env_scheme \<Rightarrow> route \<Rightarrow> proxy_message \<Rightarrow> 'db server_state \<Rightarrow> 'db server_state" where
  "server_inlet_output E rt m s =
     (if this_machine rt then send_input_to_outlet (route_tunnel rt) m s
      else server_send_proxy_message E 0 (peer_player_id rt) (route_tunnel rt) m s)"

section \<open>Tunnel manager\<close>

definition load_all_tunnel ::
  "('db, 'z) server_env_scheme \<Rightarrow> 'db server_state \<Rightarrow> unit outcome \<times> 'db server_state" where
  "load_all_tunnel E s =
     and_then (io_result (tunnels_all (db_io E) (sv_db (fst s))), s) (\<lambda>ts s.
       (Ok (), ((fst s)\<lparr>sv_tunnels := ts\<rparr>, snd s)))"

definition broadcast_tunnel_info ::
  "('db, 'z) server_env_scheme \<Rightarrow> u32 \<Rightarrow> tunnel_model \<Rightarrow> bool \<Rightarrow> 'db server_state \<Rightarrow> 'db server_state" where
  "broadcast_tunnel_info E pid t del s =
     (if pid \<noteq> 0 then
        push_message_to_player (prost_io E) pid
          (ServerClientModifyTunnelNtf (modify_tunnel_ntf.make del (Some (tunnel_of_model E t)))) s
      else s)"

definition player_id_detection :: "'db server \<Rightarrow> u32 \<Rightarrow> unit outcome" where
  "player_id_detection sv pid =
     (if pid \<noteq> 0 \<and> \<not> player_contain pid sv
      then Err (''player id '' @ show_nat (unat pid) @ '' does not exist'') else Ok ())"

definition port_conflict_detection :: "'db server \<Rightarrow> u32 \<Rightarrow> u16 option \<Rightarrow> u32 option \<Rightarrow> bool" where
  "port_conflict_detection sv rcv port tun =
     list_ex (\<lambda>x. tm_receiver x = rcv \<and> tun \<noteq> Some (tm_id x) \<and> get_tunnel_address_port (tm_source x) = port)
       (sv_tunnels sv)"

definition tunnel_detection :: "('db, 'z) server_env_scheme \<Rightarrow> 'db server \<Rightarrow> tunnel_model \<Rightarrow> unit outcome" where
  "tunnel_detection E sv t =
     (if \<not> is_valid_tunnel_source_address (tm_source t) then Err ''source address format error''
      else if \<not> is_valid_tunnel_endpoint_address (unicode_alnum E) (tm_endpoint t)
      then Err ''endpoint address format error''
      else
        bind_ok (player_id_detection sv (tm_sender t)) (\<lambda>_.
        bind_ok (player_id_detection sv (tm_receiver t)) (\<lambda>_.
          if port_conflict_detection sv (tm_receiver t) (get_tunnel_address_port (tm_source t)) (Some (tm_id t))
          then Err ''port already in use'' else Ok ())))"

definition add_tunnel ::
  "('db, 'z) server_env_scheme \<Rightarrow> tunnel_model \<Rightarrow> 'db server_state \<Rightarrow> unit outcome \<times> 'db server_state" where
  "add_tunnel E t s =
     and_then (tunnel_detection E (fst s) t, s) (\<lambda>_ s.
     case tunnel_insert (db_io E) t (sv_db (fst s)) of (r, d) \<Rightarrow>
     and_then (io_result r, ((fst s)\<lparr>sv_db := d\<rparr>, snd s)) (\<lambda>new_id s.
       let t = t\<lparr>tm_id := new_id\<rparr>;
           s = broadcast_tunnel_info E (tm_sender t) t False s;
           s = (if tm_sender t \<noteq> tm_receiver t then broadcast_tunnel_info E (tm_receiver t) t False s else s);
           s = ((fst s)\<lparr>sv_tunnels := sv_tunnels (fst s) @ [t]\<rparr>, snd s)
       in (Ok (), server_sync_tunnels E s)))"

text \<open>\<open>iter().position\<close> and \<open>Vec::remove\<close>.\<close>

fun position :: "('a \<Rightarrow> bool) \<Rightarrow> 'a list \<Rightarrow> nat option" where
  "position p [] = None"
| "position p (x # xs) = (if p x then Some 0 else map_option Suc (position p xs))"

definition remove_at :: "nat \<Rightarrow> 'a list \<Rightarrow> 'a list" where
  "remove_at i xs = take i xs @ drop (Suc i) xs"

definition delete_tunnel ::
  "('db, 'z) server_env_scheme \<Rightarrow> u32 \<Rightarrow> 'db server_state \<Rightarrow> unit outcome \<times> 'db server_state" where
  "delete_tunnel E tun s =
     (case tunnel_delete (db_io E) tun (sv_db (fst s)) of (r, d) \<Rightarrow>
      and_then (io_result r, ((fst s)\<lparr>sv_db := d\<rparr>, snd s)) (\<lambda>rows_affected s.
        if rows_affected \<noteq> 1 then (Err (''delete_tunnel: rows_affected = '' @ show_nat rows_affected), s)
        else
          (case position (\<lambda>it. tm_id it = tun) (sv_tunnels (fst s)) of
             Some index \<Rightarrow>
               (let t = sv_tunnels (fst s) ! index;
                    s = ((fst s)\<lparr>sv_tunnels := remove_at index (sv_tunnels (fst s))\<rparr>, snd s);
                    s = broadcast_tunnel_info E (tm_sender t) t True s;
                    s = (if tm_sender t \<noteq> tm_receiver t then broadcast_tunnel_info E (tm_receiver t) t True s else s)
                in (Ok (), server_sync_tunnels E s))
           | None \<Rightarrow> (Ok (), s))))"

text \<open>The notifications of \<open>update_tunnel\<close>; the comparison of the old receiver is with the new sender.\<close>

definition update_notifications ::
  "('db, 'z) server_env_scheme \<Rightarrow> u32 \<Rightarrow> u32 \<Rightarrow> tunnel_model \<Rightarrow> 'db server_state \<Rightarrow> 'db server_state" where
  "update_notifications E old_sender old_receiver t s =
     (let s = (if old_sender \<noteq> tm_sender t then broadcast_tunnel_info E old_sender t True s else s);
          s = (if old_receiver \<noteq> tm_sender t then broadcast_tunnel_info E old_receiver t True s else s);
          s = broadcast_tunnel_info E (tm_sender t) t False s
      in if tm_sender t \<noteq> tm_receiver t then broadcast_tunnel_info E (tm_receiver t) t False s else s)"

definition update_tunnel ::
  "('db, 'z) server_env_scheme \<Rightarrow> tunnel_model \<Rightarrow> 'db server_state \<Rightarrow> unit outcome \<times> 'db server_state" where
  "update_tunnel E t s =
     and_then (tunnel_detection E (fst s) t, s) (\<lambda>_ s.
     case position (\<lambda>it. tm_id it = tm_id t) (sv_tunnels (fst s)) of
       Some index \<Rightarrow>
         and_then (io_result (tunnel_find (db_io E) (tm_id t) (sv_db (fst s))), s) (\<lambda>row s.
         case row of
           None \<Rightarrow> (Err (''Can't find tunnel: '' @ show_nat (unat (tm_id t))), s)
         | Some row \<Rightarrow>
             (case tunnel_update (db_io E) (t\<lparr>tm_id := tm_id row\<rparr>) (sv_db (fst s)) of (r, d) \<Rightarrow>
              and_then (io_result r, ((fst s)\<lparr>sv_db := d\<rparr>, snd s)) (\<lambda>_ s.
                let old = sv_tunnels (fst s) ! index;
                    s = update_notifications E (tm_sender old) (tm_receiver old) t s;
                    s = ((fst s)\<lparr>sv_tunnels := (sv_tunnels (fst s))[index := t]\<rparr>, snd s)
                in (Ok (), server_sync_tunnels E s))))
     | None \<Rightarrow> (Err (''Unable to find tunnel_id: '' @ show_nat (unat (tm_id t))), s))"

text \<open>\<open>query\<close>: the arithmetic on \<open>usize\<close> wraps around.\<close>

definition tunnel_query :: "'db server \<Rightarrow> 64 word \<Rightarrow> 64 word \<Rightarrow> tunnel_model list outcome" where
  "tunnel_query sv page_number page_size =
     (let page_size = (if page_size \<le> 0 \<or> page_size > 100 then 10 else page_size);
          start = page_number * page_size;
          stop = start + page_size;
          tunnel_num = of_nat (length (sv_tunnels sv));
          stop = (if stop > tunnel_num then tunnel_num else stop)
      in if start \<le> stop \<and> stop \<le> tunnel_num then slice (sv_tunnels sv) (unat start) (unat stop) else Ok [])"

section \<open>Player manager\<close>

definition create_player :: "u32 \<Rightarrow> 'db server \<Rightarrow> 'db server" where
  "create_player pid sv =
     (let r = sv_next sv in
      sv\<lparr>sv_pstore := (sv_pstore sv)(r := player_new pid), sv_next := Suc r,
         sv_players := sv_players sv @ [r], sv_player_map := hm_insert pid r (sv_player_map sv)\<rparr>)"

definition load_all_player ::
  "('db, 'z) server_env_scheme \<Rightarrow> 'db server_state \<Rightarrow> unit outcome \<times> 'db server_state" where
  "load_all_player E s =
     and_then (io_result (users_all (db_io E) (sv_db (fst s))), s) (\<lambda>us s.
       (Ok (), (fold (\<lambda>u. create_player (um_id u)) us (fst s), snd s)))"

definition delete_player ::
  "('db, 'z) server_env_scheme \<Rightarrow> u32 \<Rightarrow> 'db server_state \<Rightarrow> unit outcome \<times> 'db server_state" where
  "delete_player E pid s =
     and_then (run_all (delete_tunnel E)
         (map tm_id (filter (\<lambda>x. tm_sender x = pid \<or> tm_receiver x = pid) (sv_tunnels (fst s)))) s) (\<lambda>_ s.
     case user_delete (db_io E) pid (sv_db (fst s)) of (r, d) \<Rightarrow>
     and_then (io_result r, ((fst s)\<lparr>sv_db := d\<rparr>, snd s)) (\<lambda>rows_affected s.
       if rows_affected \<noteq> 1 then (Err (''delete_player: rows_affected = '' @ show_nat rows_affected), s)
       else
         (case position (\<lambda>r. pl_player_id (sv_pstore (fst s) r) = pid) (sv_players (fst s)) of
            Some index \<Rightarrow>
              (let r = sv_players (fst s) ! index in
               (Ok (), ((fst s)\<lparr>sv_players := remove_at index (sv_players (fst s))\<rparr>,
                        close_session (sv_pstore (fst s) r) (snd s))))
          | None \<Rightarrow> (Ok (), s))))"

text \<open>
  The loop of \<open>add_player\<close>: at most ten thousand random ids; \<open>samples k\<close> is the id drawn in round \<open>k\<close>.
  An id in use is skipped.
\<close>

function pick_id :: "(u32 \<Rightarrow> bool) \<Rightarrow> (nat \<Rightarrow> u32) \<Rightarrow> nat \<Rightarrow> u32 option" where
  "pick_id used samples count =
     (let count = count + 1 in
      if count > 10000 then None
      else if used (samples count) then pick_id used samples count
      else Some (samples count))"
  by pat_completeness auto
termination
  by (relation "measure (\<lambda>(used, samples, count). 10001 - count)") auto

declare pick_id.simps [simp del]

definition add_player ::
  "('db, 'z) server_env_scheme \<Rightarrow> (nat \<Rightarrow> u32) \<Rightarrow> i64 \<Rightarrow> string \<Rightarrow> string \<Rightarrow> 'db server_state \<Rightarrow>
   (i32 \<times> string) outcome \<times> 'db server_state" where
  "add_player E samples now name pass s =
     (if \<not> is_valid_username name \<or> \<not> is_valid_password pass
      then (Ok (- 1, ''usernames may not exceed 30 characters, and passwords may not exceed 15 characters.''), s)
      else
        and_then (io_result (user_find_name (db_io E) name (sv_db (fst s))), s) (\<lambda>u s.
        if u \<noteq> None then (Ok (- 2, ''user already exists''), s)
        else
          (case pick_id (\<lambda>i. player_contain i (fst s)) samples 0 of
             None \<Rightarrow> (Ok (- 3, ''too many cycles''), s)
           | Some pid \<Rightarrow>
               (case user_insert (db_io E) \<lparr>um_id = pid, um_username = name, um_password = pass,
                       um_create_time = now\<rparr> (sv_db (fst s)) of (r, d) \<Rightarrow>
                and_then (io_result r, ((fst s)\<lparr>sv_db := d\<rparr>, snd s)) (\<lambda>_ s.
                  (Ok (0, []), (create_player pid (fst s), snd s)))))))"

text \<open>\<open>update_player\<close>: the password is set twice, the second time for good.\<close>

definition update_player ::
  "('db, 'z) server_env_scheme \<Rightarrow> u32 \<Rightarrow> string \<Rightarrow> string \<Rightarrow> 'db server_state \<Rightarrow>
   unit outcome \<times> 'db server_state" where
  "update_player E pid name pass s =
     and_then (io_result (user_find (db_io E) pid (sv_db (fst s))), s) (\<lambda>u s.
     case u of
       None \<Rightarrow> (Err (''can't find user: '' @ show_nat (unat pid)), s)
     | Some u \<Rightarrow>
         (let u = u\<lparr>um_password := name\<rparr>; u = u\<lparr>um_password := pass\<rparr> in
          case user_update (db_io E) u (sv_db (fst s)) of (r, d) \<Rightarrow>
            (io_result r, ((fst s)\<lparr>sv_db := d\<rparr>, snd s))))"

text \<open>The part of \<open>init_global\<close> after the tables exist.\<close>

definition init_managers ::
  "('db, 'z) server_env_scheme \<Rightarrow> 'db server_state \<Rightarrow> unit outcome \<times> 'db server_state" where
  "init_managers E s =
     and_then (load_all_tunnel E s) (\<lambda>_ s.
     and_then (load_all_player E s) (\<lambda>_ s. (Ok (), server_sync_tunnels E s)))"

end
