(* ===== verification/Peer.thy ===== *)
theory Peer
  imports Managers Tcp_Session
begin

text \<open>
  np\_server/src/peer: the delegate of one connection to the server. It answers requests, relays pushed
  proxy messages between players, and passes a connection that does not speak the protocol to
  another server, or answers like a web server. \<open>peer_env\<close> adds to the environment of the managers the
  configured address and the answers of the connection to that server, the random ids and the clock.
\<close>

record peer =
  pr_tx :: "chan_ref option"
  pr_player :: "nat option"
  pr_session_id :: u32
  pr_forward :: "bytes list option"

text \<open>\<open>pr_forward\<close> is \<open>traffic_forward_writer\<close>: what was written to it.\<close>

record 'db peer_env = "'db server_env" +
  illegal_traffic_forward :: string
  forward_connect :: "string \<Rightarrow> string + unit"
  forward_write :: "bytes \<Rightarrow> string + unit"
  formatted_time :: string
  id_samples :: "nat \<Rightarrow> u32"
  create_time :: i64

type_synonym 'db peer_state = "(peer \<times> 'db server) \<times> world"

definition peer_new :: peer where
  "peer_new = \<lparr>pr_tx = None, pr_player = None, pr_session_id = 0, pr_forward = None\<rparr>"

abbreviation peer_of :: "'db peer_state \<Rightarrow> peer" where "peer_of s \<equiv> fst (fst s)"
abbreviation server_of :: "'db peer_state \<Rightarrow> 'db server" where "server_of s \<equiv> snd (fst s)"

abbreviation set_peer :: "(peer \<Rightarrow> peer) \<Rightarrow> 'db peer_state \<Rightarrow> 'db peer_state" where
  "set_peer f s \<equiv> ((f (peer_of s), server_of s), snd s)"

text \<open>An operation of the managers, seen from a peer.\<close>

definition on_server :: "('db server_state \<Rightarrow> 'a \<times> 'db server_state) \<Rightarrow> 'db peer_state \<Rightarrow> 'a \<times> 'db peer_state" where
  "on_server f s = (case f (server_of s, snd s) of (r, (sv, w)) \<Rightarrow> (r, ((peer_of s, sv), w)))"

section \<open>Sending\<close>

text \<open>The assertion is a panic. The negation wraps around, as in a build without overflow checks.\<close>

definition peer_send_response ::
  "'db peer_env \<Rightarrow> i32 \<Rightarrow> message_type \<Rightarrow> 'db peer_state \<Rightarrow> unit outcome \<times> 'db peer_state" where
  "peer_send_response E serial m s =
     (if \<not> sint serial < 0 then (Panic, s)
      else (Ok (), (fst s, peer_package_and_send_message (prost_io E) (pr_tx (peer_of s)) (- serial) m True (snd s))))"

definition peer_send_push :: "'db peer_env \<Rightarrow> message_type \<Rightarrow> 'db peer_state \<Rightarrow> 'db peer_state" where
  "peer_send_push E m s =
     (fst s, peer_package_and_send_message (prost_io E) (pr_tx (peer_of s)) 0 m True (snd s))"

definition crlf :: string where
  "crlf = [CHR 0x0D, CHR 0x0A]"

definition http_response :: "string \<Rightarrow> string" where
  "http_response date =
     ''HTTP/1.1 400 Bad Request'' @ crlf
     @ ''Server: nginx'' @ crlf
     @ ''Date: '' @ date @ crlf
     @ ''Content-Type: text/html'' @ crlf
     @ ''Content-Length: 150'' @ crlf
     @ ''Connection: close'' @ crlf
     @ crlf
     @ ''<html>'' @ crlf
     @ ''<head><title>400 Bad Request</title></head>'' @ crlf
     @ ''<body>'' @ crlf
     @ ''<center><h1>400 Bad Request</h1></center>'' @ crlf
     @ ''<hr><center>nginx</center>'' @ crlf
     @ ''</body>'' @ crlf
     @ ''</html>'' @ crlf"

definition send_http_404_response :: "'db peer_env \<Rightarrow> 'db peer_state \<Rightarrow> unit outcome \<times> 'db peer_state" where
  "send_http_404_response E s =
     (case pr_tx (peer_of s) of
        Some tx \<Rightarrow>
          and_then (on_world (send_w tx (Send (as_bytes (http_response (formatted_time E))) True)) s) (\<lambda>_ s.
            on_world (send_w tx Close) s)
      | None \<Rightarrow> (Ok (), s))"

text \<open>An error after the answer of a web server was sent.\<close>

definition reject :: "'db peer_env \<Rightarrow> string \<Rightarrow> 'db peer_state \<Rightarrow> 'a outcome \<times> 'db peer_state" where
  "reject E e s =
     (case send_http_404_response E s of
        (Ok _, s) \<Rightarrow> (Err e, s)
      | (Err e', s) \<Rightarrow> (Err e', s)
      | (Panic, s) \<Rightarrow> (Panic, s)
      | (Pending, s) \<Rightarrow> (Pending, s))"

section \<open>Forwarding\<close>

definition create_traffic_forward_channel ::
  "'db peer_env \<Rightarrow> 'db peer_state \<Rightarrow> unit outcome \<times> 'db peer_state" where
  "create_traffic_forward_channel E s =
     (if illegal_traffic_forward E = [] then (Err ''no config illegal_traffic_forward'', s)
      else
        (case pr_tx (peer_of s) of
           Some tx \<Rightarrow>
             and_then (io_result (forward_connect E (illegal_traffic_forward E)), s) (\<lambda>_ s.
               (Ok (), set_peer (\<lambda>p. p\<lparr>pr_forward := Some []\<rparr>) s))
         | None \<Rightarrow> (Err ''tx is none'', s)))"

text \<open>The task that copies the other server's answers: reads until the end or an error, then a close.\<close>

fun forward_answers :: "chan_ref \<Rightarrow> (string + bytes) list \<Rightarrow> world \<Rightarrow> world" where
  "forward_answers tx [] w = w"
| "forward_answers tx (Inl e # rs) w = send_w_ignore tx Close w"
| "forward_answers tx (Inr bs # rs) w =
     (if bs = [] then send_w_ignore tx Close w
      else forward_answers tx rs (send_w_ignore tx (Send bs True) w))"

section \<open>Requests\<close>

definition on_ping_request :: "ping \<Rightarrow> message_type" where
  "on_ping_request msg = GenericPong (pong.make (ping.ticks msg))"

definition on_login_request ::
  "'db peer_env \<Rightarrow> login_req \<Rightarrow> 'db peer_state \<Rightarrow> message_type outcome \<times> 'db peer_state" where
  "on_login_request E msg s =
     (if pr_player (peer_of s) \<noteq> None then (Ok (GenericError (error.make (- 1) ''repeat login'')), s)
      else
        and_then (io_result (user_find_login (db_io E) (login_req.username msg) (login_req.password msg)
            (sv_db (server_of s))), s) (\<lambda>user s.
        case user of
          None \<Rightarrow> (Ok (GenericError (error.make (- 2) ''Incorrect username or password'')), s)
        | Some user \<Rightarrow>
            (case get_player (um_id user) (server_of s) of
               Some r \<Rightarrow>
                 (let s = set_peer (\<lambda>p. p\<lparr>pr_player := Some r\<rparr>) s;
                      (p, w) = (if is_online (sv_pstore (server_of s) r)
                                then on_terminate_old_session (sv_pstore (server_of s) r) (snd s)
                                else (sv_pstore (server_of s) r, snd s));
                      s = ((peer_of s, upd_player r p (server_of s)), w)
                  in
                  case pr_tx (peer_of s) of
                    None \<Rightarrow> (Panic, s)
                  | Some tx \<Rightarrow>
                      and_then (on_connect_session (pr_session_id (peer_of s)) tx p, s) (\<lambda>p s.
                        (Ok (ServerClientLoginAck (login_ack.make (um_id user)
                           (map (tunnel_of_model E)
                             (filter (\<lambda>x. tm_receiver x = um_id user \<or> tm_sender x = um_id user)
                               (sv_tunnels (server_of s)))))),
                         ((peer_of s, upd_player r p (server_of s)), snd s))))
             | None \<Rightarrow> (Ok (GenericError (error.make (- 3) ''unable to find player'')), s))))"

definition on_register_request ::
  "'db peer_env \<Rightarrow> register_req \<Rightarrow> 'db peer_state \<Rightarrow> message_type outcome \<times> 'db peer_state" where
  "on_register_request E msg s =
     and_then (on_server (add_player E (id_samples E) (create_time E) (register_req.username msg)
         (register_req.password msg)) s) (\<lambda>(code, txt) s.
       (Ok (if code = 0 then GenericSuccess Success else GenericError (error.make code txt)), s))"

definition peer_handle_request ::
  "'db peer_env \<Rightarrow> message_type \<Rightarrow> 'db peer_state \<Rightarrow> message_type outcome \<times> 'db peer_state" where
  "peer_handle_request E m s =
     (case m of
        GenericPing msg \<Rightarrow> (Ok (on_ping_request msg), s)
      | ClientServerLoginReq msg \<Rightarrow> on_login_request E msg s
      | ClientServerRegisterReq msg \<Rightarrow> on_register_request E msg s
      | _ \<Rightarrow>
          (case pr_player (peer_of s) of
             Some _ \<Rightarrow> (player_handle_request m, s)
           | None \<Rightarrow> (Ok (GenericError (error.make (- 1002) ''player not logged in'')), s)))"

section \<open>Pushes and responses\<close>

definition peer_handle_push :: "'db peer_env \<Rightarrow> message_type \<Rightarrow> 'db peer_state \<Rightarrow> unit outcome \<times> 'db peer_state" where
  "peer_handle_push E m s =
     (case pb_2_proxy_message m of
        Some (pm, tun) \<Rightarrow>
          (case find (\<lambda>x. tm_id x = tun) (sv_tunnels (server_of s)) of
             Some t \<Rightarrow>
               (let (from, to) = (if is_i2o_message pm then (tm_receiver t, tm_sender t)
                                  else (tm_sender t, tm_receiver t))
                in on_server (\<lambda>s. (Ok (), server_send_proxy_message E from to (tm_id t) pm s)) s)
           | None \<Rightarrow> (Ok (), s))
      | None \<Rightarrow> (Ok (), s))"

definition peer_handle_response :: "message_type \<Rightarrow> 's \<Rightarrow> unit outcome \<times> 's" where
  "peer_handle_response m s = (Ok (), s)"

definition peer_handle_message ::
  "'db peer_env \<Rightarrow> i32 \<Rightarrow> message_type \<Rightarrow> 'db peer_state \<Rightarrow> message_type outcome \<times> 'db peer_state" where
  "peer_handle_message E serial m s =
     (if sint serial < 0 then peer_handle_request E m s
      else if sint serial > 0 then and_then (peer_handle_response m s) (\<lambda>_ s. (Ok NoMessage, s))
      else and_then (peer_handle_push E m s) (\<lambda>_ s. (Ok NoMessage, s)))"

section \<open>The delegate\<close>

definition peer_on_session_start ::
  "u32 \<Rightarrow> socket_addr \<Rightarrow> chan_ref \<Rightarrow> 'db peer_state \<Rightarrow> unit outcome \<times> 'db peer_state" where
  "peer_on_session_start sid a tx s = (Ok (), set_peer (\<lambda>p. p\<lparr>pr_tx := Some tx, pr_session_id := sid\<rparr>) s)"

definition peer_on_session_close :: "'db peer_state \<Rightarrow> unit outcome \<times> 'db peer_state" where
  "peer_on_session_close s =
     (let p = peer_of s; sv = server_of s;
          sv = (case pr_player p of
                  Some r \<Rightarrow>
                    if pl_session_id (sv_pstore sv r) = pr_session_id p
                    then upd_player r (on_disconnect_session (sv_pstore sv r)) sv else sv
                | None \<Rightarrow> sv)
      in (Ok (), ((p\<lparr>pr_tx := None, pr_player := None, pr_forward := None\<rparr>, sv), snd s)))"

definition peer_on_try_extract_frame ::
  "'db peer_env \<Rightarrow> bytes \<Rightarrow> 'db peer_state \<Rightarrow> bytes option outcome \<times> (bytes \<times> 'db peer_state)" where
  "peer_on_try_extract_frame E buf s =
     (case (if length buf > 0 \<and> pr_forward (peer_of s) = None \<and> buf ! 0 \<noteq> 33 then
              (case create_traffic_forward_channel E s of
                 (Ok _, s) \<Rightarrow> (Ok (), s)
               | (_, s) \<Rightarrow> reject E ''Bad flag'' s)
            else (Ok (), s)) of
        (Ok _, s) \<Rightarrow>
          (case pr_forward (peer_of s) of
             Some sent \<Rightarrow>
               (case forward_write E buf of
                  Inl e \<Rightarrow> (Err e, ([], s))
                | Inr _ \<Rightarrow> (Ok None, ([], set_peer (\<lambda>p. p\<lparr>pr_forward := Some (sent @ [buf])\<rparr>) s)))
           | None \<Rightarrow>
               (case try_extract_limit (1024 * 1024 * 2) buf of
                  (Ok frame, buf) \<Rightarrow> (Ok frame, (buf, s))
                | (Err e, buf) \<Rightarrow> apsnd (\<lambda>s. (buf, s)) (reject E e s)
                | (Panic, buf) \<Rightarrow> (Panic, (buf, s))
                | (Pending, buf) \<Rightarrow> (Pending, (buf, s))))
      | (Err e, s) \<Rightarrow> (Err e, (buf, s))
      | (Panic, s) \<Rightarrow> (Panic, (buf, s))
      | (Pending, s) \<Rightarrow> (Pending, (buf, s)))"

definition peer_on_recv_frame :: "'db peer_env \<Rightarrow> bytes \<Rightarrow> 'db peer_state \<Rightarrow> unit outcome \<times> 'db peer_state" where
  "peer_on_recv_frame E frame s =
     (if length frame < 8 then reject E ''message length is too small'' s
      else
        (let serial = read_u32 (take 4 frame); msg_id = read_u32 (take 4 (drop 4 frame)) in
         case decode_message (prost_io E) msg_id (drop 8 frame) of
           Ok m \<Rightarrow>
             (case peer_handle_message E serial m s of
                (Ok msg, s) \<Rightarrow>
                  (if sint serial < 0 then
                     (if message_is_none msg
                      then peer_send_response E serial (GenericError (error.make (- 1000) ''response is empty'')) s
                      else peer_send_response E serial msg s)
                   else (Ok (), s))
              | (Err e, s) \<Rightarrow> peer_send_response E serial (GenericError (error.make (- 1000) e)) s
              | (Panic, s) \<Rightarrow> (Panic, s)
              | (Pending, s) \<Rightarrow> (Pending, s))
         | Err e \<Rightarrow> reject E e s
         | Panic \<Rightarrow> (Panic, s)
         | Pending \<Rightarrow> (Pending, s)))"

definition peer_delegate :: "'db peer_env \<Rightarrow> (peer \<times> 'db server) session_delegate" where
  "peer_delegate E =
     \<lparr>on_session_start = peer_on_session_start,
      on_session_close = peer_on_session_close,
      on_try_extract_frame = peer_on_try_extract_frame E,
      on_recv_frame = peer_on_recv_frame E,
      on_recv_frame_from = default_on_recv_frame_from\<rparr>"

end
