(* ===== verification/Demo_Db.thy ===== *)
theory Demo_Db
  imports Server_State
begin

text \<open>
  A database with the behaviour that \<open>tunnel_table\<close> and \<open>user_table\<close> ask for: each table is a list of
  rows in which the first row with a key counts. Examples run the server on it.
\<close>

definition keyed :: "('r \<Rightarrow> u32) \<Rightarrow> 'r list \<Rightarrow> u32 \<Rightarrow> 'r option" where
  "keyed key rs = map_of (map (\<lambda>r. (key r, r)) rs)"

definition without :: "('r \<Rightarrow> u32) \<Rightarrow> u32 \<Rightarrow> 'r list \<Rightarrow> 'r list" where
  "without key i rs = filter (\<lambda>r. key r \<noteq> i) rs"

fun current :: "('r \<Rightarrow> u32) \<Rightarrow> 'r list \<Rightarrow> 'r list" where
  "current key [] = []"
| "current key (r # rs) = r # without key (key r) (current key rs)"

definition fresh_key :: "('r \<Rightarrow> u32) \<Rightarrow> 'r list \<Rightarrow> nat" where
  "fresh_key key rs = Suc (foldr (\<lambda>r. max (unat (key r))) rs 0)"

lemma keyed_simps [simp]:
  "keyed key [] = Map.empty" "keyed key (r # rs) = (keyed key rs)(key r \<mapsto> r)"
  by (simp_all add: keyed_def)

lemma keyed_without [simp]: "keyed key (without key i rs) = (keyed key rs)(i := None)"
  by (induction rs) (auto simp: without_def fun_eq_iff)

lemma keyed_current [simp]: "keyed key (current key rs) = keyed key rs"
  by (induction rs) (auto simp: fun_eq_iff)

lemma map_of_current [simp]: "map_of (map (\<lambda>r. (key r, r)) (current key rs)) = keyed key rs"
  by (simp add: keyed_def [symmetric])

lemma keys_without [simp]: "key ` set (without key i rs) = key ` set rs - {i}"
  by (auto simp: without_def)

lemma distinct_current: "distinct (map key (current key rs))"
proof (induction rs)
  case (Cons r rs)
  then show ?case by (auto simp: without_def distinct_map_filter)
qed simp

lemma keyed_Some_iff: "keyed key rs i = Some r \<longleftrightarrow> r \<in> set (current key rs) \<and> key r = i"
proof -
  have "keyed key (current key rs) i = Some r \<longleftrightarrow> (i, r) \<in> set (map (\<lambda>r. (key r, r)) (current key rs))"
    unfolding keyed_def by (rule map_of_eq_Some_iff) (simp add: comp_def distinct_current)
  then show ?thesis by auto
qed

lemma keyed_None_iff: "keyed key rs i = None \<longleftrightarrow> i \<notin> key ` set rs"
  by (force simp: keyed_def map_of_eq_None_iff)

lemma fresh_key_max: "r \<in> set rs \<Longrightarrow> unat (key r) < fresh_key key rs"
proof -
  have "r \<in> set rs \<Longrightarrow> unat (key r) \<le> foldr (\<lambda>r. max (unat (key r))) rs 0"
    by (induction rs) (auto simp: le_max_iff_disj)
  then show "r \<in> set rs \<Longrightarrow> ?thesis" by (simp add: fresh_key_def less_Suc_eq_le)
qed

lemma fresh_key_None: "fresh_key key rs < 4294967296 \<Longrightarrow> keyed key rs (of_nat (fresh_key key rs)) = None"
proof -
  assume "fresh_key key rs < 4294967296"
  then have "unat (of_nat (fresh_key key rs) :: u32) = fresh_key key rs" by (rule unat_of_nat_u32)
  then show ?thesis using fresh_key_max [of _ rs key] by (force simp: keyed_None_iff)
qed

type_synonym demo_db = "tunnel_model list \<times> user_model list"

definition demo_db_ops :: "demo_db db_ops" where
  "demo_db_ops =
     \<lparr>tunnels_all = (\<lambda>d. Inr (current tm_id (fst d))),
      tunnel_find = (\<lambda>i d. Inr (keyed tm_id (fst d) i)),
      tunnel_insert = (\<lambda>t d. let k = fresh_key tm_id (fst d) in
        if k < 4294967296 then (Inr (of_nat k), (t\<lparr>tm_id := of_nat k\<rparr> # fst d, snd d)) else (Inl ''table full'', d)),
      tunnel_update = (\<lambda>t d. (Inr (), (t # fst d, snd d))),
      tunnel_delete = (\<lambda>i d. (Inr (if keyed tm_id (fst d) i = None then 0 else 1), (without tm_id i (fst d), snd d))),
      users_all = (\<lambda>d. Inr (current um_id (snd d))),
      user_find = (\<lambda>i d. Inr (keyed um_id (snd d) i)),
      user_find_name = (\<lambda>n d. Inr (find (\<lambda>u. um_username u = n) (current um_id (snd d)))),
      user_find_login = (\<lambda>n p d. Inr (find (\<lambda>u. um_username u = n \<and> um_password u = p) (current um_id (snd d)))),
      user_insert = (\<lambda>u d. if keyed um_id (snd d) (um_id u) = None then (Inr (), (fst d, u # snd d))
        else (Inl ''duplicate key'', d)),
      user_update = (\<lambda>u d. (Inr (), (fst d, u # snd d))),
      user_delete = (\<lambda>i d. (Inr (if keyed um_id (snd d) i = None then 0 else 1), (fst d, without um_id i (snd d)))),
      user_page = (\<lambda>size page d. Inr (take size (drop (page * size) (current um_id (snd d))))),
      user_count = (\<lambda>d. Inr (length (current um_id (snd d))))\<rparr>"

abbreviation demo_rows :: "demo_db \<Rightarrow> u32 \<Rightarrow> tunnel_model option" where
  "demo_rows d \<equiv> keyed tm_id (fst d)"

abbreviation demo_users :: "demo_db \<Rightarrow> u32 \<Rightarrow> user_model option" where
  "demo_users d \<equiv> keyed um_id (snd d)"

lemma demo_tunnel_table: "tunnel_table demo_db_ops demo_rows"
proof -
  have "of_nat (fresh_key tm_id ts) \<noteq> (0 :: u32)" if "fresh_key tm_id ts < 4294967296" for ts
  proof
    assume "of_nat (fresh_key tm_id ts) = (0 :: u32)"
    then have "unat (of_nat (fresh_key tm_id ts) :: u32) = 0" by simp
    with that unat_of_nat_u32 [of "fresh_key tm_id ts"] show False by (simp add: fresh_key_def)
  qed
  then show ?thesis
    unfolding tunnel_table_def
    by (auto simp: demo_db_ops_def Let_def fresh_key_None distinct_current split: if_splits)
qed

lemma demo_user_table: "user_table demo_db_ops demo_users"
  unfolding user_table_def
  by (auto simp: demo_db_ops_def keyed_Some_iff find_Some_iff find_None_iff split: if_splits)

definition demo_senv :: "demo_db server_env" where
  "demo_senv = \<lparr>bind_io = (\<lambda>_ _. Inr ()), outlet_refs = (\<lambda>_. (1, 2)), inlet_refs = (\<lambda>_. (3, 4)),
     db_io = demo_db_ops, prost_io = demo_prost, from_json = (\<lambda>_. None), unicode_alnum = (\<lambda>_. False)\<rparr>"

end
