(* ===== verification/Manager_Props.thy ===== *)
theory Manager_Props
  imports Managers Demo_Db
begin

text \<open>
  Properties of the managers: the tunnels in memory mirror the table of the database whatever the
  outcome of an operation, no two tunnels of a receiver share a port, the participants of a tunnel
  are notified, the pages of the list partition it, and what adding and deleting players does.
\<close>

section \<open>What the operations leave alone\<close>

lemma push_message_fst [simp]: "fst (push_message_to_player P pid m s) = fst s"
  by (simp add: push_message_to_player_def split: option.splits)

lemma broadcast_fst [simp]: "fst (broadcast_tunnel_info E pid t del s) = fst s"
  by (simp add: broadcast_tunnel_info_def)

lemma update_notifications_fst [simp]: "fst (update_notifications E a b t s) = fst s"
  by (simp add: update_notifications_def Let_def)

lemma sync_fields [simp]:
  "sv_tunnels (fst (server_sync_tunnels E s)) = sv_tunnels (fst s)"
  "sv_db (fst (server_sync_tunnels E s)) = sv_db (fst s)"
  "sv_pstore (fst (server_sync_tunnels E s)) = sv_pstore (fst s)"
  "sv_players (fst (server_sync_tunnels E s)) = sv_players (fst s)"
  "sv_player_map (fst (server_sync_tunnels E s)) = sv_player_map (fst s)"
  by (simp_all add: server_sync_tunnels_def Let_def split: prod.splits)

section \<open>Positions\<close>

lemma position_None_iff: "position p xs = None \<longleftrightarrow> (\<forall>x \<in> set xs. \<not> p x)"
  by (induction xs) auto

lemma position_Some:
  "position p xs = Some i \<Longrightarrow> i < length xs \<and> p (xs ! i)"
  by (induction xs arbitrary: i) (auto split: if_splits)

lemma mset_remove_at: "i < length xs \<Longrightarrow> set (remove_at i xs) \<subseteq> set xs"
  by (auto simp: remove_at_def dest: in_set_takeD in_set_dropD)

lemma distinct_map_remove_at: "distinct (map f xs) \<Longrightarrow> distinct (map f (remove_at i xs))"
  by (simp add: remove_at_def take_map [symmetric] drop_map [symmetric] set_take_disj_set_drop_if_distinct)

lemma remove_at_filter:
  assumes "distinct (map f xs)" and "position (\<lambda>x. f x = k) xs = Some i"
  shows "remove_at i xs = filter (\<lambda>x. f x \<noteq> k) xs"
  using assms
proof (induction xs arbitrary: i)
  case (Cons x xs)
  show ?case
  proof (cases "f x = k")
    case True
    with Cons.prems(1) have "\<forall>y \<in> set xs. f y \<noteq> k" by (metis distinct.simps(2) image_eqI list.simps(9) set_map)
    then have "filter (\<lambda>x. f x \<noteq> k) xs = xs" by (intro filter_True)
    with Cons True show ?thesis by (simp add: remove_at_def)
  next
    case False
    with Cons obtain j where "position (\<lambda>x. f x = k) xs = Some j" "i = Suc j" by auto
    with Cons False show ?thesis by (simp add: remove_at_def)
  qed
qed simp

section \<open>Memory and database\<close>

abbreviation by_id :: "tunnel_model list \<Rightarrow> u32 \<Rightarrow> tunnel_model option" where
  "by_id ts \<equiv> map_of (map (\<lambda>t. (tm_id t, t)) ts)"

definition mirrors :: "('db \<Rightarrow> u32 \<Rightarrow> tunnel_model option) \<Rightarrow> 'db server \<Rightarrow> bool" where
  "mirrors rows sv \<longleftrightarrow> distinct (map tm_id (sv_tunnels sv)) \<and> rows (sv_db sv) = by_id (sv_tunnels sv)"

lemma by_id_None_iff: "by_id ts i = None \<longleftrightarrow> i \<notin> tm_id ` set ts"
  by (force simp: map_of_eq_None_iff)

lemma by_id_filter: "by_id (filter (\<lambda>t. tm_id t \<noteq> i) ts) = (by_id ts)(i := None)"
  by (induction ts) (auto simp: fun_eq_iff)

lemma by_id_snoc: "tm_id t \<notin> tm_id ` set ts \<Longrightarrow> by_id (ts @ [t]) = (by_id ts)(tm_id t \<mapsto> t)"
  by (induction ts) (auto simp: fun_eq_iff)

lemma by_id_update:
  "distinct (map tm_id ts) \<Longrightarrow> i < length ts \<Longrightarrow> tm_id (ts ! i) = tm_id t \<Longrightarrow>
   by_id (ts[i := t]) = (by_id ts)(tm_id t \<mapsto> t)"
proof (induction ts arbitrary: i)
  case (Cons u ts)
  show ?case
  proof (cases i)
    case 0
    with Cons.prems show ?thesis by (auto simp: fun_eq_iff)
  next
    case (Suc j)
    with Cons.prems have "tm_id u \<noteq> tm_id t" by (metis distinct.simps(2) length_Cons list.simps(9) nth_Cons_Suc nth_map nth_mem Suc_less_eq length_map)
    with Cons Suc show ?thesis by (auto simp: fun_eq_iff)
  qed
qed simp

lemma tunnel_detection_cases:
  obtains e where "tunnel_detection E sv t = Err e" | "tunnel_detection E sv t = Ok ()"
proof -
  have "tunnel_detection E sv t \<noteq> Panic" "tunnel_detection E sv t \<noteq> Pending"
    by (auto simp: tunnel_detection_def player_id_detection_def)
  with that show thesis by (cases "tunnel_detection E sv t") auto
qed

lemma add_tunnel_cases:
  obtains (error) e d where "add_tunnel E t s = (Err e, ((fst s)\<lparr>sv_db := d\<rparr>, snd s))"
      "d = sv_db (fst s) \<or> tunnel_insert (db_io E) t (sv_db (fst s)) = (Inl e, d)"
  | (added) i d s' where "tunnel_detection E (fst s) t = Ok ()"
      "tunnel_insert (db_io E) t (sv_db (fst s)) = (Inr i, d)"
      "add_tunnel E t s = (Ok (), server_sync_tunnels E s')"
      "fst s' = (fst s)\<lparr>sv_db := d, sv_tunnels := sv_tunnels (fst s) @ [t\<lparr>tm_id := i\<rparr>]\<rparr>"
proof -
  obtain r d where ins: "tunnel_insert (db_io E) t (sv_db (fst s)) = (r, d)" by (rule prod.exhaust)
  show thesis
  proof (cases rule: tunnel_detection_cases [of E "fst s" t])
    case (1 e)
    then show thesis by (intro error [of e "sv_db (fst s)"]) (simp_all add: add_tunnel_def)
  next
    case 2
    show thesis
    proof (cases r)
      case (Inl e)
      with 2 ins show thesis by (intro error [of e d]) (simp_all add: add_tunnel_def io_result_def)
    next
      case (Inr i)
      with 2 ins show thesis
        by (intro added) (auto simp: add_tunnel_def io_result_def Let_def)
    qed
  qed
qed

lemma delete_tunnel_cases:
  obtains (error) e d where "delete_tunnel E tun s = (Err e, ((fst s)\<lparr>sv_db := d\<rparr>, snd s))"
      "tunnel_delete (db_io E) tun (sv_db (fst s)) = (Inl e, d) \<or>
       (\<exists>n. tunnel_delete (db_io E) tun (sv_db (fst s)) = (Inr n, d) \<and> n \<noteq> 1)"
  | (gone) d where "tunnel_delete (db_io E) tun (sv_db (fst s)) = (Inr 1, d)"
      "delete_tunnel E tun s = (Ok (), ((fst s)\<lparr>sv_db := d\<rparr>, snd s))"
      "position (\<lambda>it. tm_id it = tun) (sv_tunnels (fst s)) = None"
  | (deleted) i d s' where "tunnel_delete (db_io E) tun (sv_db (fst s)) = (Inr 1, d)"
      "position (\<lambda>it. tm_id it = tun) (sv_tunnels (fst s)) = Some i"
      "delete_tunnel E tun s = (Ok (), server_sync_tunnels E s')"
      "fst s' = (fst s)\<lparr>sv_db := d, sv_tunnels := remove_at i (sv_tunnels (fst s))\<rparr>"
proof -
  obtain r d where del: "tunnel_delete (db_io E) tun (sv_db (fst s)) = (r, d)" by (rule prod.exhaust)
  consider e where "r = Inl e" | n where "r = Inr n" "n \<noteq> 1" | "r = Inr 1" by (cases r) auto
  then show thesis
  proof cases
    case (1 e)
    with del show thesis by (intro error [of e d]) (simp_all add: delete_tunnel_def io_result_def)
  next
    case (2 n)
    with del show thesis by (intro error) (auto simp: delete_tunnel_def io_result_def)
  next
    case 3
    show thesis
    proof (cases "position (\<lambda>it. tm_id it = tun) (sv_tunnels (fst s))")
      case None
      with del 3 show thesis by (intro gone) (simp_all add: delete_tunnel_def io_result_def)
    next
      case (Some i)
      with del 3 show thesis by (intro deleted) (auto simp: delete_tunnel_def io_result_def Let_def)
    qed
  qed
qed

lemma update_tunnel_cases:
  obtains (error) e d where "update_tunnel E t s = (Err e, ((fst s)\<lparr>sv_db := d\<rparr>, snd s))"
      "d = sv_db (fst s) \<or> (\<exists>t'. tunnel_update (db_io E) t' (sv_db (fst s)) = (Inl e, d))"
  | (updated) i row d s' where "tunnel_detection E (fst s) t = Ok ()"
      "position (\<lambda>it. tm_id it = tm_id t) (sv_tunnels (fst s)) = Some i"
      "tunnel_find (db_io E) (tm_id t) (sv_db (fst s)) = Inr (Some row)"
      "tunnel_update (db_io E) (t\<lparr>tm_id := tm_id row\<rparr>) (sv_db (fst s)) = (Inr (), d)"
      "update_tunnel E t s = (Ok (), server_sync_tunnels E s')"
      "fst s' = (fst s)\<lparr>sv_db := d, sv_tunnels := (sv_tunnels (fst s))[i := t]\<rparr>"
      "snd s' = snd (update_notifications E (tm_sender (sv_tunnels (fst s) ! i))
         (tm_receiver (sv_tunnels (fst s) ! i)) t ((fst s)\<lparr>sv_db := d\<rparr>, snd s))"
proof -
  let ?find = "tunnel_find (db_io E) (tm_id t) (sv_db (fst s))"
  show thesis
  proof (cases rule: tunnel_detection_cases [of E "fst s" t])
    case (1 e)
    then show thesis by (intro error [of e "sv_db (fst s)"]) (simp_all add: update_tunnel_def)
  next
    case det: 2
    consider "position (\<lambda>it. tm_id it = tm_id t) (sv_tunnels (fst s)) = None"
      | i e where "position (\<lambda>it. tm_id it = tm_id t) (sv_tunnels (fst s)) = Some i" "?find = Inl e"
      | i where "position (\<lambda>it. tm_id it = tm_id t) (sv_tunnels (fst s)) = Some i" "?find = Inr None"
      | i row where "position (\<lambda>it. tm_id it = tm_id t) (sv_tunnels (fst s)) = Some i" "?find = Inr (Some row)"
      by (metis old.sum.exhaust option.exhaust)
    then show thesis
    proof cases
      case (4 i row)
      obtain r d where upd: "tunnel_update (db_io E) (t\<lparr>tm_id := tm_id row\<rparr>) (sv_db (fst s)) = (r, d)"
        by (rule prod.exhaust)
      let ?s = "update_notifications E (tm_sender (sv_tunnels (fst s) ! i))
         (tm_receiver (sv_tunnels (fst s) ! i)) t ((fst s)\<lparr>sv_db := d\<rparr>, snd s)"
      show thesis
      proof (cases r)
        case (Inl e)
        with det 4 upd show thesis by (intro error [of e d]) (auto simp: update_tunnel_def io_result_def)
      next
        case (Inr u)
        with det 4 upd show thesis
          by (intro updated [of i row d "((fst ?s)\<lparr>sv_tunnels := (sv_tunnels (fst ?s))[i := t]\<rparr>, snd ?s)"])
            (simp_all add: update_tunnel_def io_result_def Let_def)
      qed
    qed (use det in \<open>auto intro!: error [of _ "sv_db (fst s)"] simp: update_tunnel_def io_result_def\<close>)
  qed
qed

lemma tunnel_tableD:
  assumes "tunnel_table D rows"
  shows "tunnels_all D d = Inr ts \<Longrightarrow> distinct (map tm_id ts) \<and> rows d = by_id ts"
    and "tunnel_find D i d = Inr r \<Longrightarrow> r = rows d i"
    and "tunnel_insert D t d = (Inr i, d') \<Longrightarrow> i \<noteq> 0 \<and> rows d i = None \<and> rows d' = (rows d)(i \<mapsto> t\<lparr>tm_id := i\<rparr>)"
    and "tunnel_update D t d = (Inr (), d') \<Longrightarrow> rows d' = (rows d)(tm_id t \<mapsto> t)"
    and "tunnel_delete D i d = (Inr n, d') \<Longrightarrow>
      n = (if rows d i = None then 0 else 1) \<and> rows d' = (rows d)(i := None)"
    and "tunnel_insert D t d = (Inl e, d') \<or> tunnel_update D t d = (Inl e, d') \<or> tunnel_delete D i d = (Inl e, d') \<Longrightarrow>
      rows d' = rows d"
    and "rows (snd (user_insert D u d)) = rows d \<and> rows (snd (user_update D u d)) = rows d
      \<and> rows (snd (user_delete D i d)) = rows d"
  by (rule assms [unfolded tunnel_table_def, THEN conjunct1, rule_format]
      assms [unfolded tunnel_table_def, THEN conjunct2, THEN conjunct1, rule_format]
      assms [unfolded tunnel_table_def, THEN conjunct2, THEN conjunct2, THEN conjunct1, rule_format]
      assms [unfolded tunnel_table_def, THEN conjunct2, THEN conjunct2, THEN conjunct2, THEN conjunct1, rule_format]
      assms [unfolded tunnel_table_def, THEN conjunct2, THEN conjunct2, THEN conjunct2, THEN conjunct2,
        THEN conjunct1, rule_format]
      assms [unfolded tunnel_table_def, THEN conjunct2, THEN conjunct2, THEN conjunct2, THEN conjunct2,
        THEN conjunct2, THEN conjunct1, rule_format]
      assms [unfolded tunnel_table_def, THEN conjunct2, THEN conjunct2, THEN conjunct2, THEN conjunct2,
        THEN conjunct2, THEN conjunct2, rule_format], assumption?)+

lemma mirrors_db: "mirrors rows sv \<Longrightarrow> rows d = rows (sv_db sv) \<Longrightarrow> mirrors rows (sv\<lparr>sv_db := d\<rparr>)"
  by (simp add: mirrors_def)

lemma mirrors_sync [simp]: "mirrors rows (fst (server_sync_tunnels E s)) = mirrors rows (fst s)"
  by (simp add: mirrors_def)

lemma add_tunnel_mirrors:
  assumes T: "tunnel_table (db_io E) rows" and m: "mirrors rows (fst s)"
  shows "mirrors rows (fst (snd (add_tunnel E t s)))"
proof (cases rule: add_tunnel_cases [of E t s])
  case (error e d)
  from error(2) have "rows d = rows (sv_db (fst s))" using tunnel_tableD(6) [OF T] by blast
  with m error(1) show ?thesis by (simp add: mirrors_db)
next
  case (added i d s')
  with m tunnel_tableD(3) [OF T added(2)] show ?thesis
    using by_id_snoc [of "t\<lparr>tm_id := i\<rparr>" "sv_tunnels (fst s)"]
    by (simp add: mirrors_def by_id_None_iff)
qed

lemma delete_tunnel_mirrors:
  assumes T: "tunnel_table (db_io E) rows" and m: "mirrors rows (fst s)"
  shows "mirrors rows (fst (snd (delete_tunnel E tun s)))"
proof (cases rule: delete_tunnel_cases [of E tun s])
  case (error e d)
  have "rows d = rows (sv_db (fst s))" if "tunnel_delete (db_io E) tun (sv_db (fst s)) = (Inr n, d)" "n \<noteq> 1" for n
    using tunnel_tableD(5) [OF T that(1)] that(2) by (auto split: if_splits)
  with error(2) tunnel_tableD(6) [OF T] have "rows d = rows (sv_db (fst s))" by blast
  with m error(1) show ?thesis by (simp add: mirrors_db)
next
  case (gone d)
  then have "by_id (sv_tunnels (fst s)) tun = None" by (auto simp: by_id_None_iff position_None_iff)
  with m tunnel_tableD(5) [OF T gone(1)] show ?thesis by (simp add: mirrors_def)
next
  case (deleted i d s')
  then have "remove_at i (sv_tunnels (fst s)) = filter (\<lambda>t. tm_id t \<noteq> tun) (sv_tunnels (fst s))"
    using m by (intro remove_at_filter) (simp_all add: mirrors_def)
  with m deleted(3,4) tunnel_tableD(5) [OF T deleted(1)] show ?thesis
    by (simp add: mirrors_def by_id_filter distinct_map_filter)
qed

lemma update_tunnel_mirrors:
  assumes T: "tunnel_table (db_io E) rows" and m: "mirrors rows (fst s)"
  shows "mirrors rows (fst (snd (update_tunnel E t s)))"
proof (cases rule: update_tunnel_cases [of E t s])
  case (error e d)
  from error(2) have "rows d = rows (sv_db (fst s))" using tunnel_tableD(6) [OF T] by blast
  with m error(1) show ?thesis by (simp add: mirrors_db)
next
  case (updated i row d s')
  have i: "i < length (sv_tunnels (fst s))" "tm_id (sv_tunnels (fst s) ! i) = tm_id t"
    using position_Some [OF updated(2)] by auto
  have "tm_id row = tm_id t"
    using tunnel_tableD(2) [OF T updated(3)] m by (auto simp: mirrors_def dest!: map_of_SomeD [OF sym])
  then have "rows d = (rows (sv_db (fst s)))(tm_id t \<mapsto> t)"
    using tunnel_tableD(4) [OF T updated(4)] by simp
  moreover have "map tm_id ((sv_tunnels (fst s))[i := t]) = map tm_id (sv_tunnels (fst s))"
    using i by (simp add: map_update list_update_same_conv)
  ultimately show ?thesis
    using updated m i by (simp add: mirrors_def by_id_update)
qed

lemma run_all_inv:
  assumes "\<And>x s. I s \<Longrightarrow> I (snd (f x s))" and "I s"
  shows "I (snd (run_all f xs s))"
  using assms(2)
proof (induction xs arbitrary: s)
  case (Cons x xs)
  show ?case
    using Cons.IH assms(1) [OF Cons.prems, of x] by (cases "f x s"; cases "fst (f x s)") auto
qed simp

lemma by_id_Some_iff:
  "distinct (map tm_id ts) \<Longrightarrow> by_id ts i = Some t \<longleftrightarrow> t \<in> set ts \<and> tm_id t = i"
  by (subst map_of_eq_Some_iff) (auto simp: comp_def)

text \<open>Deleting a player deletes its tunnels and then touches neither tunnels nor their table.\<close>

lemma delete_player_tunnels:
  assumes T: "tunnel_table (db_io E) rows"
    and r: "run_all (delete_tunnel E)
         (map tm_id (filter (\<lambda>x. tm_sender x = pid \<or> tm_receiver x = pid) (sv_tunnels (fst s)))) s = (r, s')"
  shows "sv_tunnels (fst (snd (delete_player E pid s))) = sv_tunnels (fst s')
    \<and> rows (sv_db (fst (snd (delete_player E pid s)))) = rows (sv_db (fst s'))"
proof -
  obtain q d where q: "user_delete (db_io E) pid (sv_db (fst s')) = (q, d)" by (rule prod.exhaust)
  with tunnel_tableD(7) [OF T, of _ "sv_db (fst s')" pid] have "rows d = rows (sv_db (fst s'))" by simp
  then show ?thesis
    by (cases r; cases q) (simp_all add: delete_player_def r q io_result_def Let_def split: option.splits)
qed

section \<open>Ports\<close>

definition listening :: "tunnel_model \<Rightarrow> u32 \<times> u16 option" where
  "listening t = (tm_receiver t, get_tunnel_address_port (tm_source t))"

definition tunnels_ok :: "'db server \<Rightarrow> bool" where
  "tunnels_ok sv \<longleftrightarrow> 0 \<notin> tm_id ` set (sv_tunnels sv) \<and> distinct (map tm_id (sv_tunnels sv))
     \<and> distinct (map listening (sv_tunnels sv))"

lemma tunnels_ok_fields: "sv_tunnels sv' = sv_tunnels sv \<Longrightarrow> tunnels_ok sv' = tunnels_ok sv"
  by (simp add: tunnels_ok_def)

lemma tunnels_ok_sync [simp]: "tunnels_ok (fst (server_sync_tunnels E s)) = tunnels_ok (fst s)"
  by (rule tunnels_ok_fields) simp

lemma detection_no_conflict:
  assumes "tunnel_detection E sv t = Ok ()" and "u \<in> set (sv_tunnels sv)" and "tm_id u \<noteq> tm_id t"
  shows "listening u \<noteq> listening t"
  using assms
  by (auto simp: tunnel_detection_def port_conflict_detection_def list_ex_iff listening_def bind_ok_Ok_iff
      split: if_splits)

lemma add_tunnel_ok:
  assumes T: "tunnel_table (db_io E) rows" and m: "mirrors rows (fst s)" and ok: "tunnels_ok (fst s)"
    and "tm_id t = 0"
  shows "tunnels_ok (fst (snd (add_tunnel E t s)))"
proof (cases rule: add_tunnel_cases [of E t s])
  case (error e d)
  with ok show ?thesis by (simp add: tunnels_ok_def)
next
  case (added i d s')
  from tunnel_tableD(3) [OF T added(2)] m have "i \<noteq> 0" "i \<notin> tm_id ` set (sv_tunnels (fst s))"
    by (simp_all add: mirrors_def by_id_None_iff)
  moreover have "listening (t\<lparr>tm_id := i\<rparr>) = listening t" by (simp add: listening_def)
  moreover have "listening u \<noteq> listening t" if "u \<in> set (sv_tunnels (fst s))" for u
    using detection_no_conflict [OF added(1) that] ok that assms(4) by (force simp: tunnels_ok_def)
  then have "listening t \<notin> listening ` set (sv_tunnels (fst s))" by force
  ultimately show ?thesis using ok added(3,4) by (simp add: tunnels_ok_def)
qed

lemma delete_tunnel_ok: "tunnels_ok (fst s) \<Longrightarrow> tunnels_ok (fst (snd (delete_tunnel E tun s)))"
proof (cases rule: delete_tunnel_cases [of E tun s])
  case (deleted i d s')
  assume "tunnels_ok (fst s)"
  with deleted position_Some [OF deleted(2)] mset_remove_at show ?thesis
    by (fastforce simp: tunnels_ok_def distinct_map_remove_at)
qed (simp_all add: tunnels_ok_def)

lemma update_tunnel_ok: "tunnels_ok (fst s) \<Longrightarrow> tunnels_ok (fst (snd (update_tunnel E t s)))"
proof (cases rule: update_tunnel_cases [of E t s])
  case (updated i row d s')
  assume ok: "tunnels_ok (fst s)"
  let ?ts = "sv_tunnels (fst s)"
  have i: "i < length ?ts" "tm_id (?ts ! i) = tm_id t" using position_Some [OF updated(2)] by auto
  then have ids: "map tm_id (?ts[i := t]) = map tm_id ?ts" by (simp add: map_update list_update_same_conv)
  have neq: "listening (?ts ! j) \<noteq> listening t" if "j < length ?ts" "j \<noteq> i" for j
  proof (rule detection_no_conflict [OF updated(1)])
    show "tm_id (?ts ! j) \<noteq> tm_id t"
      using ok i that by (metis length_map nth_eq_iff_index_eq nth_map tunnels_ok_def)
  qed (use that in simp)
  have "distinct (map listening ?ts)" using ok by (simp add: tunnels_ok_def)
  then have "distinct (map listening (?ts[i := t]))"
    using i(1) neq neq [symmetric] by (simp add: map_update distinct_conv_nth nth_list_update)
  moreover have "tm_id ` set (?ts[i := t]) = tm_id ` set ?ts" using ids by (metis set_map)
  ultimately show ?thesis using ok ids updated(5,6) by (simp add: tunnels_ok_def)
qed (simp_all add: tunnels_ok_def)

lemma delete_player_keeps:
  assumes T: "tunnel_table (db_io E) rows" and m: "mirrors rows (fst s)" and ok: "tunnels_ok (fst s)"
  shows "mirrors rows (fst (snd (delete_player E pid s))) \<and> tunnels_ok (fst (snd (delete_player E pid s)))"
proof -
  obtain r s' where r: "run_all (delete_tunnel E)
      (map tm_id (filter (\<lambda>x. tm_sender x = pid \<or> tm_receiver x = pid) (sv_tunnels (fst s)))) s = (r, s')"
    by (rule prod.exhaust)
  have "mirrors rows (fst s') \<and> tunnels_ok (fst s')"
    using run_all_inv [where f = "delete_tunnel E" and I = "\<lambda>s. mirrors rows (fst s) \<and> tunnels_ok (fst s)", OF _ conjI [OF m ok]]
      delete_tunnel_mirrors [OF T] delete_tunnel_ok unfolding r [THEN arg_cong [of _ _ snd], simplified, symmetric] by blast
  with delete_player_tunnels [OF T r] show ?thesis by (simp add: mirrors_def tunnels_ok_def)
qed

section \<open>The invariants of the tunnel manager\<close>

datatype tunnel_op = AddT tunnel_model | DeleteT u32 | UpdateT tunnel_model | DeleteP u32

fun run_op :: "('db, 'z) server_env_scheme \<Rightarrow> tunnel_op \<Rightarrow> 'db server_state \<Rightarrow> unit outcome \<times> 'db server_state" where
  "run_op E (AddT t) = add_tunnel E (t\<lparr>tm_id := 0\<rparr>)"
| "run_op E (DeleteT i) = delete_tunnel E i"
| "run_op E (UpdateT t) = update_tunnel E t"
| "run_op E (DeleteP p) = delete_player E p"

abbreviation run_ops :: "('db, 'z) server_env_scheme \<Rightarrow> tunnel_op list \<Rightarrow> 'db server_state \<Rightarrow> 'db server_state" where
  "run_ops E ops s \<equiv> fold (\<lambda>op s. snd (run_op E op s)) ops s"

lemma run_op_keeps:
  "tunnel_table (db_io E) rows \<Longrightarrow> mirrors rows (fst s) \<Longrightarrow> tunnels_ok (fst s) \<Longrightarrow>
   mirrors rows (fst (snd (run_op E op s))) \<and> tunnels_ok (fst (snd (run_op E op s)))"
  by (cases op) (simp_all add: add_tunnel_mirrors add_tunnel_ok delete_tunnel_mirrors delete_tunnel_ok
      update_tunnel_mirrors update_tunnel_ok delete_player_keeps)

lemma run_ops_keep:
  "tunnel_table (db_io E) rows \<Longrightarrow> mirrors rows (fst s) \<Longrightarrow> tunnels_ok (fst s) \<Longrightarrow>
   mirrors rows (fst (run_ops E ops s)) \<and> tunnels_ok (fst (run_ops E ops s))"
  by (induction ops arbitrary: s) (simp_all add: run_op_keeps)

text \<open>
  C10: After any sequence of additions, changes and deletions of tunnels and deletions of players,
  failed ones included, the tunnels in memory are exactly the rows of the table, so that a server
  that loads the table anew has the same tunnels.
\<close>

theorem tunnels_mirror_database:
  assumes "tunnel_table (db_io E) rows" and "mirrors rows (fst s)" and "tunnels_ok (fst s)"
  shows "rows (sv_db (fst (run_ops E ops s))) = by_id (sv_tunnels (fst (run_ops E ops s)))
    \<and> (\<forall>s' s''. sv_db (fst s') = sv_db (fst (run_ops E ops s)) \<and> load_all_tunnel E s' = (Ok (), s'') \<longrightarrow>
        set (sv_tunnels (fst s'')) = set (sv_tunnels (fst (run_ops E ops s))))"
proof (intro conjI allI impI)
  have m: "mirrors rows (fst (run_ops E ops s))" using run_ops_keep [OF assms] by blast
  then show rows: "rows (sv_db (fst (run_ops E ops s))) = by_id (sv_tunnels (fst (run_ops E ops s)))"
    by (simp add: mirrors_def)
  fix s' s''
  assume l: "sv_db (fst s') = sv_db (fst (run_ops E ops s)) \<and> load_all_tunnel E s' = (Ok (), s'')"
  then obtain ts where ts: "tunnels_all (db_io E) (sv_db (fst (run_ops E ops s))) = Inr ts"
    and s'': "sv_tunnels (fst s'') = ts"
    by (auto simp: load_all_tunnel_def io_result_def and_then_Ok_iff split: sum.splits)
  have t: "distinct (map tm_id ts)" "by_id ts = by_id (sv_tunnels (fst (run_ops E ops s)))"
    using tunnel_tableD(1) [OF assms(1) ts] rows by simp_all
  have "t \<in> set ts \<longleftrightarrow> by_id ts (tm_id t) = Some t" for t
    by (simp add: by_id_Some_iff [OF t(1)])
  moreover have "t \<in> set (sv_tunnels (fst (run_ops E ops s))) \<longleftrightarrow>
      by_id (sv_tunnels (fst (run_ops E ops s))) (tm_id t) = Some t" for t
    using m by (simp add: by_id_Some_iff mirrors_def)
  ultimately show "set (sv_tunnels (fst s'')) = set (sv_tunnels (fst (run_ops E ops s)))"
    unfolding s'' using t(2) by (auto simp del: map_of_eq_Some_iff)
qed


section \<open>Notifications\<close>

definition tunnel_ntf :: "('db, 'z) server_env_scheme \<Rightarrow> tunnel_model \<Rightarrow> bool \<Rightarrow> wmsg" where
  "tunnel_ntf E t del =
     Send (the (package (prost_io E) 0
       (ServerClientModifyTunnelNtf (modify_tunnel_ntf.make del (Some (tunnel_of_model E t)))))) True"

text \<open>The channel \<open>ch\<close> is that of player \<open>x\<close> and of no other.\<close>

definition own_channel :: "u32 \<Rightarrow> chan_ref \<Rightarrow> 'db server \<Rightarrow> bool" where
  "own_channel x ch sv \<longleftrightarrow> x \<noteq> 0 \<and>
     (\<forall>y r. get_player y sv = Some r \<longrightarrow> (pl_tx (sv_pstore sv r) = Some ch \<longleftrightarrow> y = x)) \<and> get_player x sv \<noteq> None"

lemma broadcast_queue:
  assumes "own_channel x ch (fst s)" and "alive (wchans (snd s) ch)"
  shows "wqueue (snd (broadcast_tunnel_info E y t del s)) ch =
      wqueue (snd s) ch @ (if y = x then [tunnel_ntf E t del] else [])"
    and "alive (wchans (snd (broadcast_tunnel_info E y t del s)) ch)"
proof -
  have pkg: "\<exists>bs. package (prost_io E) 0 (ServerClientModifyTunnelNtf m) = Some bs" for m
    by (simp add: package_def)
  have own: "pl_tx (sv_pstore (fst s) r) = Some ch \<longleftrightarrow> y = x" if "get_player y (fst s) = Some r" for y r
    using assms(1) that by (simp add: own_channel_def)
  have x: "x \<noteq> 0" "get_player x (fst s) \<noteq> None" using assms(1) by (simp_all add: own_channel_def)
  have "wqueue (snd (broadcast_tunnel_info E y t del s)) ch =
        wqueue (snd s) ch @ (if y = x then [tunnel_ntf E t del] else [])
      \<and> alive (wchans (snd (broadcast_tunnel_info E y t del s)) ch)"
  proof (cases "y = 0 \<or> get_player y (fst s) = None")
    case True
    with x assms(2) show ?thesis
      by (auto simp: broadcast_tunnel_info_def push_message_to_player_def)
  next
    case False
    then obtain r where r: "get_player y (fst s) = Some r" by auto
    with False own [OF r] assms(2)
      pkg [of "modify_tunnel_ntf.make del (Some (tunnel_of_model E t))"] show ?thesis
      by (cases "pl_tx (sv_pstore (fst s) r)")
        (auto simp: broadcast_tunnel_info_def push_message_to_player_def player_send_push_def
          peer_package_and_send_message_def tunnel_ntf_def send_w_ignore_def send_w_def chan_send_def)
  qed
  then show "wqueue (snd (broadcast_tunnel_info E y t del s)) ch =
      wqueue (snd s) ch @ (if y = x then [tunnel_ntf E t del] else [])"
    and "alive (wchans (snd (broadcast_tunnel_info E y t del s)) ch)" by blast+
qed

text \<open>
  When a tunnel is changed, each connected player gets its notifications in the order that
  leaves it right: the last one tells a participant of the changed tunnel the new state, and a former
  participant that the tunnel is gone for it; a player that never took part gets none.
\<close>

theorem update_notifies_participants:
  assumes "own_channel x ch (fst s)" and "alive (wchans (snd s) ch)"
  shows "\<exists>dels. wqueue (snd (update_notifications E old_sender old_receiver t s)) ch =
      wqueue (snd s) ch @ map (tunnel_ntf E t) dels
    \<and> (x \<in> {tm_sender t, tm_receiver t} \<longrightarrow> dels \<noteq> [] \<and> \<not> last dels)
    \<and> (x \<in> {old_sender, old_receiver} - {tm_sender t, tm_receiver t} \<longrightarrow> dels \<noteq> [] \<and> last dels)
    \<and> (x \<notin> {old_sender, old_receiver, tm_sender t, tm_receiver t} \<longrightarrow> dels = [])"
proof -
  let ?dels = "(if old_sender \<noteq> tm_sender t \<and> old_sender = x then [True] else [])
    @ (if old_receiver \<noteq> tm_sender t \<and> old_receiver = x then [True] else [])
    @ (if tm_sender t = x then [False] else [])
    @ (if tm_sender t \<noteq> tm_receiver t \<and> tm_receiver t = x then [False] else [])"
  have "wqueue (snd (update_notifications E old_sender old_receiver t s)) ch =
      wqueue (snd s) ch @ map (tunnel_ntf E t) ?dels"
    using assms by (simp add: update_notifications_def Let_def broadcast_queue [where x = x])
  then show ?thesis by (intro exI [of _ ?dels]) auto
qed

section \<open>Pages\<close>

definition page_len :: "64 word \<Rightarrow> nat" where
  "page_len n = (if n = 0 \<or> n > 100 then 10 else unat n)"

lemma unat_of_nat_u64: "k < 2 ^ 64 \<Longrightarrow> unat (of_nat k :: 64 word) = k"
  by (simp add: unat_of_nat)

lemma page_len_bounds: "0 < page_len n" "page_len n \<le> 100"
proof -
  have "unat n \<le> 100" if "\<not> n > 100" using that by (simp add: word_less_nat_alt)
  then show "0 < page_len n" "page_len n \<le> 100" by (auto simp: page_len_def unat_gt_0)
qed

lemma tunnel_query_page:
  assumes "length (sv_tunnels sv) < 2 ^ 64" and "p * page_len n + page_len n < 2 ^ 64"
  shows "tunnel_query sv (of_nat p) n = Ok (take (page_len n) (drop (p * page_len n) (sv_tunnels sv)))"
proof -
  let ?size = "if n \<le> 0 \<or> n > 100 then 10 else n :: 64 word"
  let ?start = "of_nat p * ?size"
  have size: "?size = of_nat (page_len n)" by (simp add: page_len_def)
  have start: "?start = of_nat (p * page_len n)" "?start + ?size = of_nat (p * page_len n + page_len n)"
    unfolding size by simp_all
  then have u: "unat ?start = p * page_len n" "unat (?start + ?size) = p * page_len n + page_len n"
    using assms(2) by (simp_all only: unat_of_nat_u64)
  have num: "unat (of_nat (length (sv_tunnels sv)) :: 64 word) = length (sv_tunnels sv)"
    using assms(1) by (rule unat_of_nat_u64)
  show ?thesis
    using u num
    by (auto simp: tunnel_query_def Let_def slice_def word_less_nat_alt word_le_nat_alt min_def)
qed

lemma tunnel_query_returns:
  assumes "length (sv_tunnels sv) < 2 ^ 64"
  shows "\<exists>ts. tunnel_query sv p n = Ok ts"
proof -
  have "unat (of_nat (length (sv_tunnels sv)) :: 64 word) = length (sv_tunnels sv)"
    using assms by (rule unat_of_nat_u64)
  then show ?thesis by (auto simp: tunnel_query_def Let_def slice_def word_le_nat_alt)
qed

lemma concat_pages: "concat (map (\<lambda>p. take k (drop (p * k) xs)) [0..<n]) = take (n * k) xs"
proof (induction n)
  case (Suc n)
  have "take (Suc n * k) xs = take (n * k) xs @ take k (drop (n * k) xs)"
    by (metis add.commute mult_Suc take_add)
  with Suc show ?case by simp
qed simp


section \<open>Players\<close>

lemma pick_id_Some:
  "pick_id used samples c = Some i \<Longrightarrow>
   \<exists>k. c < k \<and> k \<le> 10000 \<and> i = samples k \<and> \<not> used i \<and> (\<forall>j. c < j \<and> j < k \<longrightarrow> used (samples j))"
proof (induction used samples c rule: pick_id.induct)
  case (1 used samples c)
  show ?case
  proof (cases "used (samples (c + 1))")
    case False
    with "1.prems" show ?thesis
      by (subst (asm) pick_id.simps) (auto simp: Let_def intro!: exI [of _ "Suc c"] split: if_splits)
  next
    case True
    with "1.prems" have "pick_id used samples (c + 1) = Some i" and c: "\<not> c + 1 > 10000"
      by (subst (asm) pick_id.simps; simp add: Let_def split: if_splits)+
    with "1.IH" [OF refl c True] obtain k where k: "c + 1 < k" "k \<le> 10000" "i = samples k" "\<not> used i"
        "\<forall>j. c + 1 < j \<and> j < k \<longrightarrow> used (samples j)" by blast
    have "used (samples j)" if "c < j" "j < k" for j
      using k(5) True that by (cases "j = c + 1") auto
    with k show ?thesis by (intro exI [of _ k]) auto
  qed
qed

lemma pick_id_None:
  "pick_id used samples c = None \<Longrightarrow> c < k \<Longrightarrow> k \<le> 10000 \<Longrightarrow> used (samples k)"
proof (induction used samples c rule: pick_id.induct)
  case (1 used samples c)
  from "1.prems" have c: "\<not> c + 1 > 10000" by simp
  with "1.prems"(1) have u: "used (samples (c + 1))" and n: "pick_id used samples (c + 1) = None"
    by (subst (asm) pick_id.simps; simp add: Let_def split: if_splits)+
  show ?case
    using "1.IH" [OF refl c u n] "1.prems"(2,3) u by (cases "k = c + 1") auto
qed

lemma user_tableD:
  assumes "user_table D users"
  shows "user_find_login D n p d = Inr (Some u) \<Longrightarrow>
      users d (um_id u) = Some u \<and> um_username u = n \<and> um_password u = p"
    and "user_find_login D n p d = Inr None \<and> users d i = Some u \<Longrightarrow> \<not> (um_username u = n \<and> um_password u = p)"
    and "user_find_name D n d = Inr None \<and> users d i = Some u \<Longrightarrow> um_username u \<noteq> n"
    and "user_insert D u d = (Inr (), d') \<Longrightarrow> users d (um_id u) = None \<and> users d' = (users d)(um_id u \<mapsto> u)"
  by (rule assms [unfolded user_table_def, THEN conjunct1, rule_format]
      assms [unfolded user_table_def, THEN conjunct2, THEN conjunct1, rule_format]
      assms [unfolded user_table_def, THEN conjunct2, THEN conjunct2, THEN conjunct1, rule_format]
      assms [unfolded user_table_def, THEN conjunct2, THEN conjunct2, THEN conjunct2, THEN conjunct2,
        THEN conjunct1, rule_format], assumption)+

definition unique_names :: "(u32 \<Rightarrow> user_model option) \<Rightarrow> bool" where
  "unique_names us \<longleftrightarrow> (\<forall>i j u v. us i = Some u \<and> us j = Some v \<and> um_username u = um_username v \<longrightarrow> i = j)"

text \<open>
  Registration. A player is added only under a valid and unused name, with an id that no known
  player has and that is one of at most ten thousand drawn ones, so user names stay unique; in every
  other case nothing changes, and the search for an id gives up only after all drawn ids were taken.
\<close>

theorem add_player_keeps_names_unique:
  assumes "user_table (db_io E) users" and "add_player E samples now name pass s = (Ok (c, msg), s')"
  shows "(c = 0 \<longrightarrow> is_valid_username name \<and> is_valid_password pass \<and>
      (\<exists>pid \<in> samples ` {1..10000}. \<not> player_contain pid (fst s) \<and> player_contain pid (fst s')
        \<and> users (sv_db (fst s')) = (users (sv_db (fst s)))(pid \<mapsto> \<lparr>um_id = pid, um_username = name,
            um_password = pass, um_create_time = now\<rparr>))
      \<and> (unique_names (users (sv_db (fst s))) \<longrightarrow> unique_names (users (sv_db (fst s')))))
    \<and> (c \<noteq> 0 \<longrightarrow> s' = s)
    \<and> (c = - 3 \<longrightarrow> (\<forall>k \<in> {1..10000}. player_contain (samples k) (fst s)))"
proof -
  let ?used = "\<lambda>i. player_contain i (fst s)"
  let ?user = "\<lambda>pid. \<lparr>um_id = pid, um_username = name, um_password = pass, um_create_time = now\<rparr>"
  consider "c = - 1" "s' = s" | "c = - 2" "s' = s" | "c = - 3" "s' = s" "pick_id ?used samples 0 = None"
    | pid d where "c = 0" "is_valid_username name" "is_valid_password pass" "pick_id ?used samples 0 = Some pid"
      "user_find_name (db_io E) name (sv_db (fst s)) = Inr None"
      "user_insert (db_io E) (?user pid) (sv_db (fst s)) = (Inr (), d)"
      "s' = (create_player pid ((fst s)\<lparr>sv_db := d\<rparr>), snd s)"
    using assms(2)
    by (auto simp: add_player_def io_result_def and_then_Ok_iff
        split: if_splits option.splits sum.splits prod.splits)
  then show ?thesis
  proof cases
    case 3
    then show ?thesis using pick_id_None [of ?used samples 0] by auto
  next
    case (4 pid d)
    from pick_id_Some [OF 4(4)] have pid: "pid \<in> samples ` {1..10000}" "\<not> player_contain pid (fst s)" by auto
    have d: "users (sv_db (fst s')) = (users (sv_db (fst s)))(pid \<mapsto> ?user pid)"
      using user_tableD(4) [OF assms(1) 4(6)] 4(7) by (simp add: create_player_def Let_def)
    have "unique_names ((users (sv_db (fst s)))(pid \<mapsto> ?user pid))" if "unique_names (users (sv_db (fst s)))"
      using that user_tableD(3) [OF assms(1) conjI [OF 4(5)]] by (auto simp: unique_names_def)
    moreover have "player_contain pid (fst s')"
      using 4(7) by (simp add: player_contain_def create_player_def Let_def)
    ultimately show ?thesis using 4 pid d by auto
  qed auto
qed

text \<open>
  Deleting a player leaves it in the map by which players are looked up: it is still accepted as
  the sender or receiver of a tunnel, and messages to it are still delivered if it is connected.
\<close>

theorem deleted_player_still_known:
  assumes "delete_player E pid s = (Ok (), s')"
  shows "sv_player_map (fst s') = sv_player_map (fst s)
    \<and> (player_contain pid (fst s) \<longrightarrow> player_id_detection (fst s') pid = Ok ())
    \<and> (\<forall>r. get_player pid (fst s) = Some r \<longrightarrow> sv_pstore (fst s') r = sv_pstore (fst s) r)"
proof -
  have del: "sv_player_map (fst (snd (delete_tunnel E tun s))) = sv_player_map (fst s)
      \<and> sv_pstore (fst (snd (delete_tunnel E tun s))) = sv_pstore (fst s)" for tun s
    by (cases rule: delete_tunnel_cases [of E tun s]) simp_all
  obtain r t where r: "run_all (delete_tunnel E)
      (map tm_id (filter (\<lambda>x. tm_sender x = pid \<or> tm_receiver x = pid) (sv_tunnels (fst s)))) s = (r, t)"
    by (rule prod.exhaust)
  have t: "sv_player_map (fst t) = sv_player_map (fst s) \<and> sv_pstore (fst t) = sv_pstore (fst s)"
    using run_all_inv [where f = "delete_tunnel E" and s = s and
        I = "\<lambda>u. sv_player_map (fst u) = sv_player_map (fst s) \<and> sv_pstore (fst u) = sv_pstore (fst s)", OF _ conjI [OF refl refl]]
      del unfolding r [THEN arg_cong [of _ _ snd], simplified, symmetric] by simp
  have "sv_player_map (fst s') = sv_player_map (fst t) \<and> sv_pstore (fst s') = sv_pstore (fst t)"
    using assms r by (auto simp: delete_player_def and_then_Ok_iff case_prod_beta Let_def split: if_splits option.splits)
  with t show ?thesis by (simp add: player_id_detection_def player_contain_def)
qed

section \<open>The outlets and inlets of the server\<close>

interpretation server_outlets: sync server_wants_outlet tm_id model_outlet_description outlet_descr
    "server_create_outlet E" for E :: "('db, 'z) server_env_scheme"
  by unfold_locales (auto simp: server_create_outlet_def dest!: start_outlet_Some)

interpretation server_inlets: sync server_wants_inlet tm_id model_inlet_description inlet_descr
    "server_create_inlet E" for E :: "('db, 'z) server_env_scheme"
  by unfold_locales (auto simp: server_create_inlet_def split: option.splits dest!: start_inlet_Some)

lemma server_sync_eq:
  obtains s1 s2 s3 s4 where
    "sv_outlets (fst (server_sync_tunnels E s)) =
       synced server_wants_outlet tm_id model_outlet_description outlet_descr (server_create_outlet E) stop_outlet (sv_tunnels (fst s)) (sv_outlets (fst s)) s1 s2"
    "sv_inlets (fst (server_sync_tunnels E s)) =
       synced server_wants_inlet tm_id model_inlet_description inlet_descr (server_create_inlet E) stop_inlet (sv_tunnels (fst s)) (sv_inlets (fst s)) s3 s4"
  using sync_endpoints_eq [of tm_id server_wants_outlet model_outlet_description "server_create_outlet E"
      server_wants_inlet model_inlet_description "server_create_inlet E" "sv_tunnels (fst s)"
      "sv_outlets (fst s)" "sv_inlets (fst s)" "snd s"]
  by (fastforce simp: server_sync_tunnels_def Let_def)

text \<open>
  After the server has synchronised, its outlets and inlets are those of the enabled tunnels that
  name the server itself: each belongs to such a tunnel and has its description, each such tunnel has
  its outlet, and one that is unchanged keeps its object and so its sessions.
\<close>

theorem server_sync_reconciles:
  assumes "hm_wf (sv_outlets (fst s))" and "hm_wf (sv_inlets (fst s))"
  shows "(\<forall>k ob. hm_get (sv_outlets (fst (server_sync_tunnels E s))) k = Some ob \<longrightarrow>
      (\<exists>t \<in> set (sv_tunnels (fst s)). k = tm_id t \<and> server_wants_outlet t \<and> model_outlet_description t = outlet_descr ob))
    \<and> (\<forall>k i. hm_get (sv_inlets (fst (server_sync_tunnels E s))) k = Some i \<longrightarrow>
      (\<exists>t \<in> set (sv_tunnels (fst s)). k = tm_id t \<and> server_wants_inlet t \<and> model_inlet_description t = inlet_descr i))
    \<and> (\<forall>t \<in> set (sv_tunnels (fst s)). server_wants_outlet t \<longrightarrow>
      hm_contains (sv_outlets (fst (server_sync_tunnels E s))) (tm_id t))
    \<and> (\<forall>t \<in> set (sv_tunnels (fst s)). \<forall>i. hm_get (sv_inlets (fst s)) (tm_id t) = Some i \<and> server_wants_inlet t \<and>
      model_inlet_description t = inlet_descr i \<longrightarrow>
      hm_get (sv_inlets (fst (server_sync_tunnels E s))) (tm_id t) = Some i)"
  (is "?os \<and> ?is \<and> ?oc \<and> ?ik")
proof (intro conjI)
  obtain s1 s2 s3 s4 where
      os: "sv_outlets (fst (server_sync_tunnels E s)) =
        synced server_wants_outlet tm_id model_outlet_description outlet_descr (server_create_outlet E) stop_outlet (sv_tunnels (fst s)) (sv_outlets (fst s)) s1 s2"
    and ios: "sv_inlets (fst (server_sync_tunnels E s)) =
        synced server_wants_inlet tm_id model_inlet_description inlet_descr (server_create_inlet E) stop_inlet (sv_tunnels (fst s)) (sv_inlets (fst s)) s3 s4"
    by (rule server_sync_eq)
  have total: "fst (server_create_outlet E t w) \<noteq> None" for t w
    by (simp add: server_create_outlet_def start_outlet_total)
  show ?os unfolding os using server_outlets.after_sound [OF assms(1)] by blast
  show ?is unfolding ios using server_inlets.after_sound [OF assms(2)] by blast
  show ?oc unfolding os using server_outlets.after_complete total by blast
  show ?ik unfolding ios using server_inlets.after_keeps [OF assms(2)] by blast
qed

section \<open>Concrete servers\<close>

definition demo_model :: "u32 \<Rightarrow> u16 \<Rightarrow> tunnel_model" where
  "demo_model i port =
     \<lparr>tm_id = i, tm_source = show_socket_addr (V4 (Ipv4Addr 0 0 0 0) port), tm_endpoint = ''example.org:80'',
      tm_enabled = 1, tm_sender = 0, tm_receiver = 5, tm_description = [], tm_tunnel_type = 0,
      tm_password = [], tm_username = [], tm_is_compressed = 0, tm_custom_mapping = [],
      tm_encryption_method = ''None''\<rparr>"

definition demo_server :: "demo_db server" where
  "demo_server =
     (new_server ([demo_model 1 80, demo_model 2 81],
        [\<lparr>um_id = 5, um_username = ''u'', um_password = ''p'', um_create_time = 0\<rparr>]))
     \<lparr>sv_pstore := (\<lambda>_. \<lparr>pl_tx = Some 9, pl_player_id = 5, pl_session_id = 1\<rparr>), sv_next := 1, sv_players := [0],
      sv_player_map := [(5, 0)], sv_tunnels := [demo_model 1 80, demo_model 2 81]\<rparr>"

lemma demo_model_simps [simp]:
  "tm_id (demo_model i port) = i" "tm_receiver (demo_model i port) = 5" "tm_sender (demo_model i port) = 0"
  "parse_socket_addr (tm_source (demo_model i port)) = Some (V4 (Ipv4Addr 0 0 0 0) port)"
  by (simp_all only: demo_model_def tunnel_model.simps parse_show_socket_addr_v4)

lemma listening_demo [simp]: "listening (demo_model i port) = (5, Some port)"
  using port_of_v4 [of "tm_source (demo_model i port)"] by (simp add: listening_def)

lemma demo_server_ok: "mirrors demo_rows demo_server" "tunnels_ok demo_server"
  by (simp_all add: demo_server_def new_server_def mirrors_def tunnels_ok_def keyed_def)

lemma demo_senv_db [simp]: "db_io demo_senv = demo_db_ops"
  by (simp add: demo_senv_def)

theorem tunnels_mirror_database_witness:
  "demo_rows (sv_db (fst (run_ops demo_senv [DeleteT 1, AddT (demo_model 0 82)] (demo_server, init_world)))) =
     by_id (sv_tunnels (fst (run_ops demo_senv [DeleteT 1, AddT (demo_model 0 82)] (demo_server, init_world))))"
proof -
  have "tunnel_table (db_io demo_senv) demo_rows" by (simp add: demo_tunnel_table)
  from tunnels_mirror_database [OF this, of "(demo_server, init_world)" "[DeleteT 1, AddT (demo_model 0 82)]"]
  show ?thesis using demo_server_ok by (simp only: fst_conv)
qed


theorem update_notifies_participants_witness:
  "\<exists>dels. wqueue (snd (update_notifications demo_senv 5 7 (demo_model 1 80) (demo_server, init_world))) 9 =
      map (tunnel_ntf demo_senv (demo_model 1 80)) dels \<and> dels \<noteq> [] \<and> \<not> last dels"
proof -
  have "own_channel 5 9 (fst (demo_server, init_world))"
    by (auto simp: own_channel_def demo_server_def get_player_def split: if_splits)
  moreover have a: "alive (wchans (snd (demo_server, init_world)) 9)" "wqueue init_world 9 = []"
    by (simp_all add: init_world_def new_chan_def)
  ultimately obtain dels where
      "wqueue (snd (update_notifications demo_senv 5 7 (demo_model 1 80) (demo_server, init_world))) 9 =
        map (tunnel_ntf demo_senv (demo_model 1 80)) dels"
      "5 \<in> {tm_sender (demo_model 1 80), tm_receiver (demo_model 1 80)} \<longrightarrow> dels \<noteq> [] \<and> \<not> last dels"
    using update_notifies_participants [of 5 9 "(demo_server, init_world)" demo_senv 5 7 "demo_model 1 80"]
    unfolding snd_conv a(2) append_Nil by blast
  then show ?thesis by auto
qed


theorem add_player_keeps_names_unique_witness:
  "\<exists>s'. add_player demo_senv (\<lambda>_. 10000000) 0 ''v'' ''q'' (demo_server, init_world) = (Ok (0, []), s')
    \<and> player_contain 10000000 (fst s') \<and> unique_names (demo_users (sv_db (fst s')))"
proof -
  have v: "is_valid_username ''v''" "is_valid_password ''q''"
    by (simp_all add: is_valid_username_def is_valid_password_def is_ascii_nospace_def of_char_def)
  have free: "\<not> player_contain 10000000 demo_server"
    by (simp add: player_contain_def demo_server_def hm_contains_def)
  then have "pick_id (\<lambda>i. player_contain i demo_server) (\<lambda>_. 10000000) 0 = Some 10000000"
    by (simp add: pick_id.simps)
  moreover have "user_find_name demo_db_ops ''v'' (sv_db demo_server) = Inr None"
    by (simp add: demo_db_ops_def demo_server_def new_server_def without_def)
  ultimately obtain s' where s': "add_player demo_senv (\<lambda>_. 10000000) 0 ''v'' ''q'' (demo_server, init_world) = (Ok (0, []), s')"
    using v by (simp add: add_player_def io_result_def demo_db_ops_def demo_server_def new_server_def)
  have "unique_names (demo_users (sv_db demo_server))"
    by (simp add: unique_names_def demo_server_def new_server_def)
  with add_player_keeps_names_unique [OF _ s', of demo_users] demo_user_table s' show ?thesis by auto
qed

theorem deleted_player_still_known_witness:
  "\<exists>s'. delete_player demo_senv 5 (demo_server\<lparr>sv_tunnels := []\<rparr>, init_world) = (Ok (), s')
    \<and> player_id_detection (fst s') 5 = Ok ()"
proof -
  obtain s' where s': "delete_player demo_senv 5 (demo_server\<lparr>sv_tunnels := []\<rparr>, init_world) = (Ok (), s')"
    by (simp add: delete_player_def demo_db_ops_def demo_server_def new_server_def io_result_def)
  with deleted_player_still_known [OF s'] show ?thesis
    by (simp add: player_contain_def demo_server_def hm_contains_def)
qed

theorem server_sync_reconciles_witness:
  "hm_contains (sv_outlets (fst (server_sync_tunnels demo_senv (demo_server, init_world)))) 1"
proof -
  have "hm_wf (sv_outlets (fst (demo_server, init_world)))" "hm_wf (sv_inlets (fst (demo_server, init_world)))"
      "demo_model 1 80 \<in> set (sv_tunnels (fst (demo_server, init_world)))" "server_wants_outlet (demo_model 1 80)"
    by (simp_all add: demo_server_def new_server_def hm_wf_def demo_model_def)
  with server_sync_reconciles [of "(demo_server, init_world)" demo_senv] show ?thesis
    by (metis demo_model_simps(1))
qed

end
