(* ===== verification/Client.thy ===== *)
theory Client
  imports Endpoints Framing Message_Bridge
begin

text \<open>
  np\_client/src/client.rs: the client's side of the connection to the server. Its state are the
  player id, the tunnels it knows, and the outlets and inlets it runs; \<open>cl_wire\<close> are the buffers
  written to the server, \<open>write_io\<close> are the answers of the connection to a write.
\<close>

record client =
  cl_username :: string
  cl_password :: string
  cl_player_id :: u32
  cl_outlets :: "(u32, running_outlet) hmap"
  cl_inlets :: "(u32, running_inlet) hmap"
  cl_tunnels :: "(u32, tunnel) hmap"
  cl_wire :: "bytes list"

record client_env = endpoint_env +
  write_io :: "bytes \<Rightarrow> string + unit"

type_synonym client_state = "client \<times> world"

section \<open>Descriptions\<close>

definition fmt_point :: "tunnel_point option \<Rightarrow> string" where
  "fmt_point point = (case point of Some p \<Rightarrow> tunnel_point.addr p | None \<Rightarrow> ''none'')"

definition outlet_description :: "tunnel \<Rightarrow> string" where
  "outlet_description t =
     ''id:'' @ show_nat (unat (tunnel.tid t)) @ ''-sender:'' @ show_nat (unat (tunnel.sender t))
     @ ''-enabled:'' @ show_bool (tunnel.enabled t)"

definition inlet_description :: "tunnel \<Rightarrow> string" where
  "inlet_description t =
     ''id:'' @ show_nat (unat (tunnel.tid t))
     @ ''-source:'' @ fmt_point (tunnel.source t)
     @ ''-endpoint:'' @ fmt_point (tunnel.endpoint t)
     @ ''-sender:'' @ show_nat (unat (tunnel.sender t))
     @ ''-receiver:'' @ show_nat (unat (tunnel.receiver t))
     @ ''-tunnel_type:'' @ show_int (sint (tunnel.tunnel_type t))
     @ ''-username:'' @ tunnel.username t
     @ ''-password:'' @ tunnel.password t
     @ ''-enabled:'' @ show_bool (tunnel.enabled t)
     @ ''-is_compressed:'' @ show_bool (tunnel.is_compressed t)
     @ ''-encryption_method:'' @ tunnel.encryption_method t
     @ ''-custom_mapping:['' @ concat (map (\<lambda>(k, v). k @ '':'' @ v @ [CHR 0x0A]) (tunnel.custom_mapping t))
     @ '']''"

section \<open>Sending\<close>

definition client_package_and_send_message ::
  "client_env \<Rightarrow> prost \<Rightarrow> i32 \<Rightarrow> message_type \<Rightarrow> client_state \<Rightarrow> unit outcome \<times> client_state" where
  "client_package_and_send_message E P serial m s =
     (case package P serial m of
        Some buf \<Rightarrow>
          and_then (io_result (write_io E buf), s) (\<lambda>_ (c, w).
            (Ok (), (c\<lparr>cl_wire := cl_wire c @ [buf]\<rparr>, w)))
      | None \<Rightarrow> (Err ''Message id not found'', s))"

definition send_login :: "client_env \<Rightarrow> prost \<Rightarrow> client_state \<Rightarrow> unit outcome \<times> client_state" where
  "send_login E P s =
     client_package_and_send_message E P (- 1)
       (ClientServerLoginReq (login_req.make ''0.0.0'' (cl_username (fst s)) (cl_password (fst s)))) s"

text \<open>One round of \<open>ping_forever\<close>: nothing while there was traffic within five seconds.\<close>

definition ping_round :: "client_env \<Rightarrow> prost \<Rightarrow> nat \<Rightarrow> i64 \<Rightarrow> client_state \<Rightarrow> unit outcome \<times> client_state" where
  "ping_round E P elapsed now_millis s =
     (if elapsed < 5000 then (Ok (), s)
      else client_package_and_send_message E P (- 2) (GenericPing (ping.make now_millis)) s)"

definition client_send_proxy_message ::
  "client_env \<Rightarrow> prost \<Rightarrow> u32 \<Rightarrow> u32 \<Rightarrow> u32 \<Rightarrow> proxy_message \<Rightarrow> client_state \<Rightarrow> client_state" where
  "client_send_proxy_message E P self_id pid tun m s =
     (if self_id = pid then
        (if is_i2o_message m then
           (case hm_get (cl_outlets (fst s)) tun of
              Some ob \<Rightarrow> (fst s, snd (outlet_input m (ro_outlet ob, snd s)))
            | None \<Rightarrow> s)
         else
           (case hm_get (cl_inlets (fst s)) tun of
              Some i \<Rightarrow> (fst s, snd (inlet_input m (ri_inlet i, snd s)))
            | None \<Rightarrow> s))
      else
        (let pb = proxy_message_2_pb m tun in
         if \<not> message_is_none pb then snd (client_package_and_send_message E P 0 pb s) else s))"

text \<open>The closures that \<open>sync_tunnels\<close> gives to an outlet and to an inlet.\<close>

definition outlet_output :: "client_env \<Rightarrow> prost \<Rightarrow> route \<Rightarrow> proxy_message \<Rightarrow> client_state \<Rightarrow> client_state" where
  "outlet_output E P rt m s =
     (if this_machine rt then
        (case hm_get (cl_inlets (fst s)) (route_tunnel rt) of
           Some i \<Rightarrow> (fst s, snd (inlet_input m (ri_inlet i, snd s)))
         | None \<Rightarrow> s)
      else client_send_proxy_message E P (self_player_id rt) (peer_player_id rt) (route_tunnel rt) m s)"

definition inlet_output :: "client_env \<Rightarrow> prost \<Rightarrow> route \<Rightarrow> proxy_message \<Rightarrow> client_state \<Rightarrow> client_state" where
  "inlet_output E P rt m s =
     (if this_machine rt then
        (case hm_get (cl_outlets (fst s)) (route_tunnel rt) of
           Some ob \<Rightarrow> (fst s, snd (outlet_input m (ro_outlet ob, snd s)))
         | None \<Rightarrow> s)
      else client_send_proxy_message E P (self_player_id rt) (peer_player_id rt) (route_tunnel rt) m s)"

section \<open>Synchronising tunnels\<close>

definition create_outlet :: "client_env \<Rightarrow> u32 \<Rightarrow> tunnel \<Rightarrow> world \<Rightarrow> running_outlet option \<times> world" where
  "create_outlet E me t =
     start_outlet E (tunnel.tid t) (outlet_description t)
       \<lparr>this_machine = (tunnel.receiver t = tunnel.sender t), self_player_id = me,
        peer_player_id = tunnel.receiver t, route_tunnel = tunnel.tid t\<rparr>"

definition inlet_config_of :: "inlet_proxy_type \<Rightarrow> tunnel \<Rightarrow> inlet_config" where
  "inlet_config_of proxy_type t =
     \<lparr>cfg_type = proxy_type,
      cfg_listen_addr = (case tunnel.source t of Some x \<Rightarrow> tunnel_point.addr x | None \<Rightarrow> []),
      cfg_output_addr = (case tunnel.endpoint t of Some x \<Rightarrow> tunnel_point.addr x | None \<Rightarrow> []),
      cfg_is_compressed = tunnel.is_compressed t,
      cfg_encryption_method = tunnel.encryption_method t,
      cfg_data_ex = inlet_data_ex.make (tunnel.username t) (tunnel.password t)\<rparr>"

definition create_inlet :: "client_env \<Rightarrow> u32 \<Rightarrow> tunnel \<Rightarrow> world \<Rightarrow> running_inlet option \<times> world" where
  "create_inlet E me t w =
     (case from_u32 (tunnel.tunnel_type t) of
        Some proxy_type \<Rightarrow>
          start_inlet E (tunnel.tid t) (inlet_description t)
            \<lparr>this_machine = (tunnel.receiver t = tunnel.sender t), self_player_id = me,
             peer_player_id = tunnel.sender t, route_tunnel = tunnel.tid t\<rparr>
            (inlet_config_of proxy_type t) w
      | None \<Rightarrow> (None, w))"

abbreviation wants_outlet :: "u32 \<Rightarrow> tunnel \<Rightarrow> bool" where
  "wants_outlet me t \<equiv> tunnel.enabled t \<and> tunnel.sender t = me"

abbreviation wants_inlet :: "u32 \<Rightarrow> tunnel \<Rightarrow> bool" where
  "wants_inlet me t \<equiv> tunnel.enabled t \<and> tunnel.receiver t = me"

definition client_sync_tunnels :: "client_env \<Rightarrow> tunnel list \<Rightarrow> client_state \<Rightarrow> client_state" where
  "client_sync_tunnels E ts s =
     (let c = fst s; me = cl_player_id c in
      case sync_endpoints tunnel.tid (wants_outlet me) outlet_description (create_outlet E me)
             (wants_inlet me) inlet_description (create_inlet E me) ts (cl_outlets c) (cl_inlets c) (snd s) of
        (os, is, w) \<Rightarrow> (c\<lparr>cl_outlets := os, cl_inlets := is\<rparr>, w))"

section \<open>Receiving\<close>

definition on_server_client_modify_tunnel_ntf ::
  "client_env \<Rightarrow> modify_tunnel_ntf \<Rightarrow> client_state \<Rightarrow> client_state" where
  "on_server_client_modify_tunnel_ntf E msg s =
     (case modify_tunnel_ntf.tunnel_opt msg of
        Some t \<Rightarrow>
          (let c = (fst s)\<lparr>cl_tunnels := hm_remove (tunnel.tid t) (cl_tunnels (fst s))\<rparr> in
           if modify_tunnel_ntf.is_delete msg then (c, snd s)
           else
             (let c = c\<lparr>cl_tunnels := hm_insert (tunnel.tid t) t (cl_tunnels c)\<rparr> in
              client_sync_tunnels E (map snd (cl_tunnels c)) (c, snd s)))
      | None \<Rightarrow> s)"

definition client_handle_push ::
  "client_env \<Rightarrow> prost \<Rightarrow> message_type \<Rightarrow> client_state \<Rightarrow> unit outcome \<times> client_state" where
  "client_handle_push E P m s =
     (case m of
        ServerClientModifyTunnelNtf msg \<Rightarrow> (Ok (), on_server_client_modify_tunnel_ntf E msg s)
      | _ \<Rightarrow>
          (case pb_2_proxy_message m of
             Some (pm, tun) \<Rightarrow>
               (case hm_get (cl_tunnels (fst s)) tun of
                  Some t \<Rightarrow>
                    (Ok (), client_send_proxy_message E P (cl_player_id (fst s))
                      (if is_i2o_message pm then tunnel.sender t else tunnel.receiver t)
                      (tunnel.tid t) pm s)
                | None \<Rightarrow> (Ok (), s))
           | None \<Rightarrow> (Ok (), s)))"

definition client_handle_message ::
  "client_env \<Rightarrow> prost \<Rightarrow> i32 \<Rightarrow> message_type \<Rightarrow> client_state \<Rightarrow> unit outcome \<times> client_state" where
  "client_handle_message E P serial m s =
     (if cl_player_id (fst s) = 0 then
        (if sint serial > 0 then
           (case m of
              ServerClientLoginAck msg \<Rightarrow>
                (case client_sync_tunnels E (login_ack.tunnel_list msg)
                        ((fst s)\<lparr>cl_player_id := login_ack.player_id msg\<rparr>, snd s) of
                   (c, w) \<Rightarrow>
                     (Ok (), (c\<lparr>cl_tunnels := fold (\<lambda>t. hm_insert (tunnel.tid t) t)
                                  (login_ack.tunnel_list msg) []\<rparr>, w)))
            | GenericError err \<Rightarrow>
                (Err (''Login failed: '' @ error.message err @ '', code: '' @ show_int (sint (error.number err))), s)
            | _ \<Rightarrow> (Err ''Login failed, received unknown message'', s))
         else (Err ''Login failed'', s))
      else if serial = 0 then client_handle_push E P m s
      else (Ok (), s))"

definition client_on_recv_frame ::
  "client_env \<Rightarrow> prost \<Rightarrow> bytes \<Rightarrow> client_state \<Rightarrow> unit outcome \<times> client_state" where
  "client_on_recv_frame E P frame s =
     (if length frame < 8 then (Err ''message length is too small'', s)
      else
        (let serial = read_u32 (take 4 frame); msg_id = read_u32 (take 4 (drop 4 frame)) in
         and_then (decode_message P msg_id (drop 8 frame), s) (\<lambda>m s. client_handle_message E P serial m s)))"

text \<open>
  The \<open>select!\<close> of \<open>run_client\<close>: reads of the connection and rounds of \<open>ping_forever\<close> in any order,
  until one of the two tasks returns. The handlers of the client never wait, so a pending receive
  loop waits for the next read.
\<close>

datatype client_event = ReadEvent "string + bytes" | PingEvent nat i64

fun client_select :: "client_env \<Rightarrow> prost \<Rightarrow> client_event list \<Rightarrow> bytes \<Rightarrow> client_state \<Rightarrow>
    (unit outcome \<times> client_state) option" where
  "client_select E P [] buf s = Some (Pending, s)"
| "client_select E P (ReadEvent r # es) buf s =
     (case client_run (client_on_recv_frame E P) [r] buf s of
        None \<Rightarrow> None
      | Some (Pending, (buf, s)) \<Rightarrow> client_select E P es buf s
      | Some (result, (buf, s)) \<Rightarrow> Some (result, s))"
| "client_select E P (PingEvent elapsed now # es) buf s =
     (case ping_round E P elapsed now s of
        (Ok _, s) \<Rightarrow> client_select E P es buf s
      | (result, s) \<Rightarrow> Some (result, s))"

definition new_client :: "string \<Rightarrow> string \<Rightarrow> client" where
  "new_client name pass =
     \<lparr>cl_username = name, cl_password = pass, cl_player_id = 0, cl_outlets = [], cl_inlets = [],
      cl_tunnels = [], cl_wire = []\<rparr>"

definition run_client ::
  "client_env \<Rightarrow> prost \<Rightarrow> string \<Rightarrow> string \<Rightarrow> client_event list \<Rightarrow> world \<Rightarrow>
   (unit outcome \<times> client_state) option" where
  "run_client E P name pass es w =
     (case send_login E P (new_client name pass, w) of
        (Ok _, s) \<Rightarrow>
          (case client_select E P es [] s of
             None \<Rightarrow> None
           | Some (Pending, s) \<Rightarrow> Some (Pending, s)
           | Some (Panic, s) \<Rightarrow> Some (Panic, s)
           | Some (result, s) \<Rightarrow> Some (result, client_sync_tunnels E [] s))
      | (r, s) \<Rightarrow> Some (r, s))"

end
