(* ===== verification/Client_Props.thy ===== *)
theory Client_Props
  imports Client
begin

text \<open>
  Properties of the client: the two halves of \<open>sync_tunnels\<close> are instances of the interface \<open>sync\<close>,
  so that after it exactly the wanted outlets and inlets run and unchanged ones are the same objects;
  the gate of the login; the delivery of proxied messages; and that a client that ends stops
  everything it runs. Two divergences are stated as the code has them.
\<close>

lemma create_outlet_Some:
  "create_outlet E me t w = (Some ob, w') \<Longrightarrow>
     outlet_descr ob = outlet_description t \<and> peer_player_id (ro_route ob) = tunnel.receiver t
     \<and> route_tunnel (ro_route ob) = tunnel.tid t"
  by (auto simp: create_outlet_def dest!: start_outlet_Some)

lemma create_outlet_total: "fst (create_outlet E me t w) \<noteq> None"
  by (simp add: create_outlet_def start_outlet_total)

lemma create_inlet_Some:
  "create_inlet E me t w = (Some i, w') \<Longrightarrow>
     inlet_descr i = inlet_description t \<and> route_tunnel (ri_route i) = tunnel.tid t \<and>
     (\<exists>p. from_u32 (tunnel.tunnel_type t) = Some p \<and> ri_config i = inlet_config_of p t)"
  by (auto simp: create_inlet_def split: option.splits dest!: start_inlet_Some)

lemma create_inlet_total:
  assumes "from_u32 (tunnel.tunnel_type t) = Some p"
    and "bind_io E p (cfg_listen_addr (inlet_config_of p t)) = Inr ()"
  shows "fst (create_inlet E me t w) \<noteq> None"
  using assms by (simp add: create_inlet_def start_inlet_total inlet_config_of_def)

interpretation outlets: sync "wants_outlet me" tunnel.tid outlet_description outlet_descr "create_outlet E me"
  for me E
  by unfold_locales (use create_outlet_Some in blast)

interpretation inlets: sync "wants_inlet me" tunnel.tid inlet_description inlet_descr "create_inlet E me"
  for me E
  by unfold_locales (use create_inlet_Some in blast)

lemma client_sync_tunnels_eq:
  "\<exists>s1 s2 s3 s4 w'. client_sync_tunnels E ts (c, w) =
     (c\<lparr>cl_outlets := outlets.after (cl_player_id c) E stop_outlet ts (cl_outlets c) s1 s2,
        cl_inlets := inlets.after (cl_player_id c) E stop_inlet ts (cl_inlets c) s3 s4\<rparr>, w')"
  using sync_endpoints_eq [of tunnel.tid "wants_outlet (cl_player_id c)" outlet_description
      "create_outlet E (cl_player_id c)" "wants_inlet (cl_player_id c)" inlet_description
      "create_inlet E (cl_player_id c)" ts "cl_outlets c" "cl_inlets c" w]
  by (fastforce simp: client_sync_tunnels_def Let_def)

text \<open>What the client keeps: maps with distinct keys, filed under the tunnel they belong to.\<close>

definition client_wf :: "client \<Rightarrow> bool" where
  "client_wf c =
     (hm_wf (cl_outlets c) \<and> hm_wf (cl_inlets c) \<and> hm_wf (cl_tunnels c)
      \<and> list_all (\<lambda>(k, ob). route_tunnel (ro_route ob) = k) (cl_outlets c)
      \<and> list_all (\<lambda>(k, i). route_tunnel (ri_route i) = k) (cl_inlets c)
      \<and> list_all (\<lambda>(k, t). tunnel.tid t = k) (cl_tunnels c))"

lemma client_wf_wire [simp]: "client_wf (c\<lparr>cl_wire := x\<rparr>) = client_wf c"
  and client_wf_player [simp]: "client_wf (c\<lparr>cl_player_id := p\<rparr>) = client_wf c"
  by (simp_all add: client_wf_def)

lemma client_sync_tunnels_wf:
  assumes "client_wf c"
  shows "client_wf (fst (client_sync_tunnels E ts (c, w)))"
proof -
  obtain s1 s2 s3 s4 w' where
      e: "client_sync_tunnels E ts (c, w) =
       (c\<lparr>cl_outlets := outlets.after (cl_player_id c) E stop_outlet ts (cl_outlets c) s1 s2,
          cl_inlets := inlets.after (cl_player_id c) E stop_inlet ts (cl_inlets c) s3 s4\<rparr>, w')"
      (is "_ = (c\<lparr>cl_outlets := ?o, cl_inlets := ?i\<rparr>, w')")
    using client_sync_tunnels_eq by blast
  have wf: "hm_wf (cl_outlets c)" "hm_wf (cl_inlets c)" "hm_wf (cl_tunnels c)"
    using assms by (simp_all add: client_wf_def)
  have "hm_get ?o k = Some ob \<Longrightarrow> route_tunnel (ro_route ob) = k" for k ob
    using assms wf create_outlet_Some
    by (elim outlets.after_all [rotated 3]) (auto simp: client_wf_def hm_all_iff)
  moreover have "hm_get ?i k = Some i \<Longrightarrow> route_tunnel (ri_route i) = k" for k i
    using assms wf create_inlet_Some
    by (elim inlets.after_all [rotated 3]) (auto simp: client_wf_def hm_all_iff)
  ultimately show ?thesis
    using assms wf outlets.after_wf inlets.after_wf by (simp add: e client_wf_def hm_all_iff)
qed

lemma client_wf_tunnels:
  "client_wf c \<Longrightarrow> client_wf (c\<lparr>cl_tunnels := hm_remove k (cl_tunnels c)\<rparr>)"
  "client_wf c \<Longrightarrow> client_wf (c\<lparr>cl_tunnels := hm_insert (tunnel.tid t) t (cl_tunnels c)\<rparr>)"
  "client_wf c \<Longrightarrow> client_wf (c\<lparr>cl_tunnels := hm_insert (tunnel.tid t) t (hm_remove k (cl_tunnels c))\<rparr>)"
  by (auto simp: client_wf_def hm_all_iff hm.wf_ins hm.wf_rem split: if_splits)

text \<open>
  C12: After \<open>sync_tunnels\<close> every outlet and inlet belongs to an enabled tunnel of the list that names
  this player, with the description of that tunnel; every such tunnel has its outlet, and its inlet
  if its type is known and the address can be bound; and an object whose tunnel still has its
  description is the same object as before, so its sessions go on.
\<close>

theorem sync_tunnels_reconciles:
  assumes "hm_wf (cl_outlets c)" and "hm_wf (cl_inlets c)"
    and "client_sync_tunnels E ts (c, w) = (c', w')" and "me = cl_player_id c"
  shows "(hm_wf (cl_outlets c') \<and> hm_wf (cl_inlets c'))
    \<and> (\<forall>k ob. hm_get (cl_outlets c') k = Some ob \<longrightarrow>
      (\<exists>t \<in> set ts. k = tunnel.tid t \<and> wants_outlet me t \<and> outlet_description t = outlet_descr ob))
    \<and> (\<forall>k i. hm_get (cl_inlets c') k = Some i \<longrightarrow>
      (\<exists>t \<in> set ts. k = tunnel.tid t \<and> wants_inlet me t \<and> inlet_description t = inlet_descr i))
    \<and> (\<forall>t \<in> set ts. wants_outlet me t \<longrightarrow> hm_contains (cl_outlets c') (tunnel.tid t))
    \<and> (\<forall>t \<in> set ts. \<forall>p. wants_inlet me t \<and> from_u32 (tunnel.tunnel_type t) = Some p \<and>
      bind_io E p (cfg_listen_addr (inlet_config_of p t)) = Inr () \<longrightarrow>
      hm_contains (cl_inlets c') (tunnel.tid t))
    \<and> (\<forall>t \<in> set ts. \<forall>ob. hm_get (cl_outlets c) (tunnel.tid t) = Some ob \<and> wants_outlet me t \<and>
      outlet_description t = outlet_descr ob \<longrightarrow> hm_get (cl_outlets c') (tunnel.tid t) = Some ob)
    \<and> (\<forall>t \<in> set ts. \<forall>i. hm_get (cl_inlets c) (tunnel.tid t) = Some i \<and> wants_inlet me t \<and>
      inlet_description t = inlet_descr i \<longrightarrow> hm_get (cl_inlets c') (tunnel.tid t) = Some i)"
  (is "?wf \<and> ?os \<and> ?is \<and> ?oc \<and> ?ic \<and> ?ok \<and> ?ik")
proof (intro conjI)
  obtain s1 s2 s3 s4 where
      os: "cl_outlets c' = outlets.after me E stop_outlet ts (cl_outlets c) s1 s2"
    and ios: "cl_inlets c' = inlets.after me E stop_inlet ts (cl_inlets c) s3 s4"
    using client_sync_tunnels_eq [of E ts c w] assms(3,4) by fastforce
  show "hm_wf (cl_outlets c')" and "hm_wf (cl_inlets c')"
    unfolding os ios using assms outlets.after_wf inlets.after_wf by blast+
  show ?os unfolding os using outlets.after_sound [OF assms(1)] by blast
  show ?is unfolding ios using inlets.after_sound [OF assms(2)] by blast
  show ?oc unfolding os using outlets.after_complete create_outlet_total by blast
  show ?ic unfolding ios using inlets.after_complete create_inlet_total by blast
  show ?ok unfolding os using outlets.after_keeps [OF assms(1)] by blast
  show ?ik unfolding ios using inlets.after_keeps [OF assms(2)] by blast
qed

section \<open>Receiving\<close>

lemma client_package_wf: "client_wf (fst s) \<Longrightarrow> client_wf (fst (snd (client_package_and_send_message E P n m s)))"
  by (auto simp: client_package_and_send_message_def and_then_proj case_prod_beta
      split: option.splits outcome.splits)

lemma client_send_proxy_wf:
  "client_wf (fst s) \<Longrightarrow> client_wf (fst (client_send_proxy_message E P me pid tun m s))"
  by (auto simp: client_send_proxy_message_def client_package_wf Let_def split: option.splits)

lemma client_push_wf: "client_wf (fst s) \<Longrightarrow> client_wf (fst (snd (client_handle_push E P m s)))"
proof (cases "\<exists>msg. m = ServerClientModifyTunnelNtf msg")
  case True
  assume "client_wf (fst s)"
  with True show ?thesis
    by (auto simp: client_handle_push_def on_server_client_modify_tunnel_ntf_def Let_def
        client_sync_tunnels_wf client_wf_tunnels split: option.splits)
next
  case False
  assume "client_wf (fst s)"
  with False show ?thesis
    by (auto simp: client_handle_push_def client_send_proxy_wf split: message_type.splits option.splits)
qed

lemma login_tunnels_wf:
  "client_wf c \<Longrightarrow> client_wf (c\<lparr>cl_tunnels := fold (\<lambda>t. hm_insert (tunnel.tid t) t) ts []\<rparr>)"
proof -
  assume "client_wf c"
  then have "client_wf (c\<lparr>cl_tunnels := []\<rparr>)" by (simp add: client_wf_def hm_wf_def)
  moreover have "client_wf (c\<lparr>cl_tunnels := m\<rparr>) \<Longrightarrow>
      client_wf (c\<lparr>cl_tunnels := fold (\<lambda>t. hm_insert (tunnel.tid t) t) ts m\<rparr>)" for m
  proof (induction ts arbitrary: m)
    case (Cons t ts)
    from client_wf_tunnels(2) [OF Cons.prems, of t] Cons.IH show ?case by simp
  qed simp
  ultimately show ?thesis by blast
qed

lemma client_handle_message_wf:
  "client_wf (fst s) \<Longrightarrow> client_wf (fst (snd (client_handle_message E P n m s)))"
  using client_sync_tunnels_wf [of "(fst s)\<lparr>cl_player_id := _\<rparr>" E _ "snd s"]
  by (auto simp: client_handle_message_def client_push_wf login_tunnels_wf case_prod_beta
      split: message_type.splits)

lemma client_on_recv_frame_wf:
  "client_wf (fst s) \<Longrightarrow> client_wf (fst (snd (client_on_recv_frame E P f s)))"
  by (auto simp: client_on_recv_frame_def Let_def and_then_proj client_handle_message_wf split: outcome.splits)

lemma client_on_recv_frame_returns: "fst (client_on_recv_frame E P f s) \<notin> {Panic, Pending}"
  by (auto simp: client_on_recv_frame_def client_handle_message_def client_handle_push_def Let_def
      fst_and_then case_prod_beta decode_message_total
      split: outcome.splits message_type.splits option.splits prod.splits)

lemma client_sync_nothing:
  assumes "client_wf c"
  shows "cl_outlets (fst (client_sync_tunnels E [] (c, w))) = []
    \<and> cl_inlets (fst (client_sync_tunnels E [] (c, w))) = []"
proof -
  have wf: "hm_wf (cl_outlets c)" "hm_wf (cl_inlets c)" using assms by (simp_all add: client_wf_def)
  obtain s1 s2 s3 s4 where
      e: "cl_outlets (fst (client_sync_tunnels E [] (c, w))) =
        outlets.after (cl_player_id c) E stop_outlet [] (cl_outlets c) s1 s2"
      "cl_inlets (fst (client_sync_tunnels E [] (c, w))) =
        inlets.after (cl_player_id c) E stop_inlet [] (cl_inlets c) s3 s4"
    using client_sync_tunnels_eq [of E "[]" c w] by fastforce
  show ?thesis unfolding e using wf by (simp add: outlets.after_nothing inlets.after_nothing)
qed

lemma ping_round_wf:
  "client_wf (fst s) \<Longrightarrow> client_wf (fst (snd (ping_round E P elapsed now s))) \<and> fst (ping_round E P elapsed now s) \<noteq> Panic"
  by (auto simp: ping_round_def client_package_wf)
    (auto simp: client_package_and_send_message_def io_result_def fst_and_then case_prod_beta
       split: if_splits option.splits sum.splits outcome.splits)

lemma client_select_inv:
  "client_wf (fst s) \<Longrightarrow> \<exists>r s'. client_select E P es buf s = Some (r, s') \<and> client_wf (fst s') \<and> r \<noteq> Panic"
proof (induction E P es buf s rule: client_select.induct)
  case (2 E P rd es buf s)
  obtain r b s1 where run: "client_run (client_on_recv_frame E P) [rd] buf s = Some (r, (b, s1))"
    using client_run_total by (metis prod_cases3)
  with client_run_inv [where I = "\<lambda>s. client_wf (fst s)", OF _ run "2.prems"]
  have "client_wf (fst s1)" and "r \<noteq> Panic"
    using client_on_recv_frame_wf client_on_recv_frame_returns by blast+
  with 2 run show ?case by (cases r) auto
next
  case (3 E P elapsed now es buf s)
  obtain r s1 where ping: "ping_round E P elapsed now s = (r, s1)" by (rule prod.exhaust)
  with ping_round_wf [OF "3.prems", of E P elapsed now] have "client_wf (fst s1)" and "r \<noteq> Panic" by auto
  with 3 ping show ?case by (cases r) auto
qed simp

text \<open>
  \<open>run_client\<close> never panics and always returns or waits for the server, whatever is read and
  whenever a ping fails; the maps it keeps stay well formed; and once it has returned no outlet and
  no inlet of it runs.
\<close>

lemma run_client_returns:
  "\<exists>r s'. run_client E P name pass es w = Some (r, s') \<and> client_wf (fst s') \<and> r \<noteq> Panic
    \<and> (r = Pending \<or> cl_outlets (fst s') = [] \<and> cl_inlets (fst s') = [])"
proof -
  obtain r0 s0 where login: "send_login E P (new_client name pass, w) = (r0, s0)" by (rule prod.exhaust)
  then have s0: "client_wf (fst s0)" "cl_outlets (fst s0) = []" "cl_inlets (fst s0) = []"
    and r0: "r0 \<noteq> Panic" "r0 \<noteq> Pending"
    by (auto simp: send_login_def client_package_and_send_message_def new_client_def client_wf_def
        hm_wf_def io_result_def split: option.splits sum.splits)
  show ?thesis
  proof (cases "is_Ok r0")
    case False
    with login s0 r0 show ?thesis by (cases r0) (auto simp: run_client_def)
  next
    case True
    then obtain u where u: "r0 = Ok u" by (auto simp: is_Ok_iff)
    obtain r s' where sel: "client_select E P es [] s0 = Some (r, s')" and s': "client_wf (fst s')" "r \<noteq> Panic"
      using client_select_inv [OF s0(1)] by blast
    show ?thesis
      using login u sel s' client_sync_nothing [OF s'(1), of E "snd s'"]
        client_sync_tunnels_wf [OF s'(1), of E "[]" "snd s'"]
      by (cases r) (simp_all add: run_client_def)
  qed
qed

fun is_login_ack :: "message_type \<Rightarrow> bool" where
  "is_login_ack (ServerClientLoginAck _) = True"
| "is_login_ack _ = False"

lemma fold_insert_tunnels:
  "hm_get (fold (\<lambda>t. hm_insert (tunnel.tid t) t) ts m) k =
     (case find (\<lambda>t. tunnel.tid t = k) (rev ts) of Some t \<Rightarrow> Some t | None \<Rightarrow> hm_get m k)"
proof (induction ts rule: rev_induct)
  case (snoc t ts)
  then show ?case by (simp add: fold_append)
qed simp

text \<open>
  The login gate. As long as no player id was assigned, every message but a login
  acknowledgement with a positive serial ends the client with an error and changes nothing; the
  acknowledgement sets the player id and the tunnels, the last one for each id; afterwards only
  pushed messages (serial zero) have an effect.
\<close>

theorem client_login_gate:
  "(cl_player_id (fst s) = 0 \<and> (sint serial \<le> 0 \<or> \<not> is_login_ack m) \<longrightarrow>
      (\<exists>e. client_handle_message E P serial m s = (Err e, s)))
    \<and> (cl_player_id (fst s) = 0 \<and> 0 < sint serial \<longrightarrow>
      (\<exists>s'. client_handle_message E P serial (ServerClientLoginAck ack) s = (Ok (), s')
        \<and> cl_player_id (fst s') = login_ack.player_id ack \<and> cl_wire (fst s') = cl_wire (fst s)
        \<and> (\<forall>k. hm_get (cl_tunnels (fst s')) k =
            find (\<lambda>t. tunnel.tid t = k) (rev (login_ack.tunnel_list ack)))))
    \<and> (cl_player_id (fst s) \<noteq> 0 \<and> serial \<noteq> 0 \<longrightarrow> client_handle_message E P serial m s = (Ok (), s))"
proof (intro conjI impI)
  assume "cl_player_id (fst s) = 0 \<and> (sint serial \<le> 0 \<or> \<not> is_login_ack m)"
  then show "\<exists>e. client_handle_message E P serial m s = (Err e, s)"
    by (cases m) (auto simp: client_handle_message_def)
next
  assume a: "cl_player_id (fst s) = 0 \<and> 0 < sint serial"
  obtain c w where sync: "client_sync_tunnels E (login_ack.tunnel_list ack)
      ((fst s)\<lparr>cl_player_id := login_ack.player_id ack\<rparr>, snd s) = (c, w)"
    and c: "cl_player_id c = login_ack.player_id ack" "cl_wire c = cl_wire (fst s)"
    using client_sync_tunnels_eq [of E "login_ack.tunnel_list ack"
      "(fst s)\<lparr>cl_player_id := login_ack.player_id ack\<rparr>" "snd s"] by fastforce
  with a show "\<exists>s'. client_handle_message E P serial (ServerClientLoginAck ack) s = (Ok (), s')
        \<and> cl_player_id (fst s') = login_ack.player_id ack \<and> cl_wire (fst s') = cl_wire (fst s)
        \<and> (\<forall>k. hm_get (cl_tunnels (fst s')) k =
            find (\<lambda>t. tunnel.tid t = k) (rev (login_ack.tunnel_list ack)))"
    by (simp add: client_handle_message_def fold_insert_tunnels split: option.splits)
qed (simp add: client_handle_message_def)

section \<open>Notifications about tunnels\<close>

lemma client_sync_gone:
  assumes "client_wf c" and "\<forall>t \<in> set ts. tunnel.tid t \<noteq> k"
  shows "hm_get (cl_outlets (fst (client_sync_tunnels E ts (c, w)))) k = None
    \<and> hm_get (cl_inlets (fst (client_sync_tunnels E ts (c, w)))) k = None"
proof -
  have wf: "hm_wf (cl_outlets c)" "hm_wf (cl_inlets c)" using assms by (simp_all add: client_wf_def)
  obtain s1 s2 s3 s4 where
      e: "cl_outlets (fst (client_sync_tunnels E ts (c, w))) =
        outlets.after (cl_player_id c) E stop_outlet ts (cl_outlets c) s1 s2"
      "cl_inlets (fst (client_sync_tunnels E ts (c, w))) =
        inlets.after (cl_player_id c) E stop_inlet ts (cl_inlets c) s3 s4"
    using client_sync_tunnels_eq [of E ts c w] by fastforce
  show ?thesis
    unfolding e using assms(2) outlets.after_gone [OF wf(1)] inlets.after_gone [OF wf(2)] by blast
qed

lemma tunnel_values_tid:
  assumes "client_wf c" and "t \<in> set (map snd (cl_tunnels c))"
  shows "hm_get (cl_tunnels c) (tunnel.tid t) = Some t"
  using assms by (auto simp: client_wf_def hm_wf_def list_all_iff intro: map_of_is_SomeI)

lemma modify_ntf_update:
  assumes "modify_tunnel_ntf.tunnel_opt msg = Some u" and "\<not> modify_tunnel_ntf.is_delete msg"
    and "c' = c\<lparr>cl_tunnels := hm_insert (tunnel.tid u) u (hm_remove (tunnel.tid u) (cl_tunnels c))\<rparr>"
  shows "on_server_client_modify_tunnel_ntf E msg (c, w) =
    client_sync_tunnels E (map snd (cl_tunnels c')) (c', w)"
  using assms by (simp add: on_server_client_modify_tunnel_ntf_def Let_def)

text \<open>
  C37: A deletion only makes the client forget the tunnel: its outlet and inlet go on running with
  their channels open, while messages pushed for it are ignored. They are stopped by the next
  notification that is not a deletion, of whatever other tunnel.
\<close>

theorem deletion_stops_late:
  assumes "client_wf c" and "modify_tunnel_ntf.tunnel_opt msg = Some t" and "modify_tunnel_ntf.is_delete msg"
  shows "\<exists>c'. on_server_client_modify_tunnel_ntf E msg (c, w) = (c', w)
    \<and> cl_outlets c' = cl_outlets c \<and> cl_inlets c' = cl_inlets c
    \<and> (\<forall>pb pm. pb_2_proxy_message pb = Some (pm, tunnel.tid t) \<longrightarrow>
        client_handle_push E P pb (c', w) = (Ok (), (c', w)))
    \<and> (\<forall>ntf u. modify_tunnel_ntf.tunnel_opt ntf = Some u \<and> \<not> modify_tunnel_ntf.is_delete ntf \<and>
        tunnel.tid u \<noteq> tunnel.tid t \<longrightarrow>
        hm_get (cl_outlets (fst (on_server_client_modify_tunnel_ntf E ntf (c', w)))) (tunnel.tid t) = None
        \<and> hm_get (cl_inlets (fst (on_server_client_modify_tunnel_ntf E ntf (c', w)))) (tunnel.tid t) = None)"
proof (intro exI conjI allI impI)
  let ?c = "c\<lparr>cl_tunnels := hm_remove (tunnel.tid t) (cl_tunnels c)\<rparr>"
  show "on_server_client_modify_tunnel_ntf E msg (c, w) = (?c, w)"
    using assms by (simp add: on_server_client_modify_tunnel_ntf_def)
  show "client_handle_push E P pb (?c, w) = (Ok (), (?c, w))"
    if "pb_2_proxy_message pb = Some (pm, tunnel.tid t)" for pb pm
    using that by (cases pb) (simp_all add: client_handle_push_def)
  fix ntf :: modify_tunnel_ntf and u
  assume u: "modify_tunnel_ntf.tunnel_opt ntf = Some u \<and> \<not> modify_tunnel_ntf.is_delete ntf \<and>
    tunnel.tid u \<noteq> tunnel.tid t"
  let ?d = "?c\<lparr>cl_tunnels := hm_insert (tunnel.tid u) u (hm_remove (tunnel.tid u) (cl_tunnels ?c))\<rparr>"
  have wf: "client_wf ?d" using assms(1) by (intro client_wf_tunnels)
  have "tunnel.tid v \<noteq> tunnel.tid t" if "v \<in> set (map snd (cl_tunnels ?d))" for v
    using tunnel_values_tid [OF wf that] u by auto
  then show "hm_get (cl_outlets (fst (on_server_client_modify_tunnel_ntf E ntf (?c, w)))) (tunnel.tid t) = None"
    and "hm_get (cl_inlets (fst (on_server_client_modify_tunnel_ntf E ntf (?c, w)))) (tunnel.tid t) = None"
    using client_sync_gone [OF wf] modify_ntf_update [of ntf u ?d ?c E w] u by auto
qed simp_all

text \<open>
  The description of an outlet does not mention the receiver of its tunnel. When a tunnel within
  one machine is given another receiver, the outlet is kept with the closure that answers on the same
  machine, where the inlet is stopped: everything the outlet puts out is dropped.
\<close>

theorem moved_receiver_loses_answers:
  assumes "client_wf c" and "hm_get (cl_outlets c) (tunnel.tid t) = Some ob"
    and "outlet_descr ob = outlet_description t" and "this_machine (ro_route ob)"
    and "wants_outlet (cl_player_id c) t" and "r \<noteq> cl_player_id c"
    and "modify_tunnel_ntf.tunnel_opt msg = Some (t\<lparr>tunnel.receiver := r\<rparr>)" and "\<not> modify_tunnel_ntf.is_delete msg"
    and "on_server_client_modify_tunnel_ntf E msg (c, w) = s'"
  shows "hm_get (cl_outlets (fst s')) (tunnel.tid t) = Some ob
    \<and> hm_get (cl_inlets (fst s')) (tunnel.tid t) = None
    \<and> (\<forall>m. outlet_output E P (ro_route ob) m s' = s')"
proof -
  let ?u = "t\<lparr>tunnel.receiver := r\<rparr>"
  let ?c = "c\<lparr>cl_tunnels := hm_insert (tunnel.tid ?u) ?u (hm_remove (tunnel.tid ?u) (cl_tunnels c))\<rparr>"
  let ?ts = "map snd (cl_tunnels ?c)"
  have wf: "client_wf ?c" using assms(1) by (rule client_wf_tunnels)
  then have maps: "hm_wf (cl_outlets ?c)" "hm_wf (cl_inlets ?c)" by (simp_all add: client_wf_def)
  have s': "client_sync_tunnels E ?ts (?c, w) = s'"
    using assms(7-9) modify_ntf_update by fastforce
  obtain s1 s2 s3 s4 where
      e: "cl_outlets (fst s') = outlets.after (cl_player_id ?c) E stop_outlet ?ts (cl_outlets ?c) s1 s2"
      "cl_inlets (fst s') = inlets.after (cl_player_id ?c) E stop_inlet ?ts (cl_inlets ?c) s3 s4"
    using client_sync_tunnels_eq [of E ?ts ?c w] unfolding s' by fastforce
  have "hm_get (cl_tunnels ?c) (tunnel.tid t) = Some ?u" by simp
  then have "?u \<in> set ?ts" using map_of_SomeD by (metis image_eqI list.set_map snd_conv)
  then have kept: "hm_get (cl_outlets (fst s')) (tunnel.tid t) = Some ob"
    unfolding e using assms
    by (intro outlets.after_keeps [OF maps(1), of _ _ ?u]) (simp_all add: outlet_description_def)
  have "tunnel.tid v \<noteq> tunnel.tid t" if "v \<in> set ?ts" "wants_inlet (cl_player_id ?c) v" for v
    using tunnel_values_tid [OF wf that(1)] that(2) assms(6) by auto
  then have none: "hm_get (cl_inlets (fst s')) (tunnel.tid t) = None"
    unfolding e by (rule inlets.after_gone [OF maps(2)])
  have "route_tunnel (ro_route ob) = tunnel.tid t"
    using assms(1,2) by (auto simp: client_wf_def hm_all_iff)
  with kept none assms(4) show ?thesis by (simp add: outlet_output_def)
qed

section \<open>Proxied messages\<close>

text \<open>Where a message of a tunnel is put in at a client, and the closure it comes out of.\<close>

definition delivery_chan :: "client \<Rightarrow> u32 \<Rightarrow> proxy_message \<Rightarrow> chan_ref option" where
  "delivery_chan c tun m =
     (if is_i2o_message m then map_option (\<lambda>ob. out_input (ro_outlet ob)) (hm_get (cl_outlets c) tun)
      else (case hm_get (cl_inlets c) tun of Some i \<Rightarrow> input_tx (ri_inlet i) | None \<Rightarrow> None))"

definition addressee :: "tunnel \<Rightarrow> proxy_message \<Rightarrow> u32" where
  "addressee t m = (if is_i2o_message m then tunnel.sender t else tunnel.receiver t)"

lemma client_send_proxy_here:
  "delivery_chan c tun m = Some ch \<Longrightarrow>
   client_send_proxy_message E P me me tun m (c, w) = (c, send_p_ignore ch m w)"
  by (auto simp: delivery_chan_def client_send_proxy_message_def outlet_input_def inlet_input_def
      split: if_splits option.splits)

lemma client_send_proxy_away:
  assumes "me \<noteq> pid" and "package P 0 (proxy_message_2_pb m tun) = Some bs" and "write_io E bs = Inr ()"
  shows "client_send_proxy_message E P me pid tun m (c, w) = (c\<lparr>cl_wire := cl_wire c @ [bs]\<rparr>, w)"
proof -
  have "\<not> message_is_none (proxy_message_2_pb m tun)" by (cases m) simp_all
  with assms show ?thesis
    by (simp add: client_send_proxy_message_def client_package_and_send_message_def io_result_def)
qed

lemma client_run_packaged:
  assumes "package P n m = Some bs" and "prost_ok P m" and "8 + get_message_size P m < 1024 * 1024 * 5"
    and "client_handle_message E P n m s = (Ok (), s')"
  shows "client_run (client_on_recv_frame E P) [Inr bs] [] s = Some (Pending, ([], s'))"
proof -
  obtain f where ext: "try_extract_frame bs = (Ok (Some f), [])" and f: "length f = 8 + get_message_size P m"
      "read_u32 (take 4 f) = n" "decode_message P (read_u32 (take 4 (drop 4 f))) (drop 8 f) = Ok m"
    using packaged_frame [OF assms(1-3), of "[]"] by (auto simp: try_extract_frame_def)
  have "bs \<noteq> []" using assms(1) by (auto simp: package_Some_iff)
  moreover have "client_on_recv_frame E P f s = (Ok (), s')"
    using assms(4) f by (simp add: client_on_recv_frame_def Let_def)
  ultimately have "drain_loop (stateless try_extract_frame) (client_on_recv_frame E P) bs s = Some (Ok (), ([], s'))"
    using drain_step [of bs try_extract_frame "client_on_recv_frame E P" s] ext
    by (simp add: drain_loop.simps)
  then show ?thesis using \<open>bs \<noteq> []\<close> by simp
qed

text \<open>
  What an outlet or inlet puts out for a tunnel to another machine is written to the server as
  one frame; and the same frame, when the server passes it on to the player at the other end, is
  put into the channel of that tunnel's outlet (or inlet, for an answer) and into no other.
\<close>

theorem proxied_message_arrives:
  assumes "\<not> this_machine rt" and "self_player_id rt \<noteq> peer_player_id rt" and "fits_u32 m"
    and "package P 0 (proxy_message_2_pb m (route_tunnel rt)) = Some bs" and "write_io E bs = Inr ()"
    and "prost_ok P (proxy_message_2_pb m (route_tunnel rt))"
    and "8 + get_message_size P (proxy_message_2_pb m (route_tunnel rt)) < 1024 * 1024 * 5"
    and "cl_player_id d \<noteq> 0" and "hm_get (cl_tunnels d) (route_tunnel rt) = Some t" and "client_wf d"
    and "addressee t m = cl_player_id d" and "delivery_chan d (route_tunnel rt) m = Some ch"
    and "alive (pchans w' ch)"
  shows "(if is_i2o_message m then inlet_output E P rt m (c, w) else outlet_output E P rt m (c, w)) =
      (c\<lparr>cl_wire := cl_wire c @ [bs]\<rparr>, w)
    \<and> (\<exists>w''. client_run (client_on_recv_frame F P) [Inr bs] [] (d, w') = Some (Pending, ([], (d, w'')))
        \<and> pqueue w'' ch = pqueue w' ch @ [m] \<and> (\<forall>k. k \<noteq> ch \<longrightarrow> pchans w'' k = pchans w' k)
        \<and> wchans w'' = wchans w')"
proof
  show "(if is_i2o_message m then inlet_output E P rt m (c, w) else outlet_output E P rt m (c, w)) =
      (c\<lparr>cl_wire := cl_wire c @ [bs]\<rparr>, w)"
    using assms by (simp add: inlet_output_def outlet_output_def client_send_proxy_away)
  have "tunnel.tid t = route_tunnel rt"
    using assms(9,10) by (auto simp: client_wf_def hm_all_iff)
  then have "client_handle_push F P (proxy_message_2_pb m (route_tunnel rt)) (d, w') =
      (Ok (), client_send_proxy_message F P (cl_player_id d) (addressee t m) (route_tunnel rt) m (d, w'))"
    using pb_2_proxy_message_2_pb [OF assms(3), of "route_tunnel rt"] assms(9)
    by (cases m) (simp_all add: client_handle_push_def addressee_def)
  then have "client_handle_message F P 0 (proxy_message_2_pb m (route_tunnel rt)) (d, w') =
      (Ok (), (d, send_p_ignore ch m w'))"
    using assms(8,11,12) client_send_proxy_here [of d "route_tunnel rt" m ch]
    by (simp add: client_handle_message_def)
  from client_run_packaged [OF assms(4,6,7) this] assms(13)
  show "\<exists>w''. client_run (client_on_recv_frame F P) [Inr bs] [] (d, w') = Some (Pending, ([], (d, w'')))
        \<and> pqueue w'' ch = pqueue w' ch @ [m] \<and> (\<forall>k. k \<noteq> ch \<longrightarrow> pchans w'' k = pchans w' k)
        \<and> wchans w'' = wchans w'"
    by (simp add: send_simps)
qed

section \<open>Concrete clients\<close>

definition demo_env :: client_env where
  "demo_env = \<lparr>bind_io = (\<lambda>_ _. Inr ()), outlet_refs = (\<lambda>_. (1, 2)), inlet_refs = (\<lambda>_. (3, 4)),
     write_io = (\<lambda>_. Inr ())\<rparr>"

definition demo_tunnel :: tunnel where
  "demo_tunnel = tunnel.make None None 3 True 5 5 0 [] [] False ''None'' []"

definition demo_outlet :: running_outlet where
  "demo_outlet = \<lparr>ro_outlet = \<lparr>out_sessions = [], out_description = outlet_description demo_tunnel,
       notify_shutdown = True, out_output = 2, out_input = 1\<rparr>,
     ro_route = \<lparr>this_machine = True, self_player_id = 5, peer_player_id = 5, route_tunnel = 3\<rparr>\<rparr>"

definition demo_client :: client where
  "demo_client = (new_client ''u'' ''p'')\<lparr>cl_player_id := 5, cl_outlets := [(3, demo_outlet)],
     cl_tunnels := [(3, demo_tunnel)]\<rparr>"

lemmas demo_defs = demo_env_def demo_tunnel_def demo_outlet_def demo_client_def new_client_def tunnel.defs

lemma demo_client_wf: "client_wf demo_client"
  by (simp add: demo_defs client_wf_def hm_wf_def)

theorem sync_tunnels_reconciles_witness:
  "\<exists>c' w'. client_sync_tunnels demo_env [demo_tunnel] (demo_client, init_world) = (c', w')
    \<and> hm_get (cl_outlets c') 3 = Some demo_outlet \<and> hm_contains (cl_inlets c') 3"
proof -
  obtain c' w' where s: "client_sync_tunnels demo_env [demo_tunnel] (demo_client, init_world) = (c', w')"
    by (rule prod.exhaust)
  have wf: "hm_wf (cl_outlets demo_client)" "hm_wf (cl_inlets demo_client)" "5 = cl_player_id demo_client"
    using demo_client_wf by (simp_all add: client_wf_def demo_defs)
  have t: "tunnel.tid demo_tunnel = 3" "wants_outlet 5 demo_tunnel" "wants_inlet 5 demo_tunnel"
      "hm_get (cl_outlets demo_client) 3 = Some demo_outlet"
      "outlet_description demo_tunnel = outlet_descr demo_outlet"
      "from_u32 (tunnel.tunnel_type demo_tunnel) = Some TCP" "\<And>p a. bind_io demo_env p a = Inr ()"
    by (simp_all add: demo_defs from_u32_def)
  note r = sync_tunnels_reconciles [OF wf(1,2) s wf(3)]
  from r t have "hm_get (cl_outlets c') 3 = Some demo_outlet" by (metis list.set_intros(1))
  moreover from r t have "hm_contains (cl_inlets c') 3" by (metis list.set_intros(1))
  ultimately show ?thesis using s by blast
qed

theorem client_login_gate_witness:
  "\<exists>e. client_handle_message demo_env demo_prost 0 demo_msg (new_client ''u'' ''p'', init_world) =
     (Err e, (new_client ''u'' ''p'', init_world))"
  using client_login_gate [of "(new_client ''u'' ''p'', init_world)" 0 demo_msg demo_env demo_prost]
  by (simp add: new_client_def)

theorem deletion_stops_late_witness:
  "\<exists>c'. on_server_client_modify_tunnel_ntf demo_env (modify_tunnel_ntf.make True (Some demo_tunnel))
       (demo_client, init_world) = (c', init_world)
    \<and> cl_outlets c' = [(3, demo_outlet)] \<and> cl_tunnels c' = []"
proof -
  have "\<exists>c'. on_server_client_modify_tunnel_ntf demo_env (modify_tunnel_ntf.make True (Some demo_tunnel))
       (demo_client, init_world) = (c', init_world) \<and> cl_outlets c' = cl_outlets demo_client"
    using deletion_stops_late [OF demo_client_wf, of "modify_tunnel_ntf.make True (Some demo_tunnel)" demo_tunnel]
    by (fastforce simp: modify_tunnel_ntf.defs)
  then show ?thesis
    by (auto simp: on_server_client_modify_tunnel_ntf_def modify_tunnel_ntf.defs demo_defs)
qed

theorem moved_receiver_loses_answers_witness:
  "\<exists>s'. on_server_client_modify_tunnel_ntf demo_env
       (modify_tunnel_ntf.make False (Some (demo_tunnel\<lparr>tunnel.receiver := 6\<rparr>))) (demo_client, init_world) = s'
    \<and> hm_get (cl_outlets (fst s')) 3 = Some demo_outlet
    \<and> outlet_output demo_env demo_prost (ro_route demo_outlet) (O2iDisconnect 1) s' = s'"
proof -
  have "tunnel.tid demo_tunnel = 3" by (simp add: demo_defs)
  moreover have "hm_get (cl_outlets demo_client) (tunnel.tid demo_tunnel) = Some demo_outlet"
      "outlet_descr demo_outlet = outlet_description demo_tunnel" "this_machine (ro_route demo_outlet)"
      "wants_outlet (cl_player_id demo_client) demo_tunnel" "6 \<noteq> cl_player_id demo_client"
    by (simp_all add: demo_defs)
  ultimately show ?thesis
    using moved_receiver_loses_answers [OF demo_client_wf, of demo_tunnel demo_outlet 6
        "modify_tunnel_ntf.make False (Some (demo_tunnel\<lparr>tunnel.receiver := 6\<rparr>))" demo_env init_world]
    by (simp add: modify_tunnel_ntf.defs)
qed

theorem proxied_message_arrives_witness:
  "inlet_output demo_env demo_prost \<lparr>this_machine = False, self_player_id = 6, peer_player_id = 5, route_tunnel = 3\<rparr>
       (I2oSendData 7 [104, 105]) (new_client ''v'' ''q'', init_world) =
     ((new_client ''v'' ''q'')\<lparr>cl_wire := [[33, 0, 0, 0, 12, 0, 0, 0, 0, 0, 2, 73, 248, 3, 7, 104, 105]]\<rparr>, init_world)
    \<and> (\<exists>w''. client_run (client_on_recv_frame demo_env demo_prost)
          [Inr [33, 0, 0, 0, 12, 0, 0, 0, 0, 0, 2, 73, 248, 3, 7, 104, 105]] [] (demo_client, init_world) =
          Some (Pending, ([], (demo_client, w'')))
        \<and> pqueue w'' 1 = [I2oSendData 7 [104, 105]])"
proof -
  have m: "proxy_message_2_pb (I2oSendData 7 [104, 105]) 3 = demo_msg" by (simp add: demo_msg_def)
  have "cl_player_id demo_client \<noteq> 0" "hm_get (cl_tunnels demo_client) 3 = Some demo_tunnel"
      "addressee demo_tunnel (I2oSendData 7 [104, 105]) = cl_player_id demo_client"
      "delivery_chan demo_client 3 (I2oSendData 7 [104, 105]) = Some 1" "alive (pchans init_world 1)"
    by (simp_all add: demo_defs addressee_def delivery_chan_def init_world_def new_chan_def)
  note here = this
  let ?rt = "\<lparr>this_machine = False, self_player_id = 6, peer_player_id = 5, route_tunnel = 3\<rparr>"
  note r = proxied_message_arrives [of ?rt "I2oSendData 7 [104, 105]" demo_prost _ demo_env demo_client demo_tunnel 1
      init_world "new_client ''v'' ''q''" init_world demo_env, OF _ _ _ _ _ _ _ here(1) _ demo_client_wf here(3)]
  have "(if is_i2o_message (I2oSendData 7 [104, 105])
        then inlet_output demo_env demo_prost ?rt (I2oSendData 7 [104, 105]) (new_client ''v'' ''q'', init_world)
        else outlet_output demo_env demo_prost ?rt (I2oSendData 7 [104, 105]) (new_client ''v'' ''q'', init_world)) =
      ((new_client ''v'' ''q'')\<lparr>cl_wire := cl_wire (new_client ''v'' ''q'') @
          [[33, 0, 0, 0, 12, 0, 0, 0, 0, 0, 2, 73, 248, 3, 7, 104, 105]]\<rparr>, init_world)
    \<and> (\<exists>w''. client_run (client_on_recv_frame demo_env demo_prost)
          [Inr [33, 0, 0, 0, 12, 0, 0, 0, 0, 0, 2, 73, 248, 3, 7, 104, 105]] [] (demo_client, init_world) =
          Some (Pending, ([], (demo_client, w'')))
        \<and> pqueue w'' 1 = pqueue init_world 1 @ [I2oSendData 7 [104, 105]]
        \<and> (\<forall>k. k \<noteq> 1 \<longrightarrow> pchans w'' k = pchans init_world k) \<and> wchans w'' = wchans init_world)"
    using here demo_package demo_msg_ok by (intro r) (simp_all add: m demo_env_def del: proxy_message_2_pb.simps)
  moreover have "cl_wire (new_client ''v'' ''q'') = []" "pqueue init_world 1 = []"
    by (simp_all add: new_client_def init_world_def new_chan_def)
  ultimately show ?thesis by (metis append_Nil is_i2o_message.simps(2))
qed

end
