(* ===== verification/Peer_Props.thy ===== *)
theory Peer_Props
  imports Peer Manager_Props Client_Props
begin

text \<open>
  Properties of the delegate of a connection: a message of a tunnel travels from one client over the
  server to the other and comes out unchanged; an addressee that is not connected is answered for;
  what a login needs and what it does to an older session of the player; and what a connection that
  has not logged in can do.
\<close>

section \<open>Receiving a packaged message\<close>

lemma package_head: "package P n m = Some bs \<Longrightarrow> bs \<noteq> [] \<and> bs ! 0 = 33"
  by (auto simp: package_Some_iff)

lemma peer_extract:
  assumes "pr_forward (peer_of s) = None" and "buf = [] \<or> buf ! 0 = 33"
    and "try_extract_limit (1024 * 1024 * 2) buf = (Ok r, rest)"
  shows "peer_on_try_extract_frame E buf s = (Ok r, (rest, s))"
  using assms by (auto simp: peer_on_try_extract_frame_def)

lemma peer_run_packaged:
  assumes "package (prost_io E) n m = Some bs" and "prost_ok (prost_io E) m"
    and "8 + get_message_size (prost_io E) m < 1024 * 1024 * 2" and "pr_forward (peer_of s) = None"
    and "peer_handle_message E n m s = (Ok msg, s')" and "\<not> sint n < 0"
  shows "poll_read (peer_delegate E) a [Inr bs] [] s = Some (Pending, ([], s'))"
proof -
  obtain f where ext: "try_extract_limit (1024 * 1024 * 2) bs = (Ok (Some f), [])"
      and f: "length f = 8 + get_message_size (prost_io E) m" "read_u32 (take 4 f) = n"
        "decode_message (prost_io E) (read_u32 (take 4 (drop 4 f))) (drop 8 f) = Ok m"
    using packaged_frame [OF assms(1-3), of "[]"] by auto
  have bs: "bs \<noteq> []" "bs ! 0 = 33" using package_head [OF assms(1)] by auto
  have "peer_on_try_extract_frame E bs s = (Ok (Some f), ([], s))"
    using peer_extract [OF assms(4) _ ext] bs by blast
  moreover have "peer_on_recv_frame E f s = (Ok (), s')"
    using f assms(5,6) by (simp add: peer_on_recv_frame_def Let_def)
  ultimately have "drain_loop (peer_on_try_extract_frame E) (peer_on_recv_frame E) bs s = Some (Ok (), ([], s'))"
    using bs(1) by (subst drain_loop.simps) (simp add: drain_loop.simps)
  then show ?thesis using bs(1) by (simp add: peer_delegate_def)
qed

section \<open>Relaying\<close>

text \<open>The ends of a tunnel, seen from a message: an outlet belongs to the sender.\<close>

definition msg_from :: "tunnel_model \<Rightarrow> proxy_message \<Rightarrow> u32" where
  "msg_from t m = (if is_i2o_message m then tm_receiver t else tm_sender t)"

definition msg_to :: "tunnel_model \<Rightarrow> proxy_message \<Rightarrow> u32" where
  "msg_to t m = (if is_i2o_message m then tm_sender t else tm_receiver t)"

lemma peer_handle_push_proxy:
  assumes "fits_u32 m" and "find (\<lambda>x. tm_id x = tun) (sv_tunnels sv) = Some t"
  shows "peer_handle_push E (proxy_message_2_pb m tun) ((p, sv), w) =
    (Ok (), ((p, fst (server_send_proxy_message E (msg_from t m) (msg_to t m) tun m (sv, w))),
      snd (server_send_proxy_message E (msg_from t m) (msg_to t m) tun m (sv, w))))"
proof -
  have "tm_id t = tun" using assms(2) by (auto simp: find_Some_iff)
  with assms show ?thesis
    by (simp add: peer_handle_push_def pb_2_proxy_message_2_pb on_server_def msg_from_def msg_to_def case_prod_beta)
qed

definition connected :: "u32 \<Rightarrow> chan_ref \<Rightarrow> 'db server \<Rightarrow> bool" where
  "connected pid ch sv =
     (case get_player pid sv of
        Some r \<Rightarrow> is_online (sv_pstore sv r) \<and> pl_tx (sv_pstore sv r) = Some ch
      | None \<Rightarrow> False)"

definition offline :: "u32 \<Rightarrow> 'db server \<Rightarrow> bool" where
  "offline pid sv = (case get_player pid sv of Some r \<Rightarrow> \<not> is_online (sv_pstore sv r) | None \<Rightarrow> True)"

lemma push_to_connected:
  assumes "connected pid ch sv" and "package P 0 m = Some bs"
  shows "push_message_to_player P pid m (sv, w) = (sv, send_w_ignore ch (Send bs True) w)"
  using assms
  by (auto simp: connected_def push_message_to_player_def player_send_push_def peer_package_and_send_message_def
      split: option.splits)

lemma send_proxy_connected:
  assumes "connected to ch sv" and "to \<noteq> 0" and "package (prost_io E) 0 (proxy_message_2_pb m tun) = Some bs"
  shows "server_send_proxy_message E from to tun m (sv, w) = (sv, send_w_ignore ch (Send bs True) w)"
proof -
  have "\<not> message_is_none (proxy_message_2_pb m tun)" by (cases m) simp_all
  with assms show ?thesis
    by (auto simp: connected_def server_send_proxy_message_def player_send_push_def Let_def
        peer_package_and_send_message_def split: option.splits)
qed

lemma send_proxy_offline:
  assumes "offline to sv" and "to \<noteq> 0" and "from \<noteq> 0"
  shows "server_send_proxy_message E from to tun m (sv, w) =
    (case offline_answer to m of
       Some answer \<Rightarrow> push_message_to_player (prost_io E) from (proxy_message_2_pb answer tun) (sv, w)
     | None \<Rightarrow> (sv, w))"
  using assms
  by (auto simp: offline_def server_send_proxy_message_def split: option.splits)

lemma peer_push_run:
  assumes "package (prost_io E) 0 (proxy_message_2_pb m tun) = Some bs"
    and "prost_ok (prost_io E) (proxy_message_2_pb m tun)" and "fits_u32 m"
    and "8 + get_message_size (prost_io E) (proxy_message_2_pb m tun) < 1024 * 1024 * 2"
    and "pr_forward p = None" and "find (\<lambda>x. tm_id x = tun) (sv_tunnels sv) = Some t"
    and "server_send_proxy_message E (msg_from t m) (msg_to t m) tun m (sv, w) = (sv, w')"
  shows "poll_read (peer_delegate E) a [Inr bs] [] ((p, sv), w) = Some (Pending, ([], ((p, sv), w')))"
proof -
  have "peer_handle_message E 0 (proxy_message_2_pb m tun) ((p, sv), w) = (Ok NoMessage, ((p, sv), w'))"
    using peer_handle_push_proxy [OF assms(3,6), of E p w] assms(7) by (simp add: peer_handle_message_def)
  from peer_run_packaged [OF assms(1,2,4) _ this] assms(5) show ?thesis by simp
qed

lemma poll_write_one:
  assumes "reliable W acc wire" and "wqueue w ch = [Send bs True]" and "bs \<noteq> []"
  shows "\<exists>k w'. poll_write W ch (k0, w) = (Continue, (k, w')) \<and> wire k = acc k0 @ bs"
proof -
  obtain k1 where k1: "write_all W bs k0 = (Inr (), k1)" "acc k1 = acc k0 @ bs"
    using assms(1) by (metis prod.collapse reliable_def)
  obtain r k where k: "flush W k1 = (r, k)" by (rule prod.exhaust)
  with assms(1) k1 have "wire k = acc k0 @ bs" by (metis reliable_def snd_conv)
  with assms k1 k show ?thesis
    by (simp add: poll_write.simps chan_recv_def write_message_def Let_def)
qed

text \<open>
  C3: The way of a message through the system. What an inlet or outlet of one client puts out is written
  to the server; the server's delegate of that connection takes it out of the stream and queues the
  same bytes for the connection of the player at the other end of the tunnel, and changes nothing
  else; the loop that writes this connection puts them on the wire; and the client there puts the
  message into its outlet or inlet of the tunnel. The tunnel ids have to agree at the three places,
  and the message has to stay below the server's limit of two megabytes.
\<close>

theorem relayed_end_to_end:
  fixes E :: "'db peer_env" and W :: "'k writer"
  assumes "\<not> this_machine rt" and "self_player_id rt \<noteq> peer_player_id rt" and "fits_u32 m"
    and "package (prost_io E) 0 (proxy_message_2_pb m (route_tunnel rt)) = Some bs" and "write_io A bs = Inr ()"
    and "prost_ok (prost_io E) (proxy_message_2_pb m (route_tunnel rt))"
    and "8 + get_message_size (prost_io E) (proxy_message_2_pb m (route_tunnel rt)) < 1024 * 1024 * 2"
    and "pr_forward p = None" and "find (\<lambda>x. tm_id x = route_tunnel rt) (sv_tunnels sv) = Some t"
    and "msg_to t m = cl_player_id d" and "connected (cl_player_id d) ch sv" and "wchans w ch = new_chan"
    and "reliable W acc wire"
    and "client_wf d" and "cl_player_id d \<noteq> 0" and "hm_get (cl_tunnels d) (route_tunnel rt) = Some u"
    and "addressee u m = cl_player_id d" and "delivery_chan d (route_tunnel rt) m = Some dch"
    and "alive (pchans wd dch)"
  shows "(if is_i2o_message m then inlet_output A (prost_io E) rt m (c, wc)
          else outlet_output A (prost_io E) rt m (c, wc)) = (c\<lparr>cl_wire := cl_wire c @ [bs]\<rparr>, wc)
    \<and> (\<exists>w'. poll_read (peer_delegate E) a [Inr bs] [] ((p, sv), w) = Some (Pending, ([], ((p, sv), w')))
        \<and> wqueue w' ch = [Send bs True] \<and> (\<forall>k. k \<noteq> ch \<longrightarrow> wchans w' k = wchans w k)
        \<and> (\<forall>k0. \<exists>k w''. poll_write W ch (k0, w') = (Continue, (k, w'')) \<and> wire k = acc k0 @ bs))
    \<and> (\<exists>wd'. client_run (client_on_recv_frame B (prost_io E)) [Inr bs] [] (d, wd) = Some (Pending, ([], (d, wd')))
        \<and> pqueue wd' dch = pqueue wd dch @ [m])"
proof -
  let ?pb = "proxy_message_2_pb m (route_tunnel rt)"
  have size: "8 + get_message_size (prost_io E) ?pb < 1024 * 1024 * 5" using assms(7) by simp
  note ends = proxied_message_arrives [OF assms(1-6) size assms(15,16,14,17,18,19), of c wc B]
  let ?w = "send_w_ignore ch (Send bs True) w"
  have w': "wqueue ?w ch = [Send bs True]" "\<forall>k. k \<noteq> ch \<longrightarrow> wchans ?w k = wchans w k"
    using assms(12) by (simp_all add: send_simps new_chan_def)
  have "server_send_proxy_message E (msg_from t m) (msg_to t m) (route_tunnel rt) m (sv, w) = (sv, ?w)"
    using send_proxy_connected [OF assms(11,15,4)] assms(10) by simp
  then have relay: "poll_read (peer_delegate E) a [Inr bs] [] ((p, sv), w) = Some (Pending, ([], ((p, sv), ?w)))"
    by (rule peer_push_run [OF assms(4,6,3,7,8,9)])
  have "bs \<noteq> []" using package_head [OF assms(4)] by blast
  then have "\<exists>k w''. poll_write W ch (k0, ?w) = (Continue, (k, w'')) \<and> wire k = acc k0 @ bs" for k0
    using poll_write_one [OF assms(13) w'(1)] by blast
  with ends relay w' show ?thesis by blast
qed

definition answer_bytes :: "('db, 'z) server_env_scheme \<Rightarrow> u32 \<Rightarrow> proxy_message \<Rightarrow> wmsg list" where
  "answer_bytes E tun m =
     (case package (prost_io E) 0 (proxy_message_2_pb m tun) of Some bs \<Rightarrow> [Send bs True] | None \<Rightarrow> [])"

text \<open>
  When the player at the other end of the tunnel is unknown or not connected, the server answers
  for it: the connection the message came from is sent a failed connect for a connect and a
  disconnect for data and acknowledgements, for the same session and tunnel. Datagrams and disconnects are
  dropped. Nothing else changes.
\<close>

theorem offline_addressee_answered:
  assumes "package (prost_io E) 0 (proxy_message_2_pb m tun) = Some bs"
    and "prost_ok (prost_io E) (proxy_message_2_pb m tun)" and "fits_u32 m"
    and "8 + get_message_size (prost_io E) (proxy_message_2_pb m tun) < 1024 * 1024 * 2"
    and "pr_forward p = None" and "find (\<lambda>x. tm_id x = tun) (sv_tunnels sv) = Some t"
    and "msg_to t m \<noteq> 0" and "offline (msg_to t m) sv"
    and "msg_from t m \<noteq> 0" and "connected (msg_from t m) ch sv" and "alive (wchans w ch)"
  shows "\<exists>w'. poll_read (peer_delegate E) a [Inr bs] [] ((p, sv), w) = Some (Pending, ([], ((p, sv), w')))
    \<and> wqueue w' ch = wqueue w ch @
        (case m of
           I2oConnect sid _ _ _ _ _ _ _ \<Rightarrow> answer_bytes E tun (O2iConnect sid False
             (''no player '' @ show_nat (unat (msg_to t m)) @ '' or the player is offline''))
         | I2oSendData sid _ \<Rightarrow> answer_bytes E tun (O2iDisconnect sid)
         | I2oRecvDataResult sid _ \<Rightarrow> answer_bytes E tun (O2iDisconnect sid)
         | O2iConnect sid _ _ \<Rightarrow> answer_bytes E tun (I2oDisconnect sid)
         | O2iRecvData sid _ \<Rightarrow> answer_bytes E tun (I2oDisconnect sid)
         | O2iSendDataResult sid _ \<Rightarrow> answer_bytes E tun (I2oDisconnect sid)
         | _ \<Rightarrow> [])
    \<and> (\<forall>k. k \<noteq> ch \<longrightarrow> wchans w' k = wchans w k) \<and> pchans w' = pchans w"
proof -
  note run = peer_push_run [OF assms(1-6)]
  note off = send_proxy_offline [OF assms(8,7,9), of E tun m w]
  show ?thesis
  proof (cases "offline_answer (msg_to t m) m")
    case None
    with off run [of w w a] show ?thesis by (cases m) simp_all
  next
    case (Some answer)
    obtain bs' where bs': "package (prost_io E) 0 (proxy_message_2_pb answer tun) = Some bs'"
      using proxy_message_2_pb_id [of answer tun] by (auto simp: package_def)
    have "server_send_proxy_message E (msg_from t m) (msg_to t m) tun m (sv, w) =
        (sv, send_w_ignore ch (Send bs' True) w)"
      using off Some push_to_connected [OF assms(10) bs'] by simp
    from run [OF this, of a] Some bs' assms(11) show ?thesis
      by (cases m) (auto simp: send_simps answer_bytes_def)
  qed
qed

section \<open>Login\<close>

text \<open>The references in the map of players are those of players that were created.\<close>

definition refs_ok :: "'db server \<Rightarrow> bool" where
  "refs_ok sv \<longleftrightarrow> (\<forall>k r. hm_get (sv_player_map sv) k = Some r \<longrightarrow> r < sv_next sv)"

lemma add_player_cases:
  obtains (failed) r d where "add_player E samples now name pass s = (r, ((fst s)\<lparr>sv_db := d\<rparr>, snd s))"
      "r \<noteq> Panic" "r \<noteq> Pending" "\<And>msg. r \<noteq> Ok (0, msg)"
  | (added) pid d where "add_player E samples now name pass s =
        (Ok (0, []), (create_player pid ((fst s)\<lparr>sv_db := d\<rparr>), snd s))"
      "\<not> player_contain pid (fst s)"
proof -
  obtain r s' where r: "add_player E samples now name pass s = (r, s')" by (rule prod.exhaust)
  let ?used = "\<lambda>i. player_contain i (fst s)"
  have same: "\<exists>d. s = ((fst s)\<lparr>sv_db := d\<rparr>, snd s)" by (intro exI [of _ "sv_db (fst s)"]) simp
  consider "s' = s \<or> (\<exists>d. s' = ((fst s)\<lparr>sv_db := d\<rparr>, snd s))" "r \<noteq> Panic" "r \<noteq> Pending" "\<And>msg. r \<noteq> Ok (0, msg)"
    | pid d where "r = Ok (0, [])" "s' = (create_player pid ((fst s)\<lparr>sv_db := d\<rparr>), snd s)" 
        "pick_id ?used samples 0 = Some pid"
    using r
    by (auto simp: add_player_def io_result_def
        split: if_splits option.splits sum.splits prod.splits)
  then show thesis
    by cases (use r same failed added pick_id_Some [of ?used samples 0] in \<open>simp, blast\<close>)+
qed

lemma login_found:
  assumes "pr_player p = None" and "pr_tx p = Some ch" and "pr_session_id p \<noteq> 0"
    and "user_find_login (db_io E) (login_req.username req) (login_req.password req) (sv_db sv) = Inr (Some user)"
    and "get_player (um_id user) sv = Some r"
  shows "on_login_request E req ((p, sv), w) =
    (Ok (ServerClientLoginAck (login_ack.make (um_id user) (map (tunnel_of_model E)
       (filter (\<lambda>x. tm_receiver x = um_id user \<or> tm_sender x = um_id user) (sv_tunnels sv))))),
     ((p\<lparr>pr_player := Some r\<rparr>,
       upd_player r ((sv_pstore sv r)\<lparr>pl_session_id := pr_session_id p, pl_tx := Some ch\<rparr>) sv),
      if is_online (sv_pstore sv r) then close_session (sv_pstore sv r) w else w))"
  using assms
  by (simp add: on_login_request_def io_result_def on_connect_session_def on_terminate_old_session_def
      reset_session_info_def is_online_def Let_def)

lemma login_cases:
  obtains (refused) r where "on_login_request E req ((p, sv), w) = (r, ((p, sv), w))" "r \<noteq> Panic" "r \<noteq> Pending"
      "\<And>m. r = Ok m \<Longrightarrow> \<exists>e. m = GenericError e"
  | (granted) user r where "pr_player p = None"
      "user_find_login (db_io E) (login_req.username req) (login_req.password req) (sv_db sv) = Inr (Some user)"
      "get_player (um_id user) sv = Some r"
proof -
  let ?find = "user_find_login (db_io E) (login_req.username req) (login_req.password req) (sv_db sv)"
  consider "pr_player p \<noteq> None" | e where "pr_player p = None" "?find = Inl e"
    | "pr_player p = None" "?find = Inr None"
    | user where "pr_player p = None" "?find = Inr (Some user)" "get_player (um_id user) sv = None"
    | user r where "pr_player p = None" "?find = Inr (Some user)" "get_player (um_id user) sv = Some r"
    by (metis not_None_eq old.sum.exhaust)
  then show thesis
    by cases (auto intro: refused granted simp: on_login_request_def io_result_def)
qed

lemma connected_create_player:
  assumes "refs_ok sv" and "\<not> player_contain new sv" and "get_player pid sv \<noteq> None"
  shows "connected pid ch (create_player new (sv\<lparr>sv_db := d\<rparr>)) = connected pid ch sv"
  using assms
  by (auto simp: connected_def get_player_def create_player_def refs_ok_def player_contain_def hm_contains_def Let_def
      split: option.splits)

lemma register_request:
  assumes "refs_ok sv"
  shows "\<exists>sv' r. on_register_request E req ((p, sv), w) = (r, ((p, sv'), w)) \<and> r \<noteq> Panic \<and> r \<noteq> Pending
    \<and> sv_tunnels sv' = sv_tunnels sv \<and> sv_outlets sv' = sv_outlets sv \<and> sv_inlets sv' = sv_inlets sv
    \<and> (\<forall>pid ch. get_player pid sv \<noteq> None \<longrightarrow> connected pid ch sv' = connected pid ch sv)"
proof (cases rule: add_player_cases [of E "id_samples E" "create_time E" "register_req.username req"
        "register_req.password req" "(sv, w)"])
  case (failed r d)
  then show ?thesis
    by (cases r) (auto simp: on_register_request_def on_server_def connected_def get_player_def)
next
  case (added pid d)
  with assms show ?thesis
    by (simp add: on_register_request_def on_server_def connected_create_player)
      (simp add: create_player_def Let_def)
qed

text \<open>
  C15: A login with the name and password of a row, by a connection that is not yet logged in: the
  player answers from then on through this connection, and an older connection of the player is told
  to close. The end of that older connection, whenever it comes, leaves the player connected; the end
  of the new one takes it off line.
\<close>

theorem login_takes_over:
  assumes "user_table (db_io E) users"
    and "pr_player p = None" and "pr_tx p = Some ch" and "pr_session_id p \<noteq> 0"
    and "users (sv_db sv) i = Some user" and "um_username user = login_req.username req"
    and "um_password user = login_req.password req" and "unique_names (users (sv_db sv))"
    and "user_find_login (db_io E) (login_req.username req) (login_req.password req) (sv_db sv) = Inr found"
    and "get_player i sv = Some r" and "um_id user = i"
    and "on_login_request E req ((p, sv), w) = (answer, ((p', sv'), w'))"
  shows "(\<exists>ts. answer = Ok (ServerClientLoginAck (login_ack.make i ts)))
    \<and> pr_player p' = Some r \<and> connected i ch sv'
    \<and> (\<forall>old. connected i old sv \<and> alive (wchans w old) \<longrightarrow> wqueue w' old = wqueue w old @ [Close])
    \<and> (\<forall>q v. pr_player q = Some r \<and> pr_session_id q \<noteq> pr_session_id p \<longrightarrow>
        server_of (snd (peer_on_session_close ((q, sv'), v))) = sv')
    \<and> (\<forall>v. offline i (server_of (snd (peer_on_session_close ((p', sv'), v)))))"
proof -
  have "found \<noteq> None" using user_tableD(2) [OF assms(1), of _ _ "sv_db sv" i user] assms(5-7,9) by (cases found) auto
  then obtain u where u: "found = Some u" by blast
  from user_tableD(1) [OF assms(1) assms(9) [unfolded u]] assms(5-8)
  have "um_id u = i" by (auto simp: unique_names_def)
  with login_found [OF assms(2-4) assms(9) [unfolded u], of r w] assms(10,12)
  have eqs: "answer = Ok (ServerClientLoginAck (login_ack.make i (map (tunnel_of_model E)
       (filter (\<lambda>x. tm_receiver x = i \<or> tm_sender x = i) (sv_tunnels sv)))))"
    "p' = p\<lparr>pr_player := Some r\<rparr>"
    "sv' = upd_player r ((sv_pstore sv r)\<lparr>pl_session_id := pr_session_id p, pl_tx := Some ch\<rparr>) sv"
    "w' = (if is_online (sv_pstore sv r) then close_session (sv_pstore sv r) w else w)"
    by simp_all
  have "0 < pr_session_id p" using assms(4) by (simp add: word_neq_0_conv)
  with eqs assms(10) show ?thesis
    by (auto simp: connected_def offline_def get_player_def is_online_def close_session_def send_simps
        peer_on_session_close_def on_disconnect_session_def reset_session_info_def Let_def)
qed

section \<open>Concrete connections\<close>

definition demo_penv :: "demo_db peer_env" where
  "demo_penv = \<lparr>bind_io = (\<lambda>_ _. Inr ()), outlet_refs = (\<lambda>_. (1, 2)), inlet_refs = (\<lambda>_. (3, 4)),
     db_io = demo_db_ops,
     prost_io = demo_prost\<lparr>login_req_pb := (login_req_pb demo_prost)\<lparr>decode := \<lambda>_. Inr (login_req.make ''0.0.0'' ''u'' ''p'')\<rparr>\<rparr>,
     from_json = (\<lambda>_. None), unicode_alnum = (\<lambda>_. False),
     illegal_traffic_forward = [], forward_connect = (\<lambda>_. Inr ()), forward_write = (\<lambda>_. Inr ()),
     formatted_time = [], id_samples = (\<lambda>_. 10000000), create_time = 0\<rparr>"

definition demo_peer :: peer where
  "demo_peer = \<lparr>pr_tx = Some 8, pr_player = None, pr_session_id = 2, pr_forward = None\<rparr>"

definition demo_relay :: "u32 \<Rightarrow> u32 \<Rightarrow> demo_db server" where
  "demo_relay snd_id rcv_id = demo_server\<lparr>sv_tunnels := [(demo_model 3 80)\<lparr>tm_sender := snd_id, tm_receiver := rcv_id\<rparr>]\<rparr>"

definition demo_bytes :: bytes where
  "demo_bytes = [33, 0, 0, 0, 12, 0, 0, 0, 0, 0, 2, 73, 248, 3, 7, 104, 105]"

abbreviation demo_addr :: socket_addr where
  "demo_addr \<equiv> V4 (Ipv4Addr 0 0 0 0) 80"

lemma demo_package_peer:
  "package (prost_io demo_penv) 0 (proxy_message_2_pb (I2oSendData 7 [104, 105]) 3) = Some demo_bytes"
  "prost_ok (prost_io demo_penv) (proxy_message_2_pb (I2oSendData 7 [104, 105]) 3)"
  "8 + get_message_size (prost_io demo_penv) (proxy_message_2_pb (I2oSendData 7 [104, 105]) 3) < 1024 * 1024 * 2"
  using demo_package demo_msg_ok
  by (simp_all add: demo_penv_def demo_bytes_def demo_msg_def package_def)

lemma demo_relay_find:
  "find (\<lambda>x. tm_id x = 3) (sv_tunnels (demo_relay i j)) = Some ((demo_model 3 80)\<lparr>tm_sender := i, tm_receiver := j\<rparr>)"
  by (simp add: demo_relay_def demo_model_def)

lemma demo_connected: "connected 5 9 (demo_relay i j)" "connected 5 9 demo_server" "offline 7 (demo_relay i j)"
  by (simp_all add: connected_def offline_def demo_relay_def demo_server_def get_player_def is_online_def)

theorem relayed_end_to_end_witness:
  "\<exists>w' k w''. poll_read (peer_delegate demo_penv) demo_addr [Inr demo_bytes] [] ((demo_peer, demo_relay 5 6), init_world) =
      Some (Pending, ([], ((demo_peer, demo_relay 5 6), w')))
    \<and> wqueue w' 9 = [Send demo_bytes True]
    \<and> poll_write demo_writer 9 (([], []), w') = (Continue, (k, w'')) \<and> snd k = demo_bytes"
proof -
  let ?rt = "\<lparr>this_machine = False, self_player_id = 6, peer_player_id = 5, route_tunnel = 3\<rparr>"
  let ?m = "I2oSendData 7 [104, 105]"
  have "reliable demo_writer fst snd" by (simp add: reliable_def demo_writer_def)
  moreover have "hm_get (cl_tunnels demo_client) 3 = Some demo_tunnel" "delivery_chan demo_client 3 ?m = Some 1"
      "cl_player_id demo_client = 5" "addressee demo_tunnel ?m = 5"
    by (simp_all add: demo_defs addressee_def delivery_chan_def)
  moreover have "wchans init_world 9 = new_chan" "alive (pchans init_world 1)"
    by (simp_all add: init_world_def new_chan_def)
  moreover have "msg_to ((demo_model 3 80)\<lparr>tm_sender := 5, tm_receiver := 6\<rparr>) ?m = 5"
    by (simp add: msg_to_def)
  ultimately have "\<exists>w'. poll_read (peer_delegate demo_penv) demo_addr [Inr demo_bytes] [] ((demo_peer, demo_relay 5 6), init_world) =
      Some (Pending, ([], ((demo_peer, demo_relay 5 6), w')))
    \<and> wqueue w' 9 = [Send demo_bytes True] \<and> (\<forall>k. k \<noteq> 9 \<longrightarrow> wchans w' k = wchans init_world k)
    \<and> (\<forall>k0. \<exists>k w''. poll_write demo_writer 9 (k0, w') = (Continue, (k, w'')) \<and> snd k = fst k0 @ demo_bytes)"
    using demo_package_peer demo_relay_find [of 5 6] demo_connected(1) [of 5 6] demo_client_wf
    by (intro relayed_end_to_end [where rt = ?rt and m = ?m and d = demo_client and A = demo_env and B = demo_env and
        wd = init_world and dch = 1 and u = demo_tunnel and c = demo_client and wc = init_world and
        t = "(demo_model 3 80)\<lparr>tm_sender := 5, tm_receiver := 6\<rparr>" and acc = fst and wire = snd,
        THEN conjunct2, THEN conjunct1])
      (simp_all add: demo_env_def demo_peer_def)
  then obtain w' where "poll_read (peer_delegate demo_penv) demo_addr [Inr demo_bytes] [] ((demo_peer, demo_relay 5 6), init_world) =
      Some (Pending, ([], ((demo_peer, demo_relay 5 6), w')))" "wqueue w' 9 = [Send demo_bytes True]"
    and out: "\<And>k0. \<exists>k w''. poll_write demo_writer 9 (k0, w') = (Continue, (k, w'')) \<and> snd k = fst k0 @ demo_bytes"
    by blast
  with out [of "([], [])"] show ?thesis by auto
qed

theorem offline_addressee_answered_witness:
  "\<exists>w'. poll_read (peer_delegate demo_penv) demo_addr [Inr demo_bytes] [] ((demo_peer, demo_relay 7 5), init_world) =
      Some (Pending, ([], ((demo_peer, demo_relay 7 5), w')))
    \<and> wqueue w' 9 = answer_bytes demo_penv 3 (O2iDisconnect 7) \<and> answer_bytes demo_penv 3 (O2iDisconnect 7) \<noteq> []"
proof -
  let ?t = "(demo_model 3 80)\<lparr>tm_sender := 7, tm_receiver := 5\<rparr>"
  let ?m = "I2oSendData 7 [104, 105]"
  have "msg_to ?t ?m = 7" "msg_from ?t ?m = 5" by (simp_all add: msg_to_def msg_from_def)
  moreover have "alive (wchans init_world 9)" "wqueue init_world 9 = []" by (simp_all add: init_world_def new_chan_def)
  moreover have "answer_bytes demo_penv 3 (O2iDisconnect 7) \<noteq> []" by (simp add: answer_bytes_def package_def)
  ultimately show ?thesis
    using offline_addressee_answered [OF demo_package_peer(1,2) _ demo_package_peer(3) _ demo_relay_find [of 7 5],
        of demo_peer 9 init_world demo_addr] demo_connected(1,3) [of 7 5]
    by (auto simp: demo_peer_def)
qed

theorem login_takes_over_witness:
  "\<exists>answer p' sv' w'. on_login_request demo_penv (login_req.make ''0.0.0'' ''u'' ''p'') ((demo_peer, demo_server), init_world) =
      (answer, ((p', sv'), w'))
    \<and> connected 5 8 sv' \<and> wqueue w' 9 = [Close] \<and> offline 5 (server_of (snd (peer_on_session_close ((p', sv'), w'))))"
proof -
  let ?u = "\<lparr>um_id = 5, um_username = ''u'', um_password = ''p'', um_create_time = 0\<rparr>"
  let ?req = "login_req.make ''0.0.0'' ''u'' ''p''"
  obtain answer p' sv' w' where l: "on_login_request demo_penv ?req ((demo_peer, demo_server), init_world) =
      (answer, ((p', sv'), w'))" by (metis prod.exhaust)
  have users: "demo_users (sv_db demo_server) 5 = Some ?u" "unique_names (demo_users (sv_db demo_server))"
    by (simp_all add: demo_server_def new_server_def unique_names_def keyed_def)
  have "user_find_login (db_io demo_penv) (login_req.username ?req) (login_req.password ?req) (sv_db demo_server) = Inr (Some ?u)"
    by (simp add: demo_penv_def demo_db_ops_def demo_server_def new_server_def login_req.defs without_def)
  moreover have "get_player 5 demo_server = Some 0" by (simp add: get_player_def demo_server_def)
  moreover have "user_table (db_io demo_penv) demo_users" by (simp add: demo_penv_def demo_user_table)
  moreover have "alive (wchans init_world 9)" "wqueue init_world 9 = []" by (simp_all add: init_world_def new_chan_def)
  ultimately show ?thesis
    using login_takes_over [of demo_penv demo_users demo_peer 8 demo_server 5 ?u ?req "Some ?u" 0, OF _ _ _ _ users(1) _ _ users(2) _ _ _ l]
      l demo_connected(2)
    by (auto simp: demo_peer_def login_req.defs)
qed

end
