(* ===== verification/Web.thy ===== *)
theory Web
  imports Managers
begin

text \<open>
  np\_server/src/web: the administration interface. A request has passed the router of \<open>actix_web\<close>; its
  body is given as the result of \<open>serde_json::from_str\<close>, and the identity as what \<open>Identity::id\<close> returns
  for the session of the browser, if it has one. \<open>web_handle\<close> is the table of routes. Errors are the
  error responses of \<open>actix_web\<close>.
\<close>

record web_config =
  web_username :: string
  web_password :: string

text \<open>The bodies of requests (proto.rs); numbers without a width there are \<open>usize\<close>.\<close>

record web_login_req =
  wl_username :: string
  wl_password :: string

record list_request =
  page_number :: "64 word"
  page_size :: "64 word"

record player_update_req =
  pu_id :: u32
  pu_username :: string
  pu_password :: string

record tunnel_req =
  tr_id :: u32
  tr_source :: string
  tr_endpoint :: string
  tr_enabled :: u8
  tr_sender :: u32
  tr_receiver :: u32
  tr_description :: string
  tr_tunnel_type :: u32
  tr_password :: string
  tr_username :: string
  tr_is_compressed :: u8
  tr_encryption_method :: string
  tr_custom_mapping :: "(string, string) hmap"

text \<open>\<open>TunnelAddReq\<close> is \<open>tunnel_req\<close> without the id. The answers:\<close>

record player_item =
  pi_id :: u32
  pi_username :: string
  pi_password :: string
  pi_online :: bool

record tunnel_item =
  ti_id :: u32
  ti_source :: string
  ti_endpoint :: string
  ti_enabled :: bool
  ti_sender :: u32
  ti_receiver :: u32
  ti_description :: string
  ti_tunnel_type :: u32
  ti_password :: string
  ti_username :: string
  ti_is_compressed :: bool
  ti_encryption_method :: string
  ti_custom_mapping :: "(string, string) hmap"

datatype web_response =
    GeneralResponse i32 string
  | PlayerListResponse "player_item list" "64 word" nat
  | TunnelListResponse "tunnel_item list" "64 word" nat

record 'db web_env = "'db server_env" +
  md5_hex :: "string \<Rightarrow> string"
  to_json :: "(string, string) hmap \<Rightarrow> string option"
  identity_login :: "string + unit"
  web_samples :: "nat \<Rightarrow> u32"
  web_now :: i64

type_synonym identity = "(string + string) option"

definition identity_name :: "identity \<Rightarrow> string + string" where
  "identity_name ident =
     (case ident of None \<Rightarrow> Inr ''anonymous'' | Some (Inr i) \<Rightarrow> Inr i | Some (Inl e) \<Rightarrow> Inl e)"

definition session_expired :: web_response where
  "session_expired = GeneralResponse 10086 ''Session expired, please log in again.''"

definition authentication :: "identity \<Rightarrow> web_response outcome option" where
  "authentication ident =
     (case identity_name ident of
        Inl e \<Rightarrow> Some (Err e)
      | Inr i \<Rightarrow> if i = ''anonymous'' then Some (Ok session_expired) else None)"

definition test_auth :: "identity \<Rightarrow> web_response outcome" where
  "test_auth ident =
     (case identity_name ident of
        Inl e \<Rightarrow> Err e
      | Inr i \<Rightarrow>
          if i = ''anonymous'' then Ok session_expired
          else Ok (GeneralResponse 0 (''hello '' @ i)))"

text \<open>\<open>logout\<close> and \<open>login\<close> also give the identity of the session from then on.\<close>

definition web_logout :: "identity \<Rightarrow> web_response outcome \<times> identity" where
  "web_logout ident =
     (case ident of None \<Rightarrow> (Err ''unauthorized'', None) | Some _ \<Rightarrow> (Ok session_expired, None))"

definition web_login ::
  "'db web_env \<Rightarrow> web_config \<Rightarrow> string + web_login_req \<Rightarrow> identity \<Rightarrow> web_response outcome \<times> identity" where
  "web_login E cfg body ident =
     and_then (io_result body, ident) (\<lambda>req ident.
       if length (web_username cfg) > 0 \<and> web_username cfg = wl_username req \<and> web_password cfg = wl_password req
       then
         and_then (io_result (identity_login E), ident) (\<lambda>_ _.
           (Ok (GeneralResponse 0 ''Success''),
            Some (Inr (md5_hex E (web_username cfg @ ''-'' @ web_password cfg)))))
       else (Ok (GeneralResponse (- 2) ''Incorrect username or password''), ident))"

text \<open>A handler behind the authentication.\<close>

definition guarded :: "identity \<Rightarrow> (string + 'r) \<Rightarrow> ('r \<Rightarrow> 's \<Rightarrow> web_response outcome \<times> 's) \<Rightarrow> 's \<Rightarrow>
    web_response outcome \<times> 's" where
  "guarded ident body f s =
     (case authentication ident of
        Some result \<Rightarrow> (result, s)
      | None \<Rightarrow> and_then (io_result body, s) f)"

definition web_player_list ::
  "'db web_env \<Rightarrow> list_request \<Rightarrow> 'db server_state \<Rightarrow> web_response outcome \<times> 'db server_state" where
  "web_player_list E req s =
     (let size = (if page_size req \<le> 0 \<or> page_size req > 100 then 1 else page_size req) in
      case user_page (db_io E) (unat size) (unat (page_number req)) (sv_db (fst s)) of
        Inl e \<Rightarrow> (Err (''sqlx error:'' @ e), s)
      | Inr us \<Rightarrow>
          (case user_count (db_io E) (sv_db (fst s)) of
             Inl e \<Rightarrow> (Err (''sqlx error:'' @ e), s)
           | Inr n \<Rightarrow>
               (Ok (PlayerListResponse
                  (map (\<lambda>u. \<lparr>pi_id = um_id u, pi_username = um_username u, pi_password = um_password u,
                     pi_online = (case get_player (um_id u) (fst s) of
                                    Some r \<Rightarrow> is_online (sv_pstore (fst s) r) | None \<Rightarrow> False)\<rparr>) us)
                  (page_number req) n), s)))"

definition result_response :: "i32 \<Rightarrow> unit outcome \<times> 's \<Rightarrow> web_response outcome \<times> 's" where
  "result_response failure r =
     (case r of
        (Ok _, s) \<Rightarrow> (Ok (GeneralResponse 0 ''Success''), s)
      | (Err e, s) \<Rightarrow> (Ok (GeneralResponse failure e), s)
      | (Panic, s) \<Rightarrow> (Panic, s)
      | (Pending, s) \<Rightarrow> (Pending, s))"

definition web_remove_player ::
  "'db web_env \<Rightarrow> u32 \<Rightarrow> 'db server_state \<Rightarrow> web_response outcome \<times> 'db server_state" where
  "web_remove_player E pid s = result_response (- 1) (delete_player E pid s)"

definition web_add_player ::
  "'db web_env \<Rightarrow> web_login_req \<Rightarrow> 'db server_state \<Rightarrow> web_response outcome \<times> 'db server_state" where
  "web_add_player E req s =
     and_then (add_player E (web_samples E) (web_now E) (wl_username req) (wl_password req) s) (\<lambda>(code, msg) s.
       (Ok (GeneralResponse code msg), s))"

definition web_update_player ::
  "'db web_env \<Rightarrow> player_update_req \<Rightarrow> 'db server_state \<Rightarrow> web_response outcome \<times> 'db server_state" where
  "web_update_player E req s =
     (if \<not> is_valid_username (pu_username req) \<or> \<not> is_valid_password (pu_password req)
      then (Ok (GeneralResponse (- 1)
              ''usernames may not exceed 30 characters, and passwords may not exceed 15 characters.''), s)
      else result_response (- 2) (update_player E (pu_id req) (pu_username req) (pu_password req) s))"

definition web_tunnel_list ::
  "'db web_env \<Rightarrow> list_request \<Rightarrow> 'db server_state \<Rightarrow> web_response outcome \<times> 'db server_state" where
  "web_tunnel_list E req s =
     and_then (tunnel_query (fst s) (page_number req) (page_size req), s) (\<lambda>ts s.
       (Ok (TunnelListResponse
          (map (\<lambda>t. \<lparr>ti_id = tm_id t, ti_source = tm_source t, ti_endpoint = tm_endpoint t,
             ti_enabled = (tm_enabled t = 1), ti_sender = tm_sender t, ti_receiver = tm_receiver t,
             ti_description = tm_description t, ti_tunnel_type = tm_tunnel_type t,
             ti_password = tm_password t, ti_username = tm_username t,
             ti_is_compressed = (tm_is_compressed t = 1), ti_encryption_method = tm_encryption_method t,
             ti_custom_mapping = (case from_json E (tm_custom_mapping t) of Some m \<Rightarrow> m | None \<Rightarrow> [])\<rparr>) ts)
          (page_number req) (length (sv_tunnels (fst s)))), s))"

definition model_of_req :: "'db web_env \<Rightarrow> u32 \<Rightarrow> tunnel_req \<Rightarrow> tunnel_model" where
  "model_of_req E i req =
     \<lparr>tm_id = i, tm_source = tr_source req, tm_endpoint = tr_endpoint req, tm_enabled = tr_enabled req,
      tm_sender = tr_sender req, tm_receiver = tr_receiver req, tm_description = tr_description req,
      tm_tunnel_type = tr_tunnel_type req, tm_password = tr_password req, tm_username = tr_username req,
      tm_is_compressed = tr_is_compressed req,
      tm_custom_mapping = (case to_json E (tr_custom_mapping req) of Some j \<Rightarrow> j | None \<Rightarrow> []),
      tm_encryption_method = tr_encryption_method req\<rparr>"

definition web_remove_tunnel ::
  "'db web_env \<Rightarrow> u32 \<Rightarrow> 'db server_state \<Rightarrow> web_response outcome \<times> 'db server_state" where
  "web_remove_tunnel E tun s = result_response (- 1) (delete_tunnel E tun s)"

definition web_add_tunnel ::
  "'db web_env \<Rightarrow> tunnel_req \<Rightarrow> 'db server_state \<Rightarrow> web_response outcome \<times> 'db server_state" where
  "web_add_tunnel E req s = result_response (- 1) (add_tunnel E (model_of_req E 0 req) s)"

definition web_update_tunnel ::
  "'db web_env \<Rightarrow> tunnel_req \<Rightarrow> 'db server_state \<Rightarrow> web_response outcome \<times> 'db server_state" where
  "web_update_tunnel E req s = result_response (- 1) (update_tunnel E (model_of_req E (tr_id req) req) s)"

text \<open>The routes of \<open>run_http_server\<close>.\<close>

datatype web_request =
    Login "string + web_login_req"
  | Logout
  | TestAuth
  | ListPlayers "string + list_request"
  | RemovePlayer "string + u32"
  | AddPlayer "string + web_login_req"
  | UpdatePlayer "string + player_update_req"
  | ListTunnels "string + list_request"
  | RemoveTunnel "string + u32"
  | AddTunnel "string + tunnel_req"
  | UpdateTunnel "string + tunnel_req"

definition web_handle ::
  "'db web_env \<Rightarrow> web_config \<Rightarrow> web_request \<Rightarrow> identity \<times> 'db server_state \<Rightarrow>
   web_response outcome \<times> (identity \<times> 'db server_state)" where
  "web_handle E cfg req st =
     (let ident = fst st; s = snd st; keep = apsnd (\<lambda>s. (ident, s)) in
      case req of
        Login body \<Rightarrow> apsnd (\<lambda>i. (i, s)) (web_login E cfg body ident)
      | Logout \<Rightarrow> apsnd (\<lambda>i. (i, s)) (web_logout ident)
      | TestAuth \<Rightarrow> (test_auth ident, st)
      | ListPlayers body \<Rightarrow> keep (guarded ident body (web_player_list E) s)
      | RemovePlayer body \<Rightarrow> keep (guarded ident body (web_remove_player E) s)
      | AddPlayer body \<Rightarrow> keep (guarded ident body (web_add_player E) s)
      | UpdatePlayer body \<Rightarrow> keep (guarded ident body (web_update_player E) s)
      | ListTunnels body \<Rightarrow> keep (guarded ident body (web_tunnel_list E) s)
      | RemoveTunnel body \<Rightarrow> keep (guarded ident body (web_remove_tunnel E) s)
      | AddTunnel body \<Rightarrow> keep (guarded ident body (web_add_tunnel E) s)
      | UpdateTunnel body \<Rightarrow> keep (guarded ident body (web_update_tunnel E) s))"

text \<open>The requests of one browser session in turn, with their answers.\<close>

fun web_session ::
  "'db web_env \<Rightarrow> web_config \<Rightarrow> web_request list \<Rightarrow> identity \<times> 'db server_state \<Rightarrow>
   web_response outcome list \<times> (identity \<times> 'db server_state)" where
  "web_session E cfg [] st = ([], st)"
| "web_session E cfg (req # reqs) st =
     (case web_handle E cfg req st of (r, st) \<Rightarrow> apfst (Cons r) (web_session E cfg reqs st))"

end
