(* ===== verification/Server_Run.thy ===== *)
theory Server_Run
  imports Peer_Props Web
begin

text \<open>
  The running server: the accept loop of np\_base/src/net/tcp\_server.rs, which numbers the sessions and
  gives each its own \<open>Peer\<close>, the handlers of the peers, the requests of administrators and the traffic of
  the server's own outlets and inlets, in any order. A handler runs as one step. Shown by rule
  induction: a player that counts as connected has the channel of exactly the peer that logged in as
  it; no handler of a peer panics; and every request is answered once.
\<close>

text \<open>
  One round of \<open>Server::start_server\<close>: the results of the initialisation of the stream and of the TLS
  handshake, where they are configured. The session id is a \<open>u32\<close> that wraps around.
\<close>

definition accept_connection :: "(string + unit) option \<Rightarrow> (string + unit) option \<Rightarrow> u32 \<Rightarrow> u32 \<times> u32 option" where
  "accept_connection stream_init tls seed =
     (case stream_init of
        Some (Inl e) \<Rightarrow> (seed, None)
      | _ \<Rightarrow>
          (let seed = seed + 1; sid = seed in
           case tls of
             Some (Inl e) \<Rightarrow> (seed, None)
           | _ \<Rightarrow> (seed, Some sid)))"

record 'db node =
  nd_seed :: u32
  nd_peers :: "u32 \<Rightarrow> peer option"
  nd_server :: "'db server"

definition node_new :: "'db server \<Rightarrow> 'db node" where
  "node_new sv = \<lparr>nd_seed = 0, nd_peers = (\<lambda>_. None), nd_server = sv\<rparr>"

definition set_node :: "u32 \<Rightarrow> peer option \<Rightarrow> 'db server \<Rightarrow> 'db node \<Rightarrow> 'db node" where
  "set_node sid p sv n = n\<lparr>nd_peers := (nd_peers n)(sid := p), nd_server := sv\<rparr>"

text \<open>The guard of \<open>accept\<close>: fewer than \<open>2 ^ 32\<close> connections, and a channel of its own for each.\<close>

inductive connection_step :: "'db peer_env \<Rightarrow> 'db node \<times> world \<Rightarrow> 'db node \<times> world \<Rightarrow> bool" for E where
    accept: "accept_connection stream_init tls (nd_seed n) = (seed, Some sid) \<Longrightarrow> seed \<noteq> 0 \<Longrightarrow>
      (\<And>i q. nd_peers n i = Some q \<Longrightarrow> pr_tx q \<noteq> Some ch) \<Longrightarrow>
      peer_on_session_start sid a ch ((peer_new, nd_server n), w) = (Ok (), ((p, sv), w')) \<Longrightarrow>
      connection_step E (n, w) ((set_node sid (Some p) sv n)\<lparr>nd_seed := seed\<rparr>, w')"
  | refuse: "accept_connection stream_init tls (nd_seed n) = (seed, None) \<Longrightarrow> seed \<noteq> 0 \<or> seed = nd_seed n \<Longrightarrow>
      connection_step E (n, w) (n\<lparr>nd_seed := seed\<rparr>, w)"
  | extraction: "nd_peers n sid = Some p \<Longrightarrow>
      peer_on_try_extract_frame E buf ((p, nd_server n), w) = (r, (rest, ((p', sv), w'))) \<Longrightarrow>
      connection_step E (n, w) (set_node sid (Some p') sv n, w')"
  | frame: "nd_peers n sid = Some p \<Longrightarrow>
      peer_on_recv_frame E f ((p, nd_server n), w) = (r, ((p', sv), w')) \<Longrightarrow>
      connection_step E (n, w) (set_node sid (Some p') sv n, w')"
  | close: "nd_peers n sid = Some p \<Longrightarrow>
      peer_on_session_close ((p, nd_server n), w) = (r, ((p', sv), w')) \<Longrightarrow>
      connection_step E (n, w) (set_node sid None sv n, w')"
  | outlet: "server_outlet_output E rt m (nd_server n, w) = (sv, w') \<Longrightarrow>
      connection_step E (n, w) (n\<lparr>nd_server := sv\<rparr>, w')"
  | inlet: "server_inlet_output E rt m (nd_server n, w) = (sv, w') \<Longrightarrow>
      connection_step E (n, w) (n\<lparr>nd_server := sv\<rparr>, w')"
  | tasks: "connection_step E (n, w) (n, w')"

text \<open>The steps of the server: those of its connections and its own tunnel ends, and the administrators'.\<close>

inductive server_step :: "'db peer_env \<Rightarrow> 'db web_env \<Rightarrow> web_config \<Rightarrow> 'db node \<times> world \<Rightarrow> 'db node \<times> world \<Rightarrow> bool"
  for E F cfg where
    connection: "connection_step E s t \<Longrightarrow> server_step E F cfg s t"
  | admin: "web_handle F cfg req (ident, (nd_server n, w)) = (answer, (ident', (sv, w'))) \<Longrightarrow>
      server_step E F cfg (n, w) (n\<lparr>nd_server := sv\<rparr>, w')"

inductive server_reach :: "'db peer_env \<Rightarrow> 'db web_env \<Rightarrow> web_config \<Rightarrow> 'db node \<times> world \<Rightarrow> bool" for E F cfg where
    start: "init_managers E (new_server d, w) = (Ok (), (sv, w')) \<Longrightarrow> server_reach E F cfg (node_new sv, w')"
  | step: "server_reach E F cfg s \<Longrightarrow> server_step E F cfg s t \<Longrightarrow> server_reach E F cfg t"

section \<open>What the managers do to players\<close>

text \<open>Players are kept as they are; new ones are not connected.\<close>

definition keeps_players :: "'db server \<Rightarrow> 'db server \<Rightarrow> bool" where
  "keeps_players sv sv' \<longleftrightarrow>
     sv_next sv \<le> sv_next sv'
     \<and> (\<forall>r. sv_pstore sv' r = sv_pstore sv r
          \<or> sv_next sv \<le> r \<and> pl_session_id (sv_pstore sv' r) = 0 \<and> pl_tx (sv_pstore sv' r) = None)
     \<and> (refs_ok sv \<longrightarrow> refs_ok sv')"

lemma keeps_players_same:
  "sv_next sv' = sv_next sv \<Longrightarrow> sv_pstore sv' = sv_pstore sv \<Longrightarrow> sv_player_map sv' = sv_player_map sv \<Longrightarrow>
   keeps_players sv sv'"
  by (simp add: keeps_players_def refs_ok_def)

lemma keeps_players_refl [simp]: "keeps_players sv sv"
  by (simp add: keeps_players_same)

lemma keeps_players_db [simp]: "keeps_players sv (sv\<lparr>sv_db := d\<rparr>)"
  by (simp add: keeps_players_same)

lemma keeps_players_trans [trans]:
  assumes "keeps_players a b" and "keeps_players b c"
  shows "keeps_players a c"
  unfolding keeps_players_def
proof (intro conjI allI)
  fix r
  from assms show "sv_pstore c r = sv_pstore a r
      \<or> sv_next a \<le> r \<and> pl_session_id (sv_pstore c r) = 0 \<and> pl_tx (sv_pstore c r) = None"
    unfolding keeps_players_def by (metis le_trans)
qed (use assms in \<open>auto simp: keeps_players_def\<close>)

lemma keeps_players_create [simp]: "keeps_players sv (create_player pid sv)"
  by (auto simp: keeps_players_def create_player_def player_new_def refs_ok_def Let_def less_Suc_eq)

lemma keeps_players_sync [simp]: "keeps_players sv (fst (server_sync_tunnels E s)) = keeps_players sv (fst s)"
proof -
  have "sv_next (fst (server_sync_tunnels E s)) = sv_next (fst s)"
    by (simp add: server_sync_tunnels_def Let_def split: prod.splits)
  then show ?thesis by (simp add: keeps_players_def refs_ok_def)
qed

lemma keeps_players_ops:
  "keeps_players (fst s) (fst (snd (add_tunnel E t s)))"
  "keeps_players (fst s) (fst (snd (delete_tunnel E tun s)))"
  "keeps_players (fst s) (fst (snd (update_tunnel E t s)))"
  "keeps_players (fst s) (fst (snd (add_player E samples now name pass s)))"
  "keeps_players (fst s) (fst (snd (update_player E pid name pass s)))"
proof -
  show "keeps_players (fst s) (fst (snd (add_tunnel E t s)))"
    by (cases rule: add_tunnel_cases [of E t s]) (simp_all add: keeps_players_same)
  show "keeps_players (fst s) (fst (snd (delete_tunnel E tun s)))"
    by (cases rule: delete_tunnel_cases [of E tun s]) (simp_all add: keeps_players_same)
  show "keeps_players (fst s) (fst (snd (update_tunnel E t s)))"
    by (cases rule: update_tunnel_cases [of E t s]) (simp_all add: keeps_players_same)
  show "keeps_players (fst s) (fst (snd (add_player E samples now name pass s)))"
    by (cases rule: add_player_cases [of E samples now name pass s])
      (auto intro: keeps_players_trans [OF keeps_players_db keeps_players_create])
  show "keeps_players (fst s) (fst (snd (update_player E pid name pass s)))"
    by (simp add: update_player_def snd_and_then Let_def case_prod_beta split: option.splits outcome.splits)
qed

lemma delete_player_keeps_players: "keeps_players (fst s) (fst (snd (delete_player E pid s)))"
proof -
  let ?tuns = "map tm_id (filter (\<lambda>x. tm_sender x = pid \<or> tm_receiver x = pid) (sv_tunnels (fst s)))"
  obtain r t where r: "run_all (delete_tunnel E) ?tuns s = (r, t)" by (rule prod.exhaust)
  have "keeps_players (fst s) (fst (snd (run_all (delete_tunnel E) ?tuns s)))"
    by (rule run_all_inv [where I = "\<lambda>u. keeps_players (fst s) (fst u)"])
      (auto intro: keeps_players_trans keeps_players_ops)
  with r have "keeps_players (fst s) (fst t)" by simp
  moreover have "keeps_players (fst t) (fst (snd (delete_player E pid s)))"
    by (cases r) (simp_all add: delete_player_def r keeps_players_same Let_def snd_and_then case_prod_beta
        split: outcome.splits option.splits)
  ultimately show ?thesis by (rule keeps_players_trans)
qed

lemma web_handle_keeps_players:
  assumes "web_handle F cfg req (ident, (sv, w)) = (answer, (ident', (sv', w')))"
  shows "keeps_players sv sv'"
proof -
  have guarded: "keeps_players sv (fst (snd (guarded ident body f (sv, w))))"
    if "\<And>b. keeps_players sv (fst (snd (f b (sv, w))))" for body and f :: "'r \<Rightarrow> _"
    using that by (simp add: guarded_def snd_and_then split: option.splits outcome.splits)
  have result: "snd (result_response c x) = snd x" for c and x :: "unit outcome \<times> _"
    by (simp add: result_response_def split: prod.splits outcome.splits)
  have "keeps_players sv (fst (snd (snd (web_handle F cfg req (ident, (sv, w))))))"
    using keeps_players_ops [where s = "(sv, w)"] delete_player_keeps_players [where s = "(sv, w)"]
    by (cases req) (auto simp: web_handle_def Let_def result web_player_list_def web_remove_player_def
        web_add_player_def web_update_player_def web_tunnel_list_def web_remove_tunnel_def web_add_tunnel_def
        web_update_tunnel_def snd_and_then case_prod_beta intro!: guarded split: sum.splits outcome.splits)
  with assms show ?thesis by simp
qed

lemma send_input_fst [simp]:
  "fst (send_input_to_outlet tun m s) = fst s" "fst (send_input_to_inlet tun m s) = fst s"
  by (simp_all add: send_input_to_outlet_def send_input_to_inlet_def split: option.splits)

lemma server_send_proxy_fst [simp]: "fst (server_send_proxy_message E from to tun m s) = fst s"
  by (simp add: server_send_proxy_message_def Let_def split: option.splits)

lemma output_fst [simp]:
  "fst (server_outlet_output E rt m s) = fst s" "fst (server_inlet_output E rt m s) = fst s"
  by (simp_all add: server_outlet_output_def server_inlet_output_def)

lemma init_managers_refs:
  assumes "init_managers E (new_server d, w) = (Ok (), (sv, w'))"
  shows "refs_ok sv \<and> (\<forall>r. pl_session_id (sv_pstore sv r) = 0 \<and> pl_tx (sv_pstore sv r) = None)"
proof -
  let ?ok = "\<lambda>sv. refs_ok sv \<and> (\<forall>r. pl_session_id (sv_pstore sv r) = 0 \<and> pl_tx (sv_pstore sv r) = None)"
  have fold: "?ok sv0 \<Longrightarrow> ?ok (fold (\<lambda>u. create_player (um_id u)) us sv0)" for us :: "user_model list" and sv0 :: "'a server"
  proof (induction us arbitrary: sv0)
    case (Cons u us)
    have "?ok (create_player (um_id u) sv0)"
      using Cons.prems by (auto simp: create_player_def player_new_def refs_ok_def Let_def less_Suc_eq)
    from Cons.IH [OF this] show ?case by simp
  qed simp
  have sync: "?ok (fst (server_sync_tunnels E s)) = ?ok (fst s)" for s :: "'a server_state"
    by (simp add: refs_ok_def) (simp add: server_sync_tunnels_def Let_def split: prod.splits)
  obtain ts and us :: "user_model list" where "server_sync_tunnels E (fold (\<lambda>u. create_player (um_id u)) us
      ((new_server d)\<lparr>sv_tunnels := ts\<rparr>), w) = (sv, w')"
    using assms by (auto simp: init_managers_def load_all_tunnel_def load_all_player_def and_then_Ok_iff)
  then have sv: "sv = fst (server_sync_tunnels E (fold (\<lambda>u. create_player (um_id u)) us
      ((new_server d)\<lparr>sv_tunnels := ts\<rparr>), w))" by simp
  have "?ok ((new_server d)\<lparr>sv_tunnels := ts\<rparr>)"
    by (simp add: new_server_def refs_ok_def player_new_def)
  from fold [OF this] show ?thesis unfolding sv by (intro iffD2 [OF sync]) simp
qed

section \<open>What a peer does\<close>

text \<open>The effect of a handler: the peer stays or logs in.\<close>

definition peer_effect :: "peer \<Rightarrow> 'db server \<Rightarrow> peer \<Rightarrow> 'db server \<Rightarrow> bool" where
  "peer_effect p sv p' sv' \<longleftrightarrow>
     (\<exists>fw. p' = p\<lparr>pr_forward := fw\<rparr>) \<and> keeps_players sv sv'
     \<or> (\<exists>r ch pid. pr_player p = None \<and> pr_tx p = Some ch \<and> get_player pid sv = Some r
          \<and> p' = p\<lparr>pr_player := Some r\<rparr>
          \<and> sv' = upd_player r ((sv_pstore sv r)\<lparr>pl_session_id := pr_session_id p, pl_tx := Some ch\<rparr>) sv)"

lemma peer_effect_same [simp]: "keeps_players sv sv' \<Longrightarrow> peer_effect p sv p sv'"
  unfolding peer_effect_def by (intro disjI1 conjI exI [of _ "pr_forward p"]) simp_all

lemma register_effect:
  "\<exists>r sv'. on_register_request E req ((p, sv), w) = (r, ((p, sv'), w)) \<and> keeps_players sv sv'
    \<and> r \<noteq> Panic \<and> r \<noteq> Pending \<and> (\<forall>x. r = Ok x \<longrightarrow> \<not> message_is_none x)"
proof (cases rule: add_player_cases [of E "id_samples E" "create_time E" "register_req.username req"
        "register_req.password req" "(sv, w)"])
  case (failed r d)
  then show ?thesis
    by (cases r) (auto simp: on_register_request_def on_server_def)
next
  case (added pid d)
  then show ?thesis
    using keeps_players_trans [OF keeps_players_db keeps_players_create]
    by (simp add: on_register_request_def on_server_def)
qed

lemma peer_handle_request_effect:
  assumes "pr_tx p \<noteq> None" and "pr_session_id p \<noteq> 0"
  shows "\<exists>r p' sv' w'. peer_handle_request E m ((p, sv), w) = (r, ((p', sv'), w')) \<and> peer_effect p sv p' sv'
    \<and> r \<noteq> Panic \<and> r \<noteq> Pending \<and> (\<forall>x. r = Ok x \<longrightarrow> \<not> message_is_none x)"
proof -
  consider (login) req where "m = ClientServerLoginReq req"
    | (register) req where "m = ClientServerRegisterReq req"
    | (other) "\<forall>x. m \<noteq> ClientServerLoginReq x" "\<forall>x. m \<noteq> ClientServerRegisterReq x"
    by blast
  then show ?thesis
  proof cases
    case (login req)
    show ?thesis
    proof (cases rule: login_cases [of E req p sv w])
      case (refused r)
      with login show ?thesis by (fastforce simp: peer_handle_request_def)
    next
      case (granted user r)
      from assms(1) obtain ch where ch: "pr_tx p = Some ch" by blast
      from login_found [OF granted(1) this assms(2) granted(2,3), of w] login granted(1,3) ch
      show ?thesis by (auto simp: peer_handle_request_def peer_effect_def)
    qed
  next
    case (register req)
    then show ?thesis
      using register_effect [of E req p sv w] by (auto simp: peer_handle_request_def)
  next
    case other
    then show ?thesis
      by (cases m) (auto simp: peer_handle_request_def player_handle_request_def on_ping_request_def split: option.splits)
  qed
qed

lemma peer_handle_push_effect:
  "\<exists>w'. peer_handle_push E m ((p, sv), w) = (Ok (), ((p, sv), w'))"
proof -
  have "on_server (\<lambda>s. (Ok (), server_send_proxy_message E i j tun pm s)) ((p, sv), w) =
      (Ok (), ((p, sv), snd (server_send_proxy_message E i j tun pm (sv, w))))" for i j tun pm
    by (simp add: on_server_def case_prod_beta)
  then show ?thesis by (simp add: peer_handle_push_def Let_def case_prod_beta split: option.splits)
qed

lemma send_response_effect:
  "sint n < 0 \<Longrightarrow> peer_send_response E n m s =
    (Ok (), (fst s, peer_package_and_send_message (prost_io E) (pr_tx (peer_of s)) (- n) m True (snd s)))"
  by (simp add: peer_send_response_def)

lemma on_world_send_w:
  "fst (snd (on_world (send_w tx m) s)) = fst s" "fst (on_world (send_w tx m) s) \<noteq> Panic"
  "fst (on_world (send_w tx m) s) \<noteq> Pending"
  by (simp_all add: on_world_def case_prod_beta)

lemma send_http_404_effect:
  "fst (snd (send_http_404_response E s)) = fst s" "fst (send_http_404_response E s) \<noteq> Panic"
  "fst (send_http_404_response E s) \<noteq> Pending"
  by (simp_all add: send_http_404_response_def and_then_proj on_world_send_w split: option.splits outcome.splits)

lemma reject_effect:
  "fst (snd (reject E e s)) = fst s" "fst (reject E e s) \<noteq> Panic" "fst (reject E e s) \<noteq> Pending"
  using send_http_404_effect [of E s] by (auto simp: reject_def split: prod.splits outcome.splits)

definition peer_ok :: "peer \<Rightarrow> 'db server \<Rightarrow> 'a outcome \<times> 'db peer_state \<Rightarrow> bool" where
  "peer_ok p sv x \<longleftrightarrow> peer_effect p sv (peer_of (snd x)) (server_of (snd x)) \<and> fst x \<noteq> Panic \<and> fst x \<noteq> Pending"

lemma reject_ok [simp]: "peer_ok p sv (reject E e ((p, sv), w))"
  by (simp add: peer_ok_def reject_effect)

lemma peer_on_recv_frame_effect:
  assumes "pr_tx p \<noteq> None" and "pr_session_id p \<noteq> 0"
  shows "peer_ok p sv (peer_on_recv_frame E f ((p, sv), w))"
proof (cases "length f < 8")
  case False
  let ?serial = "read_u32 (take 4 f)"
  show ?thesis
  proof (cases "decode_message (prost_io E) (read_u32 (take 4 (drop 4 f))) (drop 8 f)")
    case (Ok m)
    show ?thesis
    proof (cases "sint ?serial < 0")
      case True
      obtain r p' sv' w' where r: "peer_handle_request E m ((p, sv), w) = (r, ((p', sv'), w'))" "peer_effect p sv p' sv'"
          "r \<noteq> Panic" "r \<noteq> Pending" "\<forall>x. r = Ok x \<longrightarrow> \<not> message_is_none x"
        using peer_handle_request_effect [OF assms] by blast
      with False Ok True show ?thesis
        by (cases r) (simp_all add: peer_on_recv_frame_def peer_handle_message_def send_response_effect peer_ok_def)
    next
      case neg: False
      obtain w' where "peer_handle_push E m ((p, sv), w) = (Ok (), ((p, sv), w'))"
        using peer_handle_push_effect by blast
      with False Ok neg show ?thesis
        by (simp add: peer_on_recv_frame_def peer_handle_message_def peer_handle_response_def peer_ok_def Let_def)
    qed
  qed (use False decode_message_total in \<open>simp_all add: peer_on_recv_frame_def\<close>)
qed (simp add: peer_on_recv_frame_def)

lemma forward_channel_effect:
  "\<exists>r fw. create_traffic_forward_channel E ((p, sv), w) = (r, ((p\<lparr>pr_forward := fw\<rparr>, sv), w))"
proof -
  have same: "\<exists>fw. p = p\<lparr>pr_forward := fw\<rparr>" by (rule exI [of _ "pr_forward p"]) simp
  then show ?thesis
    by (auto simp: create_traffic_forward_channel_def io_result_def split: option.splits sum.splits)
qed

lemma extract_limit_returns: "fst (try_extract_limit lim buf) \<noteq> Panic" "fst (try_extract_limit lim buf) \<noteq> Pending"
  by (simp_all add: try_extract_limit_def Let_def)

lemma peer_effect_forward [simp]: "peer_effect p sv (p\<lparr>pr_forward := fw\<rparr>) sv"
  by (auto simp: peer_effect_def)

lemma peer_ok_forward [simp]:
  "peer_ok p sv (x, ((p\<lparr>pr_forward := fw\<rparr>, sv), v)) \<longleftrightarrow> x \<noteq> Panic \<and> x \<noteq> Pending"
  "peer_ok p sv (reject E e ((p\<lparr>pr_forward := fw\<rparr>, sv), v))"
  by (simp_all add: peer_ok_def reject_effect)

lemma apsnd_snd_Pair: "apsnd snd (apsnd (Pair b) x) = x"
  by (cases x) simp

text \<open>The second half of the extraction, once it is known whether the connection is forwarded.\<close>

lemma extraction_rest:
  assumes "s = ((p\<lparr>pr_forward := fw\<rparr>, sv), w)"
  shows "peer_ok p sv (apsnd snd
     (case pr_forward (peer_of s) of
        Some sent \<Rightarrow>
          (case forward_write E buf of
             Inl e \<Rightarrow> (Err e, ([], s))
           | Inr _ \<Rightarrow> (Ok None, ([], set_peer (\<lambda>p. p\<lparr>pr_forward := Some (sent @ [buf])\<rparr>) s)))
      | None \<Rightarrow>
          (case try_extract_limit lim buf of
             (Ok frame, buf) \<Rightarrow> (Ok frame, (buf, s))
           | (Err e, buf) \<Rightarrow> apsnd (\<lambda>s. (buf, s)) (reject E e s)
           | (Panic, buf) \<Rightarrow> (Panic, (buf, s))
           | (Pending, buf) \<Rightarrow> (Pending, (buf, s)))))"
proof (cases fw)
  case None
  obtain r b where "try_extract_limit lim buf = (r, b)" by fastforce
  with extract_limit_returns [of lim buf] None assms show ?thesis
    by (cases r) (simp_all add: apsnd_snd_Pair)
qed (simp add: assms split: sum.splits)

lemma peer_extraction_effect:
  "peer_ok p sv (apsnd snd (peer_on_try_extract_frame E buf ((p, sv), w)))"
proof -
  obtain r fw where ch: "create_traffic_forward_channel E ((p, sv), w) = (r, ((p\<lparr>pr_forward := fw\<rparr>, sv), w))"
    using forward_channel_effect by blast
  let ?q = "p\<lparr>pr_forward := fw\<rparr>"
  show ?thesis
  proof (cases "length buf > 0 \<and> pr_forward (peer_of ((p, sv), w)) = None \<and> buf ! 0 \<noteq> 33")
    case False
    show ?thesis
      unfolding peer_on_try_extract_frame_def if_not_P [OF False] prod.case outcome.case
      by (rule extraction_rest [where fw = "pr_forward p"]) simp
  next
    case True
    show ?thesis
    proof (cases "is_Ok r")
      case True': True
      then obtain u where u: "r = Ok u" by (auto simp: is_Ok_iff)
      show ?thesis
        unfolding peer_on_try_extract_frame_def if_P [OF True] ch u prod.case outcome.case
        by (rule extraction_rest [OF refl])
    next
      case False
      obtain r' s' where rej: "(reject E ''Bad flag'' ((?q, sv), w) :: unit outcome \<times> _) = (r', s')" by (rule prod.exhaust)
      have "peer_ok p sv (reject E ''Bad flag'' ((?q, sv), w) :: unit outcome \<times> _)" by simp
      then have "peer_effect p sv (peer_of s') (server_of s')" "r' \<noteq> Panic" "r' \<noteq> Pending"
        unfolding rej by (simp_all add: peer_ok_def)
      moreover have "\<not> is_Ok r'" using rej [symmetric] by (auto simp: reject_def split: prod.splits outcome.splits)
      ultimately show ?thesis using True False ch rej
        by (cases r; cases r') (auto simp: peer_on_try_extract_frame_def peer_ok_def)
    qed
  qed
qed
section \<open>The sessions of players\<close>

definition sessions_ok :: "'db node \<Rightarrow> bool" where
  "sessions_ok n \<longleftrightarrow>
     refs_ok (nd_server n)
     \<and> (\<forall>sid p. nd_peers n sid = Some p \<longrightarrow> sid \<noteq> 0 \<and> sid \<le> nd_seed n \<and> pr_session_id p = sid \<and> pr_tx p \<noteq> None
          \<and> (\<forall>r. pr_player p = Some r \<longrightarrow> r < sv_next (nd_server n)))
     \<and> (\<forall>i j p q. nd_peers n i = Some p \<and> nd_peers n j = Some q \<and> pr_tx p = pr_tx q \<longrightarrow> i = j)
     \<and> (\<forall>r. is_online (sv_pstore (nd_server n) r) \<longrightarrow>
          (\<exists>p. nd_peers n (pl_session_id (sv_pstore (nd_server n) r)) = Some p \<and> pr_player p = Some r
             \<and> pl_tx (sv_pstore (nd_server n) r) = pr_tx p))
     \<and> (\<forall>r. \<not> is_online (sv_pstore (nd_server n) r) \<longrightarrow> pl_tx (sv_pstore (nd_server n) r) = None)"

lemma sessions_okD:
  assumes "sessions_ok n"
  shows "refs_ok (nd_server n)"
    and "nd_peers n sid = Some p \<Longrightarrow> sid \<noteq> 0 \<and> sid \<le> nd_seed n \<and> pr_session_id p = sid \<and> pr_tx p \<noteq> None"
    and "nd_peers n sid = Some p \<Longrightarrow> pr_player p = Some r \<Longrightarrow> r < sv_next (nd_server n)"
    and "nd_peers n i = Some p \<Longrightarrow> nd_peers n j = Some q \<Longrightarrow> pr_tx p = pr_tx q \<Longrightarrow> i = j"
    and "is_online (sv_pstore (nd_server n) r) \<Longrightarrow>
      \<exists>p. nd_peers n (pl_session_id (sv_pstore (nd_server n) r)) = Some p \<and> pr_player p = Some r
        \<and> pl_tx (sv_pstore (nd_server n) r) = pr_tx p"
    and "\<not> is_online (sv_pstore (nd_server n) r) \<Longrightarrow> pl_tx (sv_pstore (nd_server n) r) = None"
  using assms unfolding sessions_ok_def by (elim conjE; blast)+

lemma sessions_ok_keeps:
  assumes "sessions_ok n" and "keeps_players (nd_server n) sv'"
  shows "sessions_ok (n\<lparr>nd_server := sv'\<rparr>)"
  unfolding sessions_ok_def
proof (intro conjI allI impI; (elim conjE)?)
  note ok = sessions_okD [OF assms(1)]
  have next_le: "sv_next (nd_server n) \<le> sv_next sv'" and refs: "refs_ok sv'"
    and same: "sv_pstore sv' r = sv_pstore (nd_server n) r
      \<or> pl_session_id (sv_pstore sv' r) = 0 \<and> pl_tx (sv_pstore sv' r) = None" for r
    using assms(2) ok(1) unfolding keeps_players_def by blast+
  show "refs_ok (nd_server (n\<lparr>nd_server := sv'\<rparr>))" using refs by simp
  show "sid \<noteq> 0" "sid \<le> nd_seed (n\<lparr>nd_server := sv'\<rparr>)" "pr_session_id p = sid" "pr_tx p \<noteq> None"
    if "nd_peers (n\<lparr>nd_server := sv'\<rparr>) sid = Some p" for sid p
    using that ok(2) by auto
  show "r < sv_next (nd_server (n\<lparr>nd_server := sv'\<rparr>))"
    if "nd_peers (n\<lparr>nd_server := sv'\<rparr>) sid = Some p" "pr_player p = Some r" for sid p r
    using that ok(3) next_le by fastforce
  show "i = j" if "nd_peers (n\<lparr>nd_server := sv'\<rparr>) i = Some p" "nd_peers (n\<lparr>nd_server := sv'\<rparr>) j = Some q"
      "pr_tx p = pr_tx q" for i j p q
    using that ok(4) by auto
  show "\<exists>p. nd_peers (n\<lparr>nd_server := sv'\<rparr>) (pl_session_id (sv_pstore (nd_server (n\<lparr>nd_server := sv'\<rparr>)) r)) = Some p
      \<and> pr_player p = Some r \<and> pl_tx (sv_pstore (nd_server (n\<lparr>nd_server := sv'\<rparr>)) r) = pr_tx p"
    if "is_online (sv_pstore (nd_server (n\<lparr>nd_server := sv'\<rparr>)) r)" for r
    using that ok(5) [of r] same [of r] by (auto simp: is_online_def)
  show "pl_tx (sv_pstore (nd_server (n\<lparr>nd_server := sv'\<rparr>)) r) = None"
    if "\<not> is_online (sv_pstore (nd_server (n\<lparr>nd_server := sv'\<rparr>)) r)" for r
    using that ok(6) [of r] same [of r] by (auto simp: is_online_def)
qed
lemma sessions_okI:
  assumes "refs_ok (nd_server n)"
    and "\<And>sid p. nd_peers n sid = Some p \<Longrightarrow> sid \<noteq> 0 \<and> sid \<le> nd_seed n \<and> pr_session_id p = sid \<and> pr_tx p \<noteq> None"
    and "\<And>sid p r. nd_peers n sid = Some p \<Longrightarrow> pr_player p = Some r \<Longrightarrow> r < sv_next (nd_server n)"
    and "\<And>i j p q. nd_peers n i = Some p \<Longrightarrow> nd_peers n j = Some q \<Longrightarrow> pr_tx p = pr_tx q \<Longrightarrow> i = j"
    and "\<And>r. is_online (sv_pstore (nd_server n) r) \<Longrightarrow>
      \<exists>p. nd_peers n (pl_session_id (sv_pstore (nd_server n) r)) = Some p \<and> pr_player p = Some r
        \<and> pl_tx (sv_pstore (nd_server n) r) = pr_tx p"
    and "\<And>r. \<not> is_online (sv_pstore (nd_server n) r) \<Longrightarrow> pl_tx (sv_pstore (nd_server n) r) = None"
  shows "sessions_ok n"
  using assms unfolding sessions_ok_def by (intro conjI allI impI; (elim conjE)?; blast)

lemma sessions_ok_forward:
  assumes "sessions_ok n" and "nd_peers n sid = Some p"
  shows "sessions_ok (n\<lparr>nd_peers := (nd_peers n)(sid := Some (p\<lparr>pr_forward := fw\<rparr>))\<rparr>)"
proof (rule sessions_okI)
  note ok = sessions_okD [OF assms(1)]
  let ?n = "n\<lparr>nd_peers := (nd_peers n)(sid := Some (p\<lparr>pr_forward := fw\<rparr>))\<rparr>"
  show "refs_ok (nd_server ?n)" using ok(1) by simp
  show "i \<noteq> 0 \<and> i \<le> nd_seed ?n \<and> pr_session_id q = i \<and> pr_tx q \<noteq> None" if "nd_peers ?n i = Some q" for i q
    using that ok(2) assms(2) by (auto split: if_splits)
  show "r < sv_next (nd_server ?n)" if "nd_peers ?n i = Some q" "pr_player q = Some r" for i q r
    using that ok(3) assms(2) by (auto split: if_splits)
  show "i = j" if "nd_peers ?n i = Some q" "nd_peers ?n j = Some q'" "pr_tx q = pr_tx q'" for i j q q'
    using that ok(4) assms(2) by (auto split: if_splits)
  show "\<exists>q. nd_peers ?n (pl_session_id (sv_pstore (nd_server ?n) r)) = Some q \<and> pr_player q = Some r
      \<and> pl_tx (sv_pstore (nd_server ?n) r) = pr_tx q" if "is_online (sv_pstore (nd_server ?n) r)" for r
    using that ok(5) assms(2) by fastforce
  show "pl_tx (sv_pstore (nd_server ?n) r) = None" if "\<not> is_online (sv_pstore (nd_server ?n) r)" for r
    using that ok(6) by simp
qed

lemma sessions_ok_login:
  assumes "sessions_ok n" and "nd_peers n sid = Some p" and "pr_player p = None" and "pr_tx p = Some ch"
    and "get_player pid (nd_server n) = Some r"
    and "sv' = upd_player r ((sv_pstore (nd_server n) r)\<lparr>pl_session_id := pr_session_id p, pl_tx := Some ch\<rparr>) (nd_server n)"
  shows "sessions_ok (set_node sid (Some (p\<lparr>pr_player := Some r\<rparr>)) sv' n)"
proof (rule sessions_okI)
  note ok = sessions_okD [OF assms(1)]
  let ?n = "set_node sid (Some (p\<lparr>pr_player := Some r\<rparr>)) sv' n"
  have r: "r < sv_next (nd_server n)" using ok(1) assms(5) by (auto simp: refs_ok_def get_player_def)
  have sid: "pr_session_id p = sid" "sid \<noteq> 0" using ok(2) [OF assms(2)] by auto
  note sv' = assms(6)
  show "refs_ok (nd_server ?n)" using ok(1) by (simp add: set_node_def sv' refs_ok_def)
  show "i \<noteq> 0 \<and> i \<le> nd_seed ?n \<and> pr_session_id q = i \<and> pr_tx q \<noteq> None" if "nd_peers ?n i = Some q" for i q
    using that ok(2) assms(2) by (auto simp: set_node_def split: if_splits)
  show "k < sv_next (nd_server ?n)" if "nd_peers ?n i = Some q" "pr_player q = Some k" for i q k
    using that ok(3) r by (auto simp: set_node_def sv' split: if_splits)
  show "i = j" if "nd_peers ?n i = Some q" "nd_peers ?n j = Some q'" "pr_tx q = pr_tx q'" for i j q q'
    using that ok(4) assms(2) by (auto simp: set_node_def split: if_splits)
  show "\<exists>q. nd_peers ?n (pl_session_id (sv_pstore (nd_server ?n) k)) = Some q \<and> pr_player q = Some k
      \<and> pl_tx (sv_pstore (nd_server ?n) k) = pr_tx q" if "is_online (sv_pstore (nd_server ?n) k)" for k
  proof (cases "k = r")
    case True
    with sid assms(4) show ?thesis by (simp add: set_node_def sv')
  next
    case False
    with that ok(5) [of k] assms(2,3) show ?thesis by (auto simp: set_node_def sv')
  qed
  show "pl_tx (sv_pstore (nd_server ?n) k) = None" if "\<not> is_online (sv_pstore (nd_server ?n) k)" for k
    using that ok(6) [of k] sid by (auto simp: set_node_def sv' is_online_def word_neq_0_conv split: if_splits)
qed

lemma sessions_ok_effect:
  assumes "sessions_ok n" and "nd_peers n sid = Some p" and "peer_effect p (nd_server n) p' sv'"
  shows "sessions_ok (set_node sid (Some p') sv' n)"
  using assms(3) unfolding peer_effect_def
proof (elim disjE exE conjE)
  fix fw assume fw: "p' = p\<lparr>pr_forward := fw\<rparr>" and keeps: "keeps_players (nd_server n) sv'"
  have eq: "set_node sid (Some p') sv' n =
      (n\<lparr>nd_peers := (nd_peers n)(sid := Some (p\<lparr>pr_forward := fw\<rparr>))\<rparr>)\<lparr>nd_server := sv'\<rparr>"
    by (simp add: set_node_def fw)
  show ?thesis
    unfolding eq using keeps by (intro sessions_ok_keeps sessions_ok_forward assms(1,2)) simp
next
  fix r ch pid
  assume "pr_player p = None" "pr_tx p = Some ch" "get_player pid (nd_server n) = Some r"
    and p': "p' = p\<lparr>pr_player := Some r\<rparr>"
    and "sv' = upd_player r ((sv_pstore (nd_server n) r)\<lparr>pl_session_id := pr_session_id p, pl_tx := Some ch\<rparr>) (nd_server n)"
  from sessions_ok_login [OF assms(1,2) this(1-3,5)] show ?thesis unfolding p' .
qed

lemma sessions_ok_close:
  assumes "sessions_ok n" and "nd_peers n sid = Some p"
    and "peer_on_session_close ((p, nd_server n), w) = (r, ((p', sv'), w'))"
  shows "sessions_ok (set_node sid None sv' n)"
proof (rule sessions_okI)
  note ok = sessions_okD [OF assms(1)]
  let ?n = "set_node sid None sv' n"
  have sid: "pr_session_id p = sid" "sid \<noteq> 0" using ok(2) [OF assms(2)] by auto
  have sv': "sv' = nd_server n \<or> (\<exists>r. sv' = upd_player r (reset_session_info (sv_pstore (nd_server n) r)) (nd_server n))"
    using assms(3) by (auto simp: peer_on_session_close_def on_disconnect_session_def Let_def split: option.splits if_splits)
  have off: "sv_pstore sv' k = sv_pstore (nd_server n) k \<and> pl_session_id (sv_pstore (nd_server n) k) \<noteq> sid
      \<or> pl_session_id (sv_pstore sv' k) = 0 \<and> pl_tx (sv_pstore sv' k) = None" for k
  proof (cases "pl_session_id (sv_pstore (nd_server n) k) = sid")
    case True
    with sid ok(5) [of k] assms(2) have "pr_player p = Some k" by (auto simp: is_online_def word_neq_0_conv)
    with True sid assms(3) show ?thesis
      by (auto simp: peer_on_session_close_def on_disconnect_session_def reset_session_info_def Let_def)
  next
    case False
    with sv' show ?thesis by (auto simp: reset_session_info_def)
  qed
  show "refs_ok (nd_server ?n)" using ok(1) sv' by (auto simp: set_node_def refs_ok_def)
  show "i \<noteq> 0 \<and> i \<le> nd_seed ?n \<and> pr_session_id q = i \<and> pr_tx q \<noteq> None" if "nd_peers ?n i = Some q" for i q
    using that ok(2) by (auto simp: set_node_def split: if_splits)
  show "k < sv_next (nd_server ?n)" if "nd_peers ?n i = Some q" "pr_player q = Some k" for i q k
    using that ok(3) sv' by (auto simp: set_node_def split: if_splits)
  show "i = j" if "nd_peers ?n i = Some q" "nd_peers ?n j = Some q'" "pr_tx q = pr_tx q'" for i j q q'
    using that ok(4) by (auto simp: set_node_def split: if_splits)
  show "\<exists>q. nd_peers ?n (pl_session_id (sv_pstore (nd_server ?n) k)) = Some q \<and> pr_player q = Some k
      \<and> pl_tx (sv_pstore (nd_server ?n) k) = pr_tx q" if "is_online (sv_pstore (nd_server ?n) k)" for k
    using that ok(5) [of k] off [of k] by (auto simp: set_node_def is_online_def)
  show "pl_tx (sv_pstore (nd_server ?n) k) = None" if "\<not> is_online (sv_pstore (nd_server ?n) k)" for k
    using that ok(6) [of k] off [of k] by (auto simp: set_node_def is_online_def)
qed
lemma accept_connection_cases:
  assumes "accept_connection stream_init tls seed = (seed', x)"
  shows "seed' = seed \<and> x = None \<or> seed' = seed + 1 \<and> (x = None \<or> x = Some seed')"
  using assms by (auto simp: accept_connection_def Let_def split: option.splits sum.splits)

lemma word_le_suc: "(i :: u32) \<le> n \<Longrightarrow> n + 1 \<noteq> 0 \<Longrightarrow> i \<le> n + 1 \<and> i \<noteq> n + 1"
  using unatSuc [of n] by (auto simp: word_le_nat_alt add.commute)

lemma sessions_ok_seed:
  assumes "sessions_ok n" and "seed = nd_seed n \<or> seed = nd_seed n + 1 \<and> seed \<noteq> 0"
  shows "sessions_ok (n\<lparr>nd_seed := seed\<rparr>)"
proof -
  have "sid \<le> seed" if "sid \<le> nd_seed n" for sid using assms(2) that word_le_suc by blast
  with assms(1) show ?thesis by (auto simp: sessions_ok_def)
qed

lemma sessions_ok_accept:
  assumes "sessions_ok n" and "nd_seed n + 1 \<noteq> 0" and "\<And>i q. nd_peers n i = Some q \<Longrightarrow> pr_tx q \<noteq> Some ch"
    and "p = peer_new\<lparr>pr_tx := Some ch, pr_session_id := nd_seed n + 1\<rparr>"
  shows "sessions_ok ((set_node (nd_seed n + 1) (Some p) (nd_server n) n)\<lparr>nd_seed := nd_seed n + 1\<rparr>)"
proof (rule sessions_okI)
  note ok = sessions_okD [OF assms(1)]
  let ?n = "(set_node (nd_seed n + 1) (Some p) (nd_server n) n)\<lparr>nd_seed := nd_seed n + 1\<rparr>"
  have fresh: "nd_peers n (nd_seed n + 1) = None"
    using ok(2) [of "nd_seed n + 1"] word_le_suc [of "nd_seed n + 1" "nd_seed n"] assms(2) by fastforce
  show "refs_ok (nd_server ?n)" using ok(1) by (simp add: set_node_def)
  show "i \<noteq> 0 \<and> i \<le> nd_seed ?n \<and> pr_session_id q = i \<and> pr_tx q \<noteq> None" if "nd_peers ?n i = Some q" for i q
    using that ok(2) [of i q] assms(2,4) word_le_suc [of i "nd_seed n"] by (auto simp: set_node_def split: if_splits)
  show "k < sv_next (nd_server ?n)" if "nd_peers ?n i = Some q" "pr_player q = Some k" for i q k
    using that ok(3) assms(4) by (auto simp: set_node_def peer_new_def split: if_splits)
  show "i = j" if "nd_peers ?n i = Some q" "nd_peers ?n j = Some q'" "pr_tx q = pr_tx q'" for i j q q'
    using that ok(4) [of i q j q'] assms(3) [of i q] assms(3) [of j q'] assms(4)
    by (auto simp: set_node_def split: if_splits)
  show "\<exists>q. nd_peers ?n (pl_session_id (sv_pstore (nd_server ?n) k)) = Some q \<and> pr_player q = Some k
      \<and> pl_tx (sv_pstore (nd_server ?n) k) = pr_tx q" if "is_online (sv_pstore (nd_server ?n) k)" for k
    using that ok(5) [of k] fresh by (auto simp: set_node_def)
  show "pl_tx (sv_pstore (nd_server ?n) k) = None" if "\<not> is_online (sv_pstore (nd_server ?n) k)" for k
    using that ok(6) [of k] by (simp add: set_node_def)
qed

lemma connection_step_ok:
  assumes "connection_step E s t" and "sessions_ok (fst s)"
  shows "sessions_ok (fst t)"
  using assms
proof cases
  case (accept stream_init tls n seed sid ch a w p sv w')
  then have "seed = nd_seed n + 1" "sid = seed" "sv = nd_server n"
      "p = peer_new\<lparr>pr_tx := Some ch, pr_session_id := seed\<rparr>"
    using accept_connection_cases [OF accept(3)] by (auto simp: peer_on_session_start_def)
  with accept assms(2) show ?thesis by (simp, intro sessions_ok_accept) auto
next
  case (refuse stream_init tls n seed w)
  with assms(2) accept_connection_cases [OF refuse(3)] show ?thesis by (auto intro!: sessions_ok_seed)
next
  case (extraction n sid p buf w r rest p' sv w')
  with peer_extraction_effect [of p "nd_server n" E buf w] assms(2) show ?thesis
    by (auto simp: peer_ok_def intro: sessions_ok_effect)
next
  case (frame n sid p f w r p' sv w')
  with assms(2) have "pr_tx p \<noteq> None" "pr_session_id p \<noteq> 0" using sessions_okD(2) by fastforce+
  from peer_on_recv_frame_effect [OF this, of "nd_server n" E f w] frame assms(2) show ?thesis
    by (auto simp: peer_ok_def intro: sessions_ok_effect)
next
  case (close n sid p w r p' sv w')
  with assms(2) show ?thesis by (auto intro: sessions_ok_close)
next
  case (outlet rt m n w sv w')
  with assms(2) output_fst(1) [of E rt m "(nd_server n, w)"] show ?thesis by simp
next
  case (inlet rt m n w sv w')
  with assms(2) output_fst(2) [of E rt m "(nd_server n, w)"] show ?thesis by simp
qed simp

lemma server_step_ok:
  assumes "server_step E F cfg s t" and "sessions_ok (fst s)"
  shows "sessions_ok (fst t)"
  using assms
proof cases
  case connection
  then show ?thesis using assms(2) by (rule connection_step_ok)
next
  case (admin req ident n w answer ident' sv w')
  from web_handle_keeps_players [OF admin(3)] admin assms(2) show ?thesis by (simp add: sessions_ok_keeps)
qed

lemma server_reach_ok: "server_reach E F cfg s \<Longrightarrow> sessions_ok (fst s)"
proof (induction rule: server_reach.induct)
  case (start d w sv w')
  from init_managers_refs [OF this] show ?case
    by (simp add: sessions_ok_def node_new_def is_online_def)
qed (rule server_step_ok)

text \<open>
  C6: In every state the running server can reach, a player that counts as connected is served by the
  peer whose session id it holds: this peer is open, is logged in as that player, and the player's
  channel is the peer's. Two connected players never share a channel, and a player that is not
  connected has none.
\<close>

theorem players_have_their_peer:
  assumes "server_reach E F cfg (n, w)"
  shows "(\<forall>r. is_online (sv_pstore (nd_server n) r) \<longrightarrow>
      (\<exists>p. nd_peers n (pl_session_id (sv_pstore (nd_server n) r)) = Some p \<and> pr_player p = Some r
        \<and> pr_session_id p = pl_session_id (sv_pstore (nd_server n) r)
        \<and> pr_tx p = pl_tx (sv_pstore (nd_server n) r) \<and> pr_tx p \<noteq> None))
    \<and> (\<forall>r r'. is_online (sv_pstore (nd_server n) r) \<and> is_online (sv_pstore (nd_server n) r')
        \<and> pl_tx (sv_pstore (nd_server n) r) = pl_tx (sv_pstore (nd_server n) r') \<longrightarrow> r = r')
    \<and> (\<forall>r. \<not> is_online (sv_pstore (nd_server n) r) \<longrightarrow> pl_tx (sv_pstore (nd_server n) r) = None)"
proof -
  have "sessions_ok n" using server_reach_ok [OF assms] by simp
  note ok = sessions_okD [OF this]
  have "r = r'" if o: "is_online (sv_pstore (nd_server n) r)" "is_online (sv_pstore (nd_server n) r')"
      "pl_tx (sv_pstore (nd_server n) r) = pl_tx (sv_pstore (nd_server n) r')" for r r'
  proof -
    obtain p q where "nd_peers n (pl_session_id (sv_pstore (nd_server n) r)) = Some p" "pr_player p = Some r"
        "nd_peers n (pl_session_id (sv_pstore (nd_server n) r')) = Some q" "pr_player q = Some r'" "pr_tx p = pr_tx q"
      using ok(5) o by metis
    with ok(4) show ?thesis by fastforce
  qed
  moreover have "\<exists>p. nd_peers n (pl_session_id (sv_pstore (nd_server n) r)) = Some p \<and> pr_player p = Some r
        \<and> pr_session_id p = pl_session_id (sv_pstore (nd_server n) r)
        \<and> pr_tx p = pl_tx (sv_pstore (nd_server n) r) \<and> pr_tx p \<noteq> None"
    if "is_online (sv_pstore (nd_server n) r)" for r
    using ok(5) [OF that] ok(2) [of "pl_session_id (sv_pstore (nd_server n) r)"] by auto
  ultimately show ?thesis using ok(6) by blast
qed

text \<open>
  C13: No handler of a peer panics or waits for ever in a reachable state, whatever bytes were
  received: the assertions on serials and on connected players, and the \<open>unwrap\<close> of the channel, are
  never reached.
\<close>

theorem peers_never_panic:
  assumes "server_reach E F cfg (n, w)" and "nd_peers n sid = Some p"
  shows "fst (peer_on_try_extract_frame E buf ((p, nd_server n), w)) \<notin> {Panic, Pending}
    \<and> fst (peer_on_recv_frame E f ((p, nd_server n), w)) \<notin> {Panic, Pending}
    \<and> fst (peer_on_session_close ((p, nd_server n), w)) = Ok ()"
proof -
  have "sessions_ok n" using server_reach_ok [OF assms(1)] by simp
  then have "pr_tx p \<noteq> None" "pr_session_id p \<noteq> 0" using sessions_okD(2) assms(2) by fastforce+
  from peer_on_recv_frame_effect [OF this, of "nd_server n" E f w]
    peer_extraction_effect [of p "nd_server n" E buf w]
  show ?thesis by (auto simp: peer_ok_def peer_on_session_close_def Let_def)
qed
lemma message_id_not_none: "\<not> message_is_none m \<Longrightarrow> \<exists>bs. package P serial m = Some bs"
  by (cases m) (simp_all add: package_def)

lemma send_response_queue:
  assumes "pr_tx (peer_of s) = Some ch" and "alive (wchans (snd s) ch)" and "sint n < 0" and "\<not> message_is_none m"
  shows "\<exists>bs s'. peer_send_response E n m s = (Ok (), s') \<and> package (prost_io E) (- n) m = Some bs
    \<and> wqueue (snd s') ch = wqueue (snd s) ch @ [Send bs True]"
proof -
  obtain bs where "package (prost_io E) (- n) m = Some bs" using message_id_not_none [OF assms(4)] by blast
  with assms show ?thesis
    by (simp add: peer_send_response_def peer_package_and_send_message_def send_simps)
qed

lemma request_own_channel:
  assumes "sessions_ok n" and "nd_peers n sid = Some p" and "pr_tx p = Some ch" and "alive (wchans w ch)"
    and "peer_handle_request E m ((p, nd_server n), w) = (r, ((p', sv'), w'))"
  shows "pr_tx p' = Some ch \<and> wchans w' ch = wchans w ch"
proof -
  note ok = sessions_okD [OF assms(1)]
  consider (login) req where "m = ClientServerLoginReq req"
    | (register) req where "m = ClientServerRegisterReq req"
    | (other) "\<forall>x. m \<noteq> ClientServerLoginReq x" "\<forall>x. m \<noteq> ClientServerRegisterReq x"
    by blast
  then show ?thesis
  proof cases
    case (login req)
    show ?thesis
    proof (cases rule: login_cases [of E req p "nd_server n" w])
      case (refused r)
      with login assms(3,5) show ?thesis by (simp add: peer_handle_request_def)
    next
      case (granted user k)
      have "pr_session_id p \<noteq> 0" using ok(2) [OF assms(2)] by simp
      note found = login_found [OF granted(1) assms(3) this granted(2,3), of w]
      have "wchans (close_session (sv_pstore (nd_server n) k) w) ch = wchans w ch"
        if on: "is_online (sv_pstore (nd_server n) k)"
      proof -
        obtain q c where q: "nd_peers n (pl_session_id (sv_pstore (nd_server n) k)) = Some q" "pr_player q = Some k"
            "pl_tx (sv_pstore (nd_server n) k) = Some c" "pr_tx q = Some c"
          using ok(5) [OF on] ok(2) by fastforce
        with ok(4) [OF assms(2) q(1)] assms(2,3) granted(1) have "ch \<noteq> c" by auto
        with q show ?thesis by (simp add: close_session_def send_w_ignore_def)
      qed
      with found login assms(3,5) show ?thesis by (auto simp: peer_handle_request_def)
    qed
  next
    case (register req)
    with assms(3,5) register_effect [of E req p "nd_server n" w] show ?thesis
      by (auto simp: peer_handle_request_def)
  next
    case other
    with assms(3,5) show ?thesis
      by (cases m) (auto simp: peer_handle_request_def split: option.splits)
  qed
qed

text \<open>
  C14: A request that decodes is answered exactly once, in a reachable state: the answer carries the
  negated serial and is the only thing the request puts into the connection's own channel.
\<close>

theorem requests_answered_once:
  assumes "server_reach E F cfg (n, w)" and "nd_peers n sid = Some p" and "pr_tx p = Some ch" and "alive (wchans w ch)"
    and "8 \<le> length f" and "sint (read_u32 (take 4 f)) < 0"
    and "decode_message (prost_io E) (read_u32 (take 4 (drop 4 f))) (drop 8 f) = Ok m"
  shows "\<exists>answer bs s'. peer_on_recv_frame E f ((p, nd_server n), w) = (Ok (), s')
    \<and> package (prost_io E) (- read_u32 (take 4 f)) answer = Some bs
    \<and> wqueue (snd s') ch = wqueue w ch @ [Send bs True]"
proof -
  have ok: "sessions_ok n" using server_reach_ok [OF assms(1)] by simp
  then have "pr_tx p \<noteq> None" "pr_session_id p \<noteq> 0" using sessions_okD(2) assms(2) by fastforce+
  then obtain r p' sv' w' where req: "peer_handle_request E m ((p, nd_server n), w) = (r, ((p', sv'), w'))"
      and r: "r \<noteq> Panic" "r \<noteq> Pending" "\<forall>x. r = Ok x \<longrightarrow> \<not> message_is_none x"
    using peer_handle_request_effect by blast
  note own = request_own_channel [OF ok assms(2-4) req]
  let ?answer = "case r of Ok x \<Rightarrow> x | Err e \<Rightarrow> GenericError (error.make (- 1000) e)"
  have "\<not> message_is_none ?answer" using r by (cases r) simp_all
  moreover have "peer_on_recv_frame E f ((p, nd_server n), w) =
      peer_send_response E (read_u32 (take 4 f)) ?answer ((p', sv'), w')"
    using assms(5-7) req r by (cases r) (simp_all add: peer_on_recv_frame_def peer_handle_message_def)
  ultimately show ?thesis
    using send_response_queue [of "((p', sv'), w')" ch "read_u32 (take 4 f)" ?answer E] own assms(4,6) by auto
qed
section \<open>A concrete run\<close>

definition demo_wenv :: "demo_db web_env" where
  "demo_wenv = \<lparr>bind_io = (\<lambda>_ _. Inr ()), outlet_refs = (\<lambda>_. (1, 2)), inlet_refs = (\<lambda>_. (3, 4)),
     db_io = demo_db_ops, prost_io = demo_prost, from_json = (\<lambda>_. None), unicode_alnum = (\<lambda>_. False),
     md5_hex = (\<lambda>s. ''md5-'' @ s), to_json = (\<lambda>_. None), identity_login = Inr (),
     web_samples = (\<lambda>_. 10000000), web_now = 0\<rparr>"

definition demo_config :: web_config where
  "demo_config = \<lparr>web_username = ''admin'', web_password = ''secret''\<rparr>"

definition demo_base :: "demo_db server" where
  "demo_base = create_player 5 (new_server ([], [\<lparr>um_id = 5, um_username = ''u'', um_password = ''p'', um_create_time = 0\<rparr>]))"

definition demo_first :: peer where
  "demo_first = peer_new\<lparr>pr_tx := Some 8, pr_session_id := 1\<rparr>"

definition demo_node :: "demo_db node" where
  "demo_node = \<lparr>nd_seed = 1, nd_peers = (\<lambda>_. None)(1 := Some demo_first), nd_server = demo_base\<rparr>"

lemma demo_node_reach: "server_reach demo_penv demo_wenv demo_config (demo_node, init_world)"
proof -
  have "init_managers demo_penv (new_server ([], [\<lparr>um_id = 5, um_username = ''u'', um_password = ''p'', um_create_time = 0\<rparr>]), init_world) =
      (Ok (), (demo_base, init_world))"
    by (simp add: init_managers_def load_all_tunnel_def load_all_player_def demo_penv_def demo_db_ops_def io_result_def
        new_server_def demo_base_def create_player_def server_sync_tunnels_def sync_endpoints_def stale_keys_def
        without_def Let_def)
  then have "server_reach demo_penv demo_wenv demo_config (node_new demo_base, init_world)" by (rule server_reach.start)
  moreover have "server_step demo_penv demo_wenv demo_config (node_new demo_base, init_world)
      ((set_node 1 (Some demo_first) demo_base (node_new demo_base))\<lparr>nd_seed := 1\<rparr>, init_world)"
    by (rule server_step.connection [OF connection_step.accept [where stream_init = None and tls = None and ch = 8 and a = demo_addr]])
      (simp_all add: accept_connection_def node_new_def peer_on_session_start_def demo_first_def)
  ultimately have "server_reach demo_penv demo_wenv demo_config
      ((set_node 1 (Some demo_first) demo_base (node_new demo_base))\<lparr>nd_seed := 1\<rparr>, init_world)"
    by (rule server_reach.step)
  then show ?thesis by (simp add: demo_node_def set_node_def node_new_def)
qed

lemma demo_node_peer: "nd_peers demo_node 1 = Some demo_first" "pr_tx demo_first = Some 8" "alive (wchans init_world 8)"
  by (simp_all add: demo_node_def demo_first_def init_world_def new_chan_def)

theorem peers_never_panic_witness:
  "fst (peer_on_recv_frame demo_penv [255, 255, 255, 255, 0, 0, 3, 233] ((demo_first, nd_server demo_node), init_world)) \<noteq> Panic"
  using peers_never_panic [OF demo_node_reach demo_node_peer(1), of "[]" "[255, 255, 255, 255, 0, 0, 3, 233]"] by simp

theorem requests_answered_once_witness:
  "\<exists>answer bs s'. peer_on_recv_frame demo_penv [255, 255, 255, 255, 0, 2, 73, 244, 7] ((demo_first, nd_server demo_node), init_world) =
      (Ok (), s')
    \<and> package (prost_io demo_penv) 1 answer = Some bs \<and> wqueue (snd s') 8 = [Send bs True]"
proof -
  let ?f = "[255, 255, 255, 255, 0, 2, 73, 244, 7] :: bytes"
  have "read_u32 (take 4 ?f) = - 1" "read_u32 (take 4 (drop 4 ?f)) = 150004"
    by (simp_all add: read_u32_def u32_from_be_def)
  moreover have "decode_message (prost_io demo_penv) 150004 [7] = Ok (GenericPing (ping.make 7))"
    by (simp add: decode_message_def demo_penv_def demo_prost_def demo_ping_pb_def decoded_def)
  moreover have "wqueue init_world 8 = []" by (simp add: init_world_def new_chan_def)
  ultimately show ?thesis
    using requests_answered_once [OF demo_node_reach demo_node_peer, of ?f "GenericPing (ping.make 7)"] by simp
qed

theorem players_have_their_peer_witness:
  "\<exists>n w. server_reach demo_penv demo_wenv demo_config (n, w) \<and> is_online (sv_pstore (nd_server n) 0)
    \<and> (\<exists>p. nd_peers n 1 = Some p \<and> pr_player p = Some 0 \<and> pr_tx p = Some 8)"
proof -
  let ?f = "[255, 255, 255, 255, 0, 0, 3, 233] :: bytes"
  let ?req = "login_req.make ''0.0.0'' ''u'' ''p''"
  have ids: "read_u32 (take 4 ?f) = - 1" "read_u32 (take 4 (drop 4 ?f)) = 1001"
    by (simp_all add: read_u32_def u32_from_be_def)
  have dec: "decode_message (prost_io demo_penv) 1001 [] = Ok (ClientServerLoginReq ?req)"
    by (simp add: decode_message_def demo_penv_def demo_prost_def decoded_def)
  let ?u = "\<lparr>um_id = 5, um_username = ''u'', um_password = ''p'', um_create_time = 0\<rparr>"
  have "user_find_login (db_io demo_penv) (login_req.username ?req) (login_req.password ?req) (sv_db demo_base) = Inr (Some ?u)"
    by (simp add: demo_penv_def demo_db_ops_def demo_base_def new_server_def create_player_def login_req.defs without_def Let_def)
  moreover have "get_player (um_id ?u) demo_base = Some 0" "pr_player demo_first = None" "pr_session_id demo_first \<noteq> 0"
    by (simp_all add: demo_base_def new_server_def create_player_def get_player_def demo_first_def peer_new_def Let_def)
  ultimately obtain a w1 where login: "on_login_request demo_penv ?req ((demo_first, demo_base), init_world) =
      (Ok (ServerClientLoginAck a), ((demo_first\<lparr>pr_player := Some 0\<rparr>,
         upd_player 0 ((sv_pstore demo_base 0)\<lparr>pl_session_id := pr_session_id demo_first, pl_tx := Some 8\<rparr>) demo_base), w1))"
    using login_found [OF _ demo_node_peer(2), of demo_penv ?req demo_base ?u 0 init_world] by auto
  obtain r p' sv' w' where frame: "peer_on_recv_frame demo_penv ?f ((demo_first, demo_base), init_world) = (r, ((p', sv'), w'))"
    by (metis prod.exhaust)
  moreover have "fst (snd (peer_on_recv_frame demo_penv ?f ((demo_first, demo_base), init_world))) = (demo_first\<lparr>pr_player := Some 0\<rparr>,
         upd_player 0 ((sv_pstore demo_base 0)\<lparr>pl_session_id := pr_session_id demo_first, pl_tx := Some 8\<rparr>) demo_base)"
    using ids dec login
    by (simp add: peer_on_recv_frame_def peer_handle_message_def peer_handle_request_def peer_send_response_def)
  ultimately have eqs: "p' = demo_first\<lparr>pr_player := Some 0\<rparr>"
      "sv' = upd_player 0 ((sv_pstore demo_base 0)\<lparr>pl_session_id := pr_session_id demo_first, pl_tx := Some 8\<rparr>) demo_base"
    by simp_all
  have "nd_server demo_node = demo_base" by (simp add: demo_node_def)
  from connection_step.frame [OF demo_node_peer(1), of demo_penv ?f init_world r p' sv' w', unfolded this, OF frame]
  have reach: "server_reach demo_penv demo_wenv demo_config (set_node 1 (Some p') sv' demo_node, w')"
    by (rule server_reach.step [OF demo_node_reach server_step.connection])
  have on: "is_online (sv_pstore (nd_server (set_node 1 (Some p') sv' demo_node)) 0)"
      "pl_session_id (sv_pstore (nd_server (set_node 1 (Some p') sv' demo_node)) 0) = 1"
      "pl_tx (sv_pstore (nd_server (set_node 1 (Some p') sv' demo_node)) 0) = Some 8"
    by (simp_all add: set_node_def eqs is_online_def demo_first_def)
  with players_have_their_peer [OF reach, THEN conjunct1, rule_format, of 0] reach show ?thesis by auto
qed
end
