(* ===== verification/Web_Props.thy ===== *)
theory Web_Props
  imports Server_Run
begin

text \<open>
  The administration interface: a browser session that never sent the configured name and password sees
  nothing and changes nothing; one that did reaches the managers.
\<close>

fun good_login :: "web_config \<Rightarrow> web_request \<Rightarrow> bool" where
  "good_login cfg (Login (Inr body)) \<longleftrightarrow>
     web_username cfg \<noteq> [] \<and> wl_username body = web_username cfg \<and> wl_password body = web_password cfg"
| "good_login cfg _ \<longleftrightarrow> False"

fun shows_data :: "web_response outcome \<Rightarrow> bool" where
  "shows_data (Ok (PlayerListResponse _ _ _)) \<longleftrightarrow> True"
| "shows_data (Ok (TunnelListResponse _ _ _)) \<longleftrightarrow> True"
| "shows_data (Ok (GeneralResponse c _)) \<longleftrightarrow> c = 0"
| "shows_data _ \<longleftrightarrow> False"

lemma guarded_anonymous: "guarded None body f s = (Ok session_expired, s)"
  by (simp add: guarded_def authentication_def identity_name_def)

lemma guarded_known: "i \<noteq> ''anonymous'' \<Longrightarrow> guarded (Some (Inr i)) (Inr body) f s = f body s"
  by (simp add: guarded_def authentication_def identity_name_def io_result_def)

lemma web_handle_anonymous:
  assumes "\<not> good_login cfg req"
  shows "\<exists>r. web_handle E cfg req (None, s) = (r, (None, s)) \<and> \<not> shows_data r"
proof (cases req)
  case (Login body)
  with assms show ?thesis
    by (cases body) (auto simp: web_handle_def web_login_def io_result_def)
qed (simp_all add: web_handle_def guarded_anonymous session_expired_def web_logout_def test_auth_def identity_name_def)

text \<open>
  C17: As long as a browser session has not sent a login with the configured name and password, its
  requests change nothing on the server and are answered with errors and refusals only, never with
  a list or a success; with an empty name in the configuration nobody can log in. After such a login
  the requests reach the managers: the answer to the next request is that of its handler.
\<close>

theorem web_needs_login:
  assumes "\<forall>req \<in> set reqs. \<not> good_login cfg req"
  shows "snd (web_session E cfg reqs (None, s)) = (None, s)
    \<and> (\<forall>r \<in> set (fst (web_session E cfg reqs (None, s))). \<not> shows_data r)
    \<and> (\<forall>login body. good_login cfg login \<and> identity_login E = Inr ()
        \<and> md5_hex E (web_username cfg @ ''-'' @ web_password cfg) \<noteq> ''anonymous'' \<longrightarrow>
        fst (web_session E cfg (login # [AddTunnel (Inr body)]) (None, s)) =
          [Ok (GeneralResponse 0 ''Success''), fst (web_add_tunnel E body s)]
        \<and> snd (snd (web_session E cfg (login # [AddTunnel (Inr body)]) (None, s))) = snd (web_add_tunnel E body s))"
proof (intro conjI allI impI)
  have "snd (web_session E cfg reqs (None, s)) = (None, s)
      \<and> (\<forall>r \<in> set (fst (web_session E cfg reqs (None, s))). \<not> shows_data r)"
    using assms
  proof (induction reqs)
    case (Cons req reqs)
    from Cons.prems web_handle_anonymous [of cfg req E s] obtain r where
      "web_handle E cfg req (None, s) = (r, (None, s))" "\<not> shows_data r" by auto
    with Cons show ?case by simp
  qed simp
  then show "snd (web_session E cfg reqs (None, s)) = (None, s)"
    and "\<forall>r \<in> set (fst (web_session E cfg reqs (None, s))). \<not> shows_data r" by auto
next
  fix login body
  assume l: "good_login cfg login \<and> identity_login E = Inr ()
    \<and> md5_hex E (web_username cfg @ ''-'' @ web_password cfg) \<noteq> ''anonymous''"
  then obtain b where b: "login = Login (Inr b)" by (cases "(cfg, login)" rule: good_login.cases) auto
  let ?st = "web_session E cfg (login # [AddTunnel (Inr body)]) (None, s)"
  have "?st = ([Ok (GeneralResponse 0 ''Success''), fst (web_add_tunnel E body s)],
      (Some (Inr (md5_hex E (web_username cfg @ ''-'' @ web_password cfg))), snd (web_add_tunnel E body s)))"
    using l b by (simp add: web_handle_def web_login_def io_result_def guarded_known case_prod_beta)
  then show "fst ?st = [Ok (GeneralResponse 0 ''Success''), fst (web_add_tunnel E body s)]"
    and "snd (snd ?st) = snd (web_add_tunnel E body s)" by simp_all
qed

theorem web_needs_login_witness:
  "snd (web_session demo_wenv demo_config [AddPlayer (Inr \<lparr>wl_username = ''x'', wl_password = ''y''\<rparr>), Login (Inl ''bad'')]
      (None, (demo_base, init_world))) = (None, (demo_base, init_world))"
  using web_needs_login [of "[AddPlayer (Inr \<lparr>wl_username = ''x'', wl_password = ''y''\<rparr>), Login (Inl ''bad'')]"
      demo_config demo_wenv "(demo_base, init_world)"] by simp

end
