(* ===== verification/Interleaving.thy ===== *)
theory Interleaving
  imports Peer_Props
begin

text \<open>
  The operations of the tunnel and player managers as tasks that give way to each other. In
  np\_server/src/global/manager every database query and every lock is an \<open>await\<close>: between two of them the
  operations of other peers and administrators run. A value of \<open>task\<close> is what is left of an operation,
  \<open>task_step\<close> runs it up to the next query or the next lock of the shared tunnels and players, and a
  schedule says whose turn it is. Shown: a task that is never interrupted is the operation as defined in
  \<open>Managers\<close>.
\<close>

datatype task =
    RegCheck "nat \<Rightarrow> u32" i64 string string
  | RegPick "nat \<Rightarrow> u32" nat i64 string string
  | RegInsert u32 i64 string string
  | RegCreate u32
  | RegDone "(i32 \<times> string) outcome"
  | AddDetect tunnel_model
  | AddInsert tunnel_model
  | AddPush tunnel_model
  | DelRow u32
  | DelFind u32
  | DelRemove nat
  | UpdDetect tunnel_model
  | UpdFind tunnel_model
  | UpdRow nat tunnel_model
  | UpdWrite nat tunnel_model u32
  | UpdNotify nat tunnel_model
  | UpdStore nat tunnel_model
  | SyncTunnels
  | TunDone "unit outcome"

text \<open>The rest of a task after a query: an error ends it.\<close>

definition tun_next :: "'a outcome \<Rightarrow> ('a \<Rightarrow> task) \<Rightarrow> task" where
  "tun_next r k = (case r of Ok a \<Rightarrow> k a | Err e \<Rightarrow> TunDone (Err e) | Panic \<Rightarrow> TunDone Panic | Pending \<Rightarrow> TunDone Pending)"

definition reg_next :: "'a outcome \<Rightarrow> ('a \<Rightarrow> task) \<Rightarrow> task" where
  "reg_next r k = (case r of Ok a \<Rightarrow> k a | Err e \<Rightarrow> RegDone (Err e) | Panic \<Rightarrow> RegDone Panic | Pending \<Rightarrow> RegDone Pending)"

text \<open>The steps of \<open>PlayerManager::add_player\<close>.\<close>

definition reg_check ::
  "('db, 'z) server_env_scheme \<Rightarrow> (nat \<Rightarrow> u32) \<Rightarrow> i64 \<Rightarrow> string \<Rightarrow> string \<Rightarrow> 'db server_state \<Rightarrow> task \<times> 'db server_state" where
  "reg_check E samples now name pass s =
     (if \<not> is_valid_username name \<or> \<not> is_valid_password pass
      then (RegDone (Ok (- 1, ''usernames may not exceed 30 characters, and passwords may not exceed 15 characters.'')), s)
      else
        (reg_next (io_result (user_find_name (db_io E) name (sv_db (fst s)))) (\<lambda>u.
           if u \<noteq> None then RegDone (Ok (- 2, ''user already exists'')) else RegPick samples 0 now name pass), s))"

definition reg_pick :: "(nat \<Rightarrow> u32) \<Rightarrow> nat \<Rightarrow> i64 \<Rightarrow> string \<Rightarrow> string \<Rightarrow> 'db server_state \<Rightarrow> task \<times> 'db server_state" where
  "reg_pick samples count now name pass s =
     (let count = count + 1 in
      if count > 10000 then (RegDone (Ok (- 3, ''too many cycles'')), s)
      else if player_contain (samples count) (fst s) then (RegPick samples count now name pass, s)
      else (RegInsert (samples count) now name pass, s))"

definition reg_insert ::
  "('db, 'z) server_env_scheme \<Rightarrow> u32 \<Rightarrow> i64 \<Rightarrow> string \<Rightarrow> string \<Rightarrow> 'db server_state \<Rightarrow> task \<times> 'db server_state" where
  "reg_insert E pid now name pass s =
     (case user_insert (db_io E) \<lparr>um_id = pid, um_username = name, um_password = pass, um_create_time = now\<rparr>
             (sv_db (fst s)) of
        (r, d) \<Rightarrow> (reg_next (io_result r) (\<lambda>_. RegCreate pid), ((fst s)\<lparr>sv_db := d\<rparr>, snd s)))"

definition reg_create :: "u32 \<Rightarrow> 'db server_state \<Rightarrow> task \<times> 'db server_state" where
  "reg_create pid s = (RegDone (Ok (0, [])), (create_player pid (fst s), snd s))"

text \<open>The steps of \<open>TunnelManager::add_tunnel\<close>.\<close>

definition add_insert ::
  "('db, 'z) server_env_scheme \<Rightarrow> tunnel_model \<Rightarrow> 'db server_state \<Rightarrow> task \<times> 'db server_state" where
  "add_insert E t s =
     (case tunnel_insert (db_io E) t (sv_db (fst s)) of
        (r, d) \<Rightarrow> (tun_next (io_result r) (\<lambda>i. AddPush (t\<lparr>tm_id := i\<rparr>)), ((fst s)\<lparr>sv_db := d\<rparr>, snd s)))"

definition add_push ::
  "('db, 'z) server_env_scheme \<Rightarrow> tunnel_model \<Rightarrow> 'db server_state \<Rightarrow> task \<times> 'db server_state" where
  "add_push E t s =
     (let s = broadcast_tunnel_info E (tm_sender t) t False s;
          s = (if tm_sender t \<noteq> tm_receiver t then broadcast_tunnel_info E (tm_receiver t) t False s else s)
      in (SyncTunnels, ((fst s)\<lparr>sv_tunnels := sv_tunnels (fst s) @ [t]\<rparr>, snd s)))"

text \<open>The steps of \<open>delete_tunnel\<close>; \<open>Vec::remove\<close> panics for an index beyond the end.\<close>

definition del_row :: "('db, 'z) server_env_scheme \<Rightarrow> u32 \<Rightarrow> 'db server_state \<Rightarrow> task \<times> 'db server_state" where
  "del_row E tun s =
     (case tunnel_delete (db_io E) tun (sv_db (fst s)) of
        (r, d) \<Rightarrow>
          (tun_next (io_result r) (\<lambda>n. if n \<noteq> 1 then TunDone (Err (''delete_tunnel: rows_affected = '' @ show_nat n))
             else DelFind tun),
           ((fst s)\<lparr>sv_db := d\<rparr>, snd s)))"

definition del_find :: "u32 \<Rightarrow> 'db server_state \<Rightarrow> task \<times> 'db server_state" where
  "del_find tun s =
     (case position (\<lambda>it. tm_id it = tun) (sv_tunnels (fst s)) of
        Some index \<Rightarrow> (DelRemove index, s)
      | None \<Rightarrow> (TunDone (Ok ()), s))"

definition del_remove :: "('db, 'z) server_env_scheme \<Rightarrow> nat \<Rightarrow> 'db server_state \<Rightarrow> task \<times> 'db server_state" where
  "del_remove E index s =
     (if index < length (sv_tunnels (fst s)) then
        (let t = sv_tunnels (fst s) ! index;
             s = ((fst s)\<lparr>sv_tunnels := remove_at index (sv_tunnels (fst s))\<rparr>, snd s);
             s = broadcast_tunnel_info E (tm_sender t) t True s;
             s = (if tm_sender t \<noteq> tm_receiver t then broadcast_tunnel_info E (tm_receiver t) t True s else s)
         in (SyncTunnels, s))
      else (TunDone Panic, s))"

text \<open>The steps of \<open>update_tunnel\<close>: the index found before the queries is used after them.\<close>

definition upd_find :: "tunnel_model \<Rightarrow> 'db server_state \<Rightarrow> task \<times> 'db server_state" where
  "upd_find t s =
     (case position (\<lambda>it. tm_id it = tm_id t) (sv_tunnels (fst s)) of
        Some index \<Rightarrow> (UpdRow index t, s)
      | None \<Rightarrow> (TunDone (Err (''Unable to find tunnel_id: '' @ show_nat (unat (tm_id t)))), s))"

definition upd_row ::
  "('db, 'z) server_env_scheme \<Rightarrow> nat \<Rightarrow> tunnel_model \<Rightarrow> 'db server_state \<Rightarrow> task \<times> 'db server_state" where
  "upd_row E index t s =
     (tun_next (io_result (tunnel_find (db_io E) (tm_id t) (sv_db (fst s)))) (\<lambda>row.
        case row of
          None \<Rightarrow> TunDone (Err (''Can't find tunnel: '' @ show_nat (unat (tm_id t))))
        | Some row \<Rightarrow> UpdWrite index t (tm_id row)), s)"

definition upd_write ::
  "('db, 'z) server_env_scheme \<Rightarrow> nat \<Rightarrow> tunnel_model \<Rightarrow> u32 \<Rightarrow> 'db server_state \<Rightarrow> task \<times> 'db server_state" where
  "upd_write E index t row_id s =
     (case tunnel_update (db_io E) (t\<lparr>tm_id := row_id\<rparr>) (sv_db (fst s)) of
        (r, d) \<Rightarrow> (tun_next (io_result r) (\<lambda>_. UpdNotify index t), ((fst s)\<lparr>sv_db := d\<rparr>, snd s)))"

definition upd_notify ::
  "('db, 'z) server_env_scheme \<Rightarrow> nat \<Rightarrow> tunnel_model \<Rightarrow> 'db server_state \<Rightarrow> task \<times> 'db server_state" where
  "upd_notify E index t s =
     (if index < length (sv_tunnels (fst s)) then
        (let old = sv_tunnels (fst s) ! index in
         (UpdStore index t, update_notifications E (tm_sender old) (tm_receiver old) t s))
      else (TunDone Panic, s))"

definition upd_store :: "nat \<Rightarrow> tunnel_model \<Rightarrow> 'db server_state \<Rightarrow> task \<times> 'db server_state" where
  "upd_store index t s =
     (if index < length (sv_tunnels (fst s))
      then (SyncTunnels, ((fst s)\<lparr>sv_tunnels := (sv_tunnels (fst s))[index := t]\<rparr>, snd s))
      else (TunDone Panic, s))"

fun task_step :: "('db, 'z) server_env_scheme \<Rightarrow> task \<Rightarrow> 'db server_state \<Rightarrow> task \<times> 'db server_state" where
  "task_step E (RegCheck samples now name pass) s = reg_check E samples now name pass s"
| "task_step E (RegPick samples count now name pass) s = reg_pick samples count now name pass s"
| "task_step E (RegInsert pid now name pass) s = reg_insert E pid now name pass s"
| "task_step E (RegCreate pid) s = reg_create pid s"
| "task_step E (RegDone r) s = (RegDone r, s)"
| "task_step E (AddDetect t) s = (tun_next (tunnel_detection E (fst s) t) (\<lambda>_. AddInsert t), s)"
| "task_step E (AddInsert t) s = add_insert E t s"
| "task_step E (AddPush t) s = add_push E t s"
| "task_step E (DelRow tun) s = del_row E tun s"
| "task_step E (DelFind tun) s = del_find tun s"
| "task_step E (DelRemove index) s = del_remove E index s"
| "task_step E (UpdDetect t) s = (tun_next (tunnel_detection E (fst s) t) (\<lambda>_. UpdFind t), s)"
| "task_step E (UpdFind t) s = upd_find t s"
| "task_step E (UpdRow index t) s = upd_row E index t s"
| "task_step E (UpdWrite index t row_id) s = upd_write E index t row_id s"
| "task_step E (UpdNotify index t) s = upd_notify E index t s"
| "task_step E (UpdStore index t) s = upd_store index t s"
| "task_step E SyncTunnels s = (TunDone (Ok ()), server_sync_tunnels E s)"
| "task_step E (TunDone r) s = (TunDone r, s)"

text \<open>A schedule: the numbers of the tasks in the order in which they run; a number beyond the tasks is idle.\<close>

fun run_schedule :: "('db, 'z) server_env_scheme \<Rightarrow> nat list \<Rightarrow> task list \<times> 'db server_state \<Rightarrow> task list \<times> 'db server_state" where
  "run_schedule E [] c = c"
| "run_schedule E (i # is) (Ts, s) =
     (if i < length Ts then (case task_step E (Ts ! i) s of (T, s) \<Rightarrow> run_schedule E is (Ts[i := T], s))
      else run_schedule E is (Ts, s))"

fun run_task :: "('db, 'z) server_env_scheme \<Rightarrow> nat \<Rightarrow> task \<times> 'db server_state \<Rightarrow> task \<times> 'db server_state" where
  "run_task E 0 c = c"
| "run_task E (Suc n) (T, s) = run_task E n (task_step E T s)"

section \<open>Uninterrupted tasks\<close>

lemma run_task_done [simp]: "run_task E n (TunDone r, s) = (TunDone r, s)" "run_task E n (RegDone q, s) = (RegDone q, s)"
  by (induction n) simp_all

lemma run_task_add: "run_task E (m + n) c = run_task E n (run_task E m c)"
proof (induction m arbitrary: c)
  case (Suc m)
  then show ?case by (cases c) simp
qed simp

lemma tun_next_simps [simp]:
  "tun_next (Ok a) k = k a" "tun_next (Err e) k = TunDone (Err e)" "tun_next Panic k = TunDone Panic" "tun_next Pending k = TunDone Pending"
  by (simp_all add: tun_next_def)

lemma reg_next_simps [simp]:
  "reg_next (Ok a) k = k a" "reg_next (Err e) k = RegDone (Err e)" "reg_next Panic k = RegDone Panic" "reg_next Pending k = RegDone Pending"
  by (simp_all add: reg_next_def)

lemma run_add_tunnel: "run_task E 4 (AddDetect t, s) = apfst TunDone (add_tunnel E t s)"
proof (cases rule: tunnel_detection_cases [of E "fst s" t])
  case 2
  obtain r d where "tunnel_insert (db_io E) t (sv_db (fst s)) = (r, d)" by (rule prod.exhaust)
  with 2 show ?thesis
    by (cases r) (simp_all add: eval_nat_numeral add_tunnel_def add_insert_def add_push_def io_result_def Let_def)
qed (simp add: eval_nat_numeral add_tunnel_def)

lemma run_delete_tunnel: "run_task E 4 (DelRow tun, s) = apfst TunDone (delete_tunnel E tun s)"
proof -
  obtain r d where del: "tunnel_delete (db_io E) tun (sv_db (fst s)) = (r, d)" by (rule prod.exhaust)
  show ?thesis
  proof (cases "position (\<lambda>it. tm_id it = tun) (sv_tunnels (fst s))")
    case None
    with del show ?thesis
      by (cases r) (simp_all add: eval_nat_numeral delete_tunnel_def del_row_def del_find_def io_result_def)
  next
    case (Some index)
    with del position_Some [OF Some] show ?thesis
      by (cases r) (simp_all add: eval_nat_numeral delete_tunnel_def del_row_def del_find_def del_remove_def io_result_def Let_def)
  qed
qed

lemmas upd_defs = upd_find_def upd_row_def upd_write_def upd_notify_def upd_store_def

lemma run_update_tunnel: "run_task E 7 (UpdDetect t, s) = apfst TunDone (update_tunnel E t s)"
proof (cases rule: tunnel_detection_cases [of E "fst s" t])
  case det: 2
  show ?thesis
  proof (cases "position (\<lambda>it. tm_id it = tm_id t) (sv_tunnels (fst s))")
    case None
    with det show ?thesis by (simp add: eval_nat_numeral update_tunnel_def upd_defs)
  next
    case (Some index)
    note pos = Some position_Some [OF Some]
    consider e where "tunnel_find (db_io E) (tm_id t) (sv_db (fst s)) = Inl e"
      | "tunnel_find (db_io E) (tm_id t) (sv_db (fst s)) = Inr None"
      | row where "tunnel_find (db_io E) (tm_id t) (sv_db (fst s)) = Inr (Some row)"
      by (metis old.sum.exhaust option.exhaust)
    then show ?thesis
    proof cases
      case (3 row)
      obtain r d where "tunnel_update (db_io E) (t\<lparr>tm_id := tm_id row\<rparr>) (sv_db (fst s)) = (r, d)" by (rule prod.exhaust)
      with det pos 3 show ?thesis
        by (cases r) (simp_all add: eval_nat_numeral update_tunnel_def upd_defs io_result_def Let_def)
    qed (use det pos in \<open>simp_all add: eval_nat_numeral update_tunnel_def upd_defs io_result_def\<close>)
  qed
qed (simp add: eval_nat_numeral update_tunnel_def)

lemma run_reg_pick:
  "\<exists>n. run_task E n (RegPick samples c now name pass, s) =
    (case pick_id (\<lambda>i. player_contain i (fst s)) samples c of
       None \<Rightarrow> (RegDone (Ok (- 3, ''too many cycles'')), s)
     | Some pid \<Rightarrow> (RegInsert pid now name pass, s))"
proof (induction "\<lambda>i. player_contain i (fst s)" samples c rule: pick_id.induct)
  case (1 samples c)
  consider "c + 1 > 10000" | "c + 1 \<le> 10000" "player_contain (samples (c + 1)) (fst s)"
    | "c + 1 \<le> 10000" "\<not> player_contain (samples (c + 1)) (fst s)" by linarith
  then show ?case
  proof cases
    case 2
    with "1" obtain n where "run_task E n (RegPick samples (c + 1) now name pass, s) =
        (case pick_id (\<lambda>i. player_contain i (fst s)) samples (c + 1) of
           None \<Rightarrow> (RegDone (Ok (- 3, ''too many cycles'')), s)
         | Some pid \<Rightarrow> (RegInsert pid now name pass, s))" by fastforce
    with 2 show ?thesis
      by (intro exI [of _ "Suc n"]) (subst pick_id.simps, simp add: reg_pick_def Let_def)
  qed (rule exI [of _ 1]; subst pick_id.simps; simp add: reg_pick_def Let_def)+
qed

lemma run_add_player:
  "\<exists>n. run_task E n (RegCheck samples now name pass, s) = apfst RegDone (add_player E samples now name pass s)"
proof -
  let ?find = "user_find_name (db_io E) name (sv_db (fst s))"
  consider "\<not> is_valid_username name \<or> \<not> is_valid_password pass \<or> ?find \<noteq> Inr None"
    | "is_valid_username name" "is_valid_password pass" "?find = Inr None" by blast
  then show ?thesis
  proof cases
    case 1
    then show ?thesis
      by (intro exI [of _ 1]) (cases ?find, auto simp: reg_check_def add_player_def io_result_def)
  next
    case 2
    let ?pick = "pick_id (\<lambda>i. player_contain i (fst s)) samples 0"
    obtain n where n: "run_task E n (RegPick samples 0 now name pass, s) =
        (case ?pick of None \<Rightarrow> (RegDone (Ok (- 3, ''too many cycles'')), s)
         | Some pid \<Rightarrow> (RegInsert pid now name pass, s))"
      using run_reg_pick by blast
    have "run_task E (Suc n + 2) (RegCheck samples now name pass, s) =
        run_task E 2 (run_task E n (RegPick samples 0 now name pass, s))"
      unfolding run_task_add using 2 by (simp add: reg_check_def io_result_def)
    moreover have "run_task E 2 (run_task E n (RegPick samples 0 now name pass, s)) =
        apfst RegDone (add_player E samples now name pass s)"
    proof (cases ?pick)
      case (Some pid)
      obtain r d where "user_insert (db_io E) \<lparr>um_id = pid, um_username = name, um_password = pass, um_create_time = now\<rparr>
          (sv_db (fst s)) = (r, d)" by (rule prod.exhaust)
      with 2 Some n show ?thesis
        by (cases r) (simp_all add: eval_nat_numeral add_player_def reg_insert_def reg_create_def io_result_def)
    qed (use 2 n in \<open>simp add: add_player_def io_result_def\<close>)
    ultimately show ?thesis by metis
  qed
qed


end
