(* ===== verification/Interleaving_Props.thy ===== *)
theory Interleaving_Props
  imports Interleaving
begin

text \<open>
  What interleaving does to the managers. Registrations may interleave in any way, with each other and
  with one operation on tunnels: all end, and memory and database agree. Two registrations of one
  name can both succeed, and two operations on tunnels can ruin the list, because an index is used
  after the list has changed.
\<close>

section \<open>Turns\<close>

text \<open>How many turns a task needs at most; a finished one needs none.\<close>

fun turns :: "task \<Rightarrow> nat" where
  "turns (RegCheck _ _ _ _) = 10004"
| "turns (RegPick _ count _ _ _) = 10003 - count"
| "turns (RegInsert _ _ _ _) = 2"
| "turns (RegCreate _) = 1"
| "turns (RegDone _) = 0"
| "turns (AddDetect _) = 4"
| "turns (AddInsert _) = 3"
| "turns (AddPush _) = 2"
| "turns (DelRow _) = 4"
| "turns (DelFind _) = 3"
| "turns (DelRemove _) = 2"
| "turns (UpdDetect _) = 7"
| "turns (UpdFind _) = 6"
| "turns (UpdRow _ _) = 5"
| "turns (UpdWrite _ _ _) = 4"
| "turns (UpdNotify _ _) = 3"
| "turns (UpdStore _ _) = 2"
| "turns SyncTunnels = 1"
| "turns (TunDone _) = 0"

text \<open>The loop over the drawn ids never counts beyond ten thousand, and a registration does not panic.\<close>

fun task_fine :: "task \<Rightarrow> bool" where
  "task_fine (RegPick _ count _ _ _) = (count \<le> 10000)"
| "task_fine (RegDone r) = (r \<notin> {Panic, Pending})"
| "task_fine _ = True"

lemmas step_defs = reg_check_def reg_pick_def reg_insert_def reg_create_def add_insert_def add_push_def
  del_row_def del_find_def del_remove_def upd_defs Let_def

lemma task_step_turns:
  "task_fine T \<Longrightarrow> task_fine (fst (task_step E T s)) \<and> turns (fst (task_step E T s)) \<le> turns T - 1"
  by (cases T) (auto simp: step_defs tun_next_def reg_next_def io_result_def
      split: outcome.splits option.splits prod.splits sum.splits)

lemma turns_bound: "task_fine T \<Longrightarrow> turns T \<le> 10004"
  by (cases T) auto

lemma run_schedule_turns:
  "run_schedule E sched (Ts, s) = (Ts', s') \<Longrightarrow> list_all task_fine Ts \<Longrightarrow>
   length Ts' = length Ts \<and> list_all task_fine Ts' \<and> (\<forall>i < length Ts. turns (Ts' ! i) \<le> turns (Ts ! i) - count_list sched i)"
proof (induction sched arbitrary: Ts s)
  case (Cons j sched)
  show ?case
  proof (cases "j < length Ts")
    case True
    obtain T u where T: "task_step E (Ts ! j) s = (T, u)" by (rule prod.exhaust)
    have "task_fine (Ts ! j)" using Cons.prems(2) True by (simp add: list_all_length)
    from task_step_turns [OF this, of E s] T have T': "task_fine T" "turns T \<le> turns (Ts ! j) - 1" by simp_all
    then have "list_all task_fine (Ts[j := T])"
      using Cons.prems(2) True by (simp add: list_all_length nth_list_update)
    with Cons.IH [of "Ts[j := T]" u] Cons.prems(1) True T
    have IH: "length Ts' = length Ts \<and> list_all task_fine Ts'" "\<forall>i < length Ts. turns (Ts' ! i) \<le> turns (Ts[j := T] ! i) - count_list sched i"
      by simp_all
    have "turns (Ts' ! i) \<le> turns (Ts ! i) - count_list (j # sched) i" if "i < length Ts" for i
      using IH(2) [rule_format, OF that] T'(2) that by (cases "i = j") auto
    with IH(1) show ?thesis by blast
  next
    case False
    with Cons show ?thesis by auto
  qed
qed simp

section \<open>Registrations\<close>

fun is_reg :: "task \<Rightarrow> bool" where
  "is_reg (RegCheck _ _ _ _) = True"
| "is_reg (RegPick _ _ _ _ _) = True"
| "is_reg (RegInsert _ _ _ _) = True"
| "is_reg (RegCreate _) = True"
| "is_reg (RegDone _) = True"
| "is_reg _ = False"

text \<open>What is further relied on of the database: statements that fail, or concern tunnels, leave the users alone.\<close>

definition users_apart :: "'db db_ops \<Rightarrow> ('db \<Rightarrow> u32 \<Rightarrow> user_model option) \<Rightarrow> bool" where
  "users_apart D users \<longleftrightarrow>
     (\<forall>u d e d'. user_insert D u d = (Inl e, d') \<longrightarrow> users d' = users d)
     \<and> (\<forall>t d. users (snd (tunnel_insert D t d)) = users d \<and> users (snd (tunnel_update D t d)) = users d)
     \<and> (\<forall>i d. users (snd (tunnel_delete D i d)) = users d)"

lemma users_apartD:
  assumes "users_apart D users"
  shows "user_insert D u d = (Inl e, d') \<Longrightarrow> users d' = users d"
    and "tunnel_insert D t d = (r, d') \<Longrightarrow> users d' = users d"
    and "tunnel_update D t d = (q, d') \<Longrightarrow> users d' = users d"
    and "tunnel_delete D i d = (n, d') \<Longrightarrow> users d' = users d"
  using assms unfolding users_apart_def by (metis snd_conv)+

text \<open>A registration leaves the tunnels and their table alone; an operation on tunnels the users and players.\<close>

lemma reg_step_tunnels:
  assumes "tunnel_table (db_io E) rows" and "is_reg T"
  shows "sv_tunnels (fst (snd (task_step E T s))) = sv_tunnels (fst s)
    \<and> rows (sv_db (fst (snd (task_step E T s)))) = rows (sv_db (fst s)) \<and> is_reg (fst (task_step E T s))"
proof -
  have ins: "rows d = rows (sv_db (fst s))" if "user_insert (db_io E) u (sv_db (fst s)) = (r, d)" for u r d
    using tunnel_tableD(7) [OF assms(1), of u "sv_db (fst s)"] that by (metis snd_conv)
  show ?thesis
    using assms(2)
    by (cases T) (auto simp: step_defs create_player_def ins reg_next_def split: outcome.splits prod.splits)
qed

lemma tun_step_players:
  assumes "users_apart (db_io E) users" and "\<not> is_reg T"
  shows "sv_player_map (fst (snd (task_step E T s))) = sv_player_map (fst s)
    \<and> sv_pstore (fst (snd (task_step E T s))) = sv_pstore (fst s)
    \<and> users (sv_db (fst (snd (task_step E T s)))) = users (sv_db (fst s)) \<and> \<not> is_reg (fst (task_step E T s))"
  using assms(2) users_apartD [OF assms(1)]
  by (cases T) (auto simp: step_defs tun_next_def split: outcome.splits option.splits prod.splits)

text \<open>
  The players known and the rows of users: each known player has a row; each row without a player is
  about to get one, from exactly one task; and no task is about to replace a known player.
\<close>

definition reg_ok :: "('db \<Rightarrow> u32 \<Rightarrow> user_model option) \<Rightarrow> task list \<Rightarrow> 'db server \<Rightarrow> bool" where
  "reg_ok users Ts sv \<longleftrightarrow>
     (\<forall>pid. player_contain pid sv \<longrightarrow> users (sv_db sv) pid \<noteq> None)
     \<and> (\<forall>pid. users (sv_db sv) pid \<noteq> None \<longrightarrow> player_contain pid sv \<or> (\<exists>i < length Ts. Ts ! i = RegCreate pid))
     \<and> (\<forall>i < length Ts. \<forall>pid. Ts ! i = RegCreate pid \<longrightarrow> users (sv_db sv) pid \<noteq> None \<and> \<not> player_contain pid sv)
     \<and> (\<forall>i < length Ts. \<forall>j < length Ts. \<forall>pid. Ts ! i = RegCreate pid \<and> Ts ! j = RegCreate pid \<longrightarrow> i = j)"

lemma reg_okD:
  assumes "reg_ok users Ts sv"
  shows "player_contain pid sv \<Longrightarrow> users (sv_db sv) pid \<noteq> None"
    and "users (sv_db sv) pid \<noteq> None \<Longrightarrow> player_contain pid sv \<or> (\<exists>i < length Ts. Ts ! i = RegCreate pid)"
    and "i < length Ts \<Longrightarrow> Ts ! i = RegCreate pid \<Longrightarrow> users (sv_db sv) pid \<noteq> None \<and> \<not> player_contain pid sv"
    and "i < length Ts \<Longrightarrow> j < length Ts \<Longrightarrow> Ts ! i = RegCreate pid \<Longrightarrow> Ts ! j = RegCreate pid \<Longrightarrow> i = j"
  using assms unfolding reg_ok_def by (elim conjE; blast)+

lemma reg_okI:
  assumes "\<And>pid. player_contain pid sv \<Longrightarrow> users (sv_db sv) pid \<noteq> None"
    and "\<And>pid. users (sv_db sv) pid \<noteq> None \<Longrightarrow> \<not> player_contain pid sv \<Longrightarrow> \<exists>i < length Ts. Ts ! i = RegCreate pid"
    and "\<And>i pid. i < length Ts \<Longrightarrow> Ts ! i = RegCreate pid \<Longrightarrow> users (sv_db sv) pid \<noteq> None \<and> \<not> player_contain pid sv"
    and "\<And>i j pid. i < length Ts \<Longrightarrow> j < length Ts \<Longrightarrow> Ts ! i = RegCreate pid \<Longrightarrow> Ts ! j = RegCreate pid \<Longrightarrow> i = j"
  shows "reg_ok users Ts sv"
  using assms unfolding reg_ok_def by blast

text \<open>A step that neither creates a row nor a player, nor is about to.\<close>

lemma reg_ok_quiet:
  assumes "reg_ok users Ts sv" and "i < length Ts" and "\<And>pid. Ts ! i \<noteq> RegCreate pid" and "\<And>pid. T \<noteq> RegCreate pid"
    and "sv_player_map sv' = sv_player_map sv" and "users (sv_db sv') = users (sv_db sv)"
  shows "reg_ok users (Ts[i := T]) sv'"
proof -
  have c: "player_contain pid sv' = player_contain pid sv" for pid using assms(5) by (simp add: player_contain_def)
  have T: "j < length Ts \<Longrightarrow> Ts[i := T] ! j = RegCreate pid \<longleftrightarrow> Ts ! j = RegCreate pid" for j pid
    using assms(2-4) by (auto simp: nth_list_update)
  note ok = reg_okD [OF assms(1)]
  show ?thesis
  proof (rule reg_okI; unfold c assms(6) length_list_update)
    show "users (sv_db sv) pid \<noteq> None" if "player_contain pid sv" for pid using ok(1) that .
    show "\<exists>j < length Ts. Ts[i := T] ! j = RegCreate pid"
      if "users (sv_db sv) pid \<noteq> None" "\<not> player_contain pid sv" for pid
      using ok(2) [of pid] that T by blast
    show "users (sv_db sv) pid \<noteq> None \<and> \<not> player_contain pid sv"
      if "j < length Ts" "Ts[i := T] ! j = RegCreate pid" for j pid
      using ok(3) [of j pid] that T by blast
    show "j = k" if "j < length Ts" "k < length Ts" "Ts[i := T] ! j = RegCreate pid" "Ts[i := T] ! k = RegCreate pid" for j k pid
      using ok(4) [of j k pid] that T by blast
  qed
qed

lemma reg_ok_step:
  assumes U: "user_table (db_io E) users" and A: "users_apart (db_io E) users"
    and ok: "reg_ok users Ts (fst s)" and i: "i < length Ts" and step: "task_step E (Ts ! i) s = (T, s')"
  shows "reg_ok users (Ts[i := T]) (fst s')
    \<and> (\<forall>pid r. get_player pid (fst s) = Some r \<longrightarrow> get_player pid (fst s') = Some r)"
proof (cases "\<exists>pid now name pass. Ts ! i = RegInsert pid now name pass \<or> Ts ! i = RegCreate pid")
  case False
  have "T \<noteq> RegCreate pid" for pid
    using step False by (cases "Ts ! i") (auto simp: step_defs tun_next_def reg_next_def split: outcome.splits option.splits prod.splits if_splits)
  moreover have "sv_player_map (fst s') = sv_player_map (fst s) \<and> users (sv_db (fst s')) = users (sv_db (fst s))"
  proof (cases "is_reg (Ts ! i)")
    case True
    with step False show ?thesis by (cases "Ts ! i") (auto simp: step_defs split: if_splits)
  next
    case False
    from tun_step_players [OF A this, of s] step show ?thesis by simp
  qed
  ultimately show ?thesis
    using reg_ok_quiet [OF ok i, of T "fst s'"] False by (simp add: get_player_def)
next
  case True
  note okD = reg_okD [OF ok]
  from True consider (insert) pid now name pass where "Ts ! i = RegInsert pid now name pass"
    | (create) pid where "Ts ! i = RegCreate pid" by blast
  then show ?thesis
  proof cases
    case (insert pid now name pass)
    let ?u = "\<lparr>um_id = pid, um_username = name, um_password = pass, um_create_time = now\<rparr>"
    obtain r d where ins: "user_insert (db_io E) ?u (sv_db (fst s)) = (r, d)" by (rule prod.exhaust)
    have s': "s' = ((fst s)\<lparr>sv_db := d\<rparr>, snd s)" "T = reg_next (io_result r) (\<lambda>_. RegCreate pid)"
      using step insert ins by (simp_all add: reg_insert_def)
    show ?thesis
    proof (cases r)
      case (Inl e)
      with users_apartD(1) [OF A] ins have "users d = users (sv_db (fst s))" by blast
      with s' Inl insert show ?thesis
        using reg_ok_quiet [OF ok i, of T "fst s'"] by (simp add: io_result_def get_player_def)
    next
      case (Inr u)
      with user_tableD(4) [OF U] ins have new: "users (sv_db (fst s)) pid = None" "users d = (users (sv_db (fst s)))(pid \<mapsto> ?u)"
        by fastforce+
      have T: "T = RegCreate pid" using s' Inr by (simp add: io_result_def)
      have c: "player_contain q (fst s') = player_contain q (fst s)" for q using s' by (simp add: player_contain_def)
      have "reg_ok users (Ts[i := T]) (fst s')"
      proof (rule reg_okI)
        show "users (sv_db (fst s')) q \<noteq> None" if "player_contain q (fst s')" for q
          using okD(1) [of q] that s' new by (auto simp: player_contain_def)
        show "\<exists>j < length (Ts[i := T]). Ts[i := T] ! j = RegCreate q"
          if "users (sv_db (fst s')) q \<noteq> None" "\<not> player_contain q (fst s')" for q
        proof (cases "q = pid")
          case False
          with that okD(2) [of q] s' new c obtain j where "j < length Ts" "Ts ! j = RegCreate q" by auto
          with insert i show ?thesis by (intro exI [of _ j]) (auto simp: nth_list_update)
        qed (use i T in auto)
        show "users (sv_db (fst s')) q \<noteq> None \<and> \<not> player_contain q (fst s')"
          if "j < length (Ts[i := T])" "Ts[i := T] ! j = RegCreate q" for j q
          using that i okD(1) [of q] okD(3) [of j q] s' new T c by (auto simp: nth_list_update split: if_splits)
        show "j = k" if "j < length (Ts[i := T])" "k < length (Ts[i := T])" "Ts[i := T] ! j = RegCreate q"
            "Ts[i := T] ! k = RegCreate q" for j k q
          using that i okD(3) [of j q] okD(3) [of k q] okD(4) [of j k q] new(1) T by (auto simp: nth_list_update split: if_splits)
      qed
      with s' show ?thesis by (simp add: get_player_def)
    qed
  next
    case (create pid)
    have s': "fst s' = create_player pid (fst s)" "T = RegDone (Ok (0, []))"
      using step create by (auto simp: reg_create_def)
    have pid: "users (sv_db (fst s)) pid \<noteq> None" "\<not> player_contain pid (fst s)" using okD(3) [OF i create] by auto
    have c: "player_contain q (fst s') \<longleftrightarrow> q = pid \<or> player_contain q (fst s)" "sv_db (fst s') = sv_db (fst s)" for q
      by (auto simp: s' player_contain_def create_player_def Let_def)
    have "reg_ok users (Ts[i := T]) (fst s')"
    proof (rule reg_okI)
      show "users (sv_db (fst s')) q \<noteq> None" if "player_contain q (fst s')" for q
        unfolding c(2) using okD(1) [of q] that pid c by auto
      show "\<exists>j < length (Ts[i := T]). Ts[i := T] ! j = RegCreate q"
        if "users (sv_db (fst s')) q \<noteq> None" "\<not> player_contain q (fst s')" for q
      proof -
        from that c have "users (sv_db (fst s)) q \<noteq> None" "q \<noteq> pid" "\<not> player_contain q (fst s)" by auto
        with okD(2) [of q] obtain j where "j < length Ts" "Ts ! j = RegCreate q" by auto
        with create i \<open>q \<noteq> pid\<close> show ?thesis by (intro exI [of _ j]) (auto simp: nth_list_update)
      qed
      show "users (sv_db (fst s')) q \<noteq> None \<and> \<not> player_contain q (fst s')"
        if "j < length (Ts[i := T])" "Ts[i := T] ! j = RegCreate q" for j q
        unfolding c(2) using that i okD(3) [of j q] okD(4) [OF _ i, of j pid] create c s'(2)
        by (auto simp: nth_list_update split: if_splits)
      show "j = k" if "j < length (Ts[i := T])" "k < length (Ts[i := T])" "Ts[i := T] ! j = RegCreate q"
          "Ts[i := T] ! k = RegCreate q" for j k q
        using that i okD(4) [of j k q] s'(2) by (auto simp: nth_list_update split: if_splits)
    qed
    moreover have "get_player q (fst s') = Some r" if "get_player q (fst s) = Some r" for q r
      using that pid(2) by (auto simp: s' get_player_def player_contain_def hm_contains_def create_player_def Let_def)
    ultimately show ?thesis by blast
  qed
qed

section \<open>One operation on tunnels at a time\<close>

text \<open>What holds of the tunnels and their table while one operation on them is under way.\<close>

definition listed :: "('db \<Rightarrow> u32 \<Rightarrow> tunnel_model option) \<Rightarrow> (u32 \<Rightarrow> tunnel_model option) \<Rightarrow> 'db server \<Rightarrow> bool" where
  "listed rows m sv \<longleftrightarrow> distinct (map tm_id (sv_tunnels sv)) \<and> rows (sv_db sv) = m"

definition found :: "nat \<Rightarrow> u32 \<Rightarrow> 'db server \<Rightarrow> bool" where
  "found index tun sv \<longleftrightarrow> index < length (sv_tunnels sv) \<and> tm_id (sv_tunnels sv ! index) = tun"

fun tun_ok :: "('db \<Rightarrow> u32 \<Rightarrow> tunnel_model option) \<Rightarrow> task \<Rightarrow> 'db server \<Rightarrow> bool" where
  "tun_ok rows (AddPush t) sv =
     (listed rows ((by_id (sv_tunnels sv))(tm_id t \<mapsto> t)) sv \<and> tm_id t \<notin> tm_id ` set (sv_tunnels sv))"
| "tun_ok rows (DelFind tun) sv = listed rows ((by_id (sv_tunnels sv))(tun := None)) sv"
| "tun_ok rows (DelRemove index) sv =
     (\<exists>tun. listed rows ((by_id (sv_tunnels sv))(tun := None)) sv \<and> position (\<lambda>it. tm_id it = tun) (sv_tunnels sv) = Some index)"
| "tun_ok rows (UpdRow index t) sv = (mirrors rows sv \<and> found index (tm_id t) sv)"
| "tun_ok rows (UpdWrite index t row_id) sv = (mirrors rows sv \<and> found index (tm_id t) sv \<and> row_id = tm_id t)"
| "tun_ok rows (UpdNotify index t) sv =
     (listed rows ((by_id (sv_tunnels sv))(tm_id t \<mapsto> t)) sv \<and> found index (tm_id t) sv)"
| "tun_ok rows (UpdStore index t) sv =
     (listed rows ((by_id (sv_tunnels sv))(tm_id t \<mapsto> t)) sv \<and> found index (tm_id t) sv)"
| "tun_ok rows (TunDone r) sv = (mirrors rows sv \<and> r \<notin> {Panic, Pending})"
| "tun_ok rows T sv = mirrors rows sv"

lemma tun_ok_fields:
  "sv_tunnels sv' = sv_tunnels sv \<Longrightarrow> rows (sv_db sv') = rows (sv_db sv) \<Longrightarrow> tun_ok rows T sv' = tun_ok rows T sv"
  by (cases T) (simp_all add: mirrors_def listed_def found_def)

lemma tun_ok_sync [simp]: "tun_ok rows T (fst (server_sync_tunnels E s)) = tun_ok rows T (fst s)"
  by (rule tun_ok_fields) simp_all

lemma tun_step_add:
  assumes R: "tunnel_table (db_io E) rows" and "mirrors rows (fst s)"
  shows "tun_ok rows (fst (add_insert E t s)) (fst (snd (add_insert E t s)))"
proof -
  obtain r d where ins: "tunnel_insert (db_io E) t (sv_db (fst s)) = (r, d)" by (rule prod.exhaust)
  show ?thesis
  proof (cases r)
    case (Inl e)
    with ins have "rows d = rows (sv_db (fst s))" using tunnel_tableD(6) [OF R] by blast
    with assms(2) ins Inl show ?thesis by (simp add: add_insert_def io_result_def mirrors_db)
  next
    case (Inr i)
    with tunnel_tableD(3) [OF R, of t "sv_db (fst s)" i d] ins assms(2) show ?thesis
      by (simp add: add_insert_def io_result_def listed_def mirrors_def by_id_None_iff)
  qed
qed

lemma tun_step_del:
  assumes R: "tunnel_table (db_io E) rows" and m: "mirrors rows (fst s)"
  shows "tun_ok rows (fst (del_row E tun s)) (fst (snd (del_row E tun s)))"
proof -
  obtain r d where del: "tunnel_delete (db_io E) tun (sv_db (fst s)) = (r, d)" by (rule prod.exhaust)
  show ?thesis
  proof (cases r)
    case (Inl e)
    with del have "rows d = rows (sv_db (fst s))" using tunnel_tableD(6) [OF R] by blast
    with m del Inl show ?thesis by (simp add: del_row_def io_result_def mirrors_db)
  next
    case (Inr n)
    with tunnel_tableD(5) [OF R, of tun "sv_db (fst s)" n d] del m
    have n: "n = (if rows (sv_db (fst s)) tun = None then 0 else 1)" "rows d = (rows (sv_db (fst s)))(tun := None)" by simp_all
    show ?thesis
    proof (cases "rows (sv_db (fst s)) tun = None")
      case True
      with n have "rows d = rows (sv_db (fst s))" by (simp add: fun_upd_idem)
      with True n m del Inr show ?thesis by (simp add: del_row_def io_result_def mirrors_db)
    next
      case False
      with n m del Inr show ?thesis by (simp add: del_row_def io_result_def listed_def mirrors_def)
    qed
  qed
qed

lemma tun_step_upd:
  assumes R: "tunnel_table (db_io E) rows" and m: "mirrors rows (fst s)" and f: "found index (tm_id t) (fst s)"
  shows "tun_ok rows (fst (upd_write E index t (tm_id t) s)) (fst (snd (upd_write E index t (tm_id t) s)))"
proof -
  obtain r d where upd: "tunnel_update (db_io E) (t\<lparr>tm_id := tm_id t\<rparr>) (sv_db (fst s)) = (r, d)" by (rule prod.exhaust)
  show ?thesis
  proof (cases r)
    case (Inl e)
    with upd have "rows d = rows (sv_db (fst s))" using tunnel_tableD(6) [OF R] by blast
    with m upd Inl show ?thesis by (simp add: upd_write_def io_result_def mirrors_db)
  next
    case (Inr u)
    with tunnel_tableD(4) [OF R, of t "sv_db (fst s)" d] upd m f show ?thesis
      by (simp add: upd_write_def io_result_def listed_def found_def mirrors_def)
  qed
qed

lemma tun_step_ok:
  assumes R: "tunnel_table (db_io E) rows" and ok: "tun_ok rows T (fst s)" and T: "\<not> is_reg T"
  shows "tun_ok rows (fst (task_step E T s)) (fst (snd (task_step E T s)))"
proof (cases T)
  case (AddDetect t)
  with ok show ?thesis by (cases rule: tunnel_detection_cases [of E "fst s" t]) simp_all
next
  case (AddPush t)
  with ok by_id_snoc [of t "sv_tunnels (fst s)"] show ?thesis
    by (simp add: add_push_def Let_def listed_def mirrors_def)
next
  case (DelFind tun)
  have "by_id (sv_tunnels (fst s)) tun = None" if "position (\<lambda>it. tm_id it = tun) (sv_tunnels (fst s)) = None"
    using that by (auto simp: by_id_None_iff position_None_iff)
  with DelFind ok show ?thesis
    by (auto simp: del_find_def listed_def mirrors_def fun_upd_idem split: option.splits)
next
  case (DelRemove index)
  with ok obtain tun where tun: "listed rows ((by_id (sv_tunnels (fst s)))(tun := None)) (fst s)"
      "position (\<lambda>it. tm_id it = tun) (sv_tunnels (fst s)) = Some index" by auto
  then have "remove_at index (sv_tunnels (fst s)) = filter (\<lambda>t. tm_id t \<noteq> tun) (sv_tunnels (fst s))"
    by (intro remove_at_filter) (simp_all add: listed_def)
  with DelRemove tun position_Some [OF tun(2)] show ?thesis
    by (simp add: del_remove_def Let_def listed_def mirrors_def by_id_filter distinct_map_filter)
next
  case (UpdDetect t)
  with ok show ?thesis by (cases rule: tunnel_detection_cases [of E "fst s" t]) simp_all
next
  case (UpdFind t)
  with ok position_Some [of "\<lambda>it. tm_id it = tm_id t" "sv_tunnels (fst s)"] show ?thesis
    by (simp add: upd_find_def found_def split: option.splits)
next
  case (UpdRow index t)
  with ok have m: "mirrors rows (fst s)" by simp
  consider e where "tunnel_find (db_io E) (tm_id t) (sv_db (fst s)) = Inl e"
    | "tunnel_find (db_io E) (tm_id t) (sv_db (fst s)) = Inr None"
    | row where "tunnel_find (db_io E) (tm_id t) (sv_db (fst s)) = Inr (Some row)"
    by (metis old.sum.exhaust option.exhaust)
  then show ?thesis
  proof cases
    case (3 row)
    have "tm_id row = tm_id t"
      using tunnel_tableD(2) [OF R 3] m by (auto simp: mirrors_def dest!: map_of_SomeD [OF sym])
    with UpdRow ok 3 show ?thesis by (simp add: upd_row_def io_result_def)
  qed (use UpdRow ok in \<open>simp_all add: upd_row_def io_result_def\<close>)
next
  case (UpdStore index t)
  with ok have i: "index < length (sv_tunnels (fst s))" "tm_id (sv_tunnels (fst s) ! index) = tm_id t"
    by (simp_all add: found_def)
  then have "map tm_id ((sv_tunnels (fst s))[index := t]) = map tm_id (sv_tunnels (fst s))"
    by (simp add: map_update list_update_same_conv)
  with UpdStore ok i show ?thesis
    by (simp add: upd_store_def listed_def mirrors_def by_id_update)
qed (use ok T in \<open>auto simp: tun_step_add [OF R] tun_step_del [OF R] tun_step_upd [OF R] upd_notify_def Let_def found_def
    listed_def\<close>)

text \<open>The first task works on tunnels, the others register players.\<close>

definition one_admin :: "('db \<Rightarrow> u32 \<Rightarrow> tunnel_model option) \<Rightarrow> ('db \<Rightarrow> u32 \<Rightarrow> user_model option) \<Rightarrow>
    task list \<times> 'db server_state \<Rightarrow> bool" where
  "one_admin rows users c \<longleftrightarrow> (case c of (Ts, s) \<Rightarrow>
     Ts \<noteq> [] \<and> \<not> is_reg (Ts ! 0) \<and> (\<forall>i < length Ts. 0 < i \<longrightarrow> is_reg (Ts ! i))
     \<and> tun_ok rows (Ts ! 0) (fst s) \<and> reg_ok users Ts (fst s))"

lemma one_admin_step:
  assumes R: "tunnel_table (db_io E) rows" and U: "user_table (db_io E) users" and A: "users_apart (db_io E) users"
    and ok: "one_admin rows users (Ts, s)" and i: "i < length Ts" and step: "task_step E (Ts ! i) s = (T, s')"
  shows "one_admin rows users (Ts[i := T], s')
    \<and> (\<forall>pid r. get_player pid (fst s) = Some r \<longrightarrow> get_player pid (fst s') = Some r)"
proof -
  from ok have ok': "Ts \<noteq> []" "\<not> is_reg (Ts ! 0)" "\<And>j. j < length Ts \<Longrightarrow> 0 < j \<Longrightarrow> is_reg (Ts ! j)"
      "tun_ok rows (Ts ! 0) (fst s)" "reg_ok users Ts (fst s)"
    by (simp_all add: one_admin_def)
  note reg = reg_ok_step [OF U A ok'(5) i step]
  have "\<not> is_reg (Ts[i := T] ! 0) \<and> (\<forall>j < length Ts. 0 < j \<longrightarrow> is_reg (Ts[i := T] ! j)) \<and> tun_ok rows (Ts[i := T] ! 0) (fst s')"
  proof (cases "i = 0")
    case True
    with tun_step_players [OF A ok'(2), of s] tun_step_ok [OF R ok'(4,2)] step ok' i show ?thesis by simp
  next
    case False
    with reg_step_tunnels [OF R ok'(3), of i s] i step
    have "is_reg T" "sv_tunnels (fst s') = sv_tunnels (fst s)" "rows (sv_db (fst s')) = rows (sv_db (fst s))" by simp_all
    with False ok' i tun_ok_fields [of "fst s'" "fst s" rows "Ts ! 0"] show ?thesis by (simp add: nth_list_update)
  qed
  with reg ok'(1) show ?thesis by (simp add: one_admin_def)
qed

lemma one_admin_schedule:
  assumes R: "tunnel_table (db_io E) rows" and U: "user_table (db_io E) users" and A: "users_apart (db_io E) users"
  shows "one_admin rows users (Ts, s) \<Longrightarrow> run_schedule E sched (Ts, s) = (Ts', s') \<Longrightarrow>
    one_admin rows users (Ts', s') \<and> (\<forall>pid r. get_player pid (fst s) = Some r \<longrightarrow> get_player pid (fst s') = Some r)"
proof (induction sched arbitrary: Ts s)
  case (Cons i sched)
  show ?case
  proof (cases "i < length Ts")
    case True
    obtain T u where T: "task_step E (Ts ! i) s = (T, u)" by (rule prod.exhaust)
    from one_admin_step [OF R U A Cons.prems(1) True T] Cons.IH [of "Ts[i := T]" u] Cons.prems(2) True T show ?thesis
      by simp
  next
    case False
    with Cons show ?thesis by simp
  qed
qed simp

lemma no_turns_left: "turns T = 0 \<Longrightarrow> task_fine T \<Longrightarrow> (\<exists>r. T = TunDone r) \<or> (\<exists>r. T = RegDone r \<and> r \<notin> {Panic, Pending})"
  by (cases T) auto

text \<open>
  C29: One operation on a tunnel and any number of registrations, interleaved in any way at their
  queries and locks: when each has had its turns all of them have ended, none by a panic; the
  tunnels in memory are then the rows of their table, the known players are exactly the rows of theirs,
  and nobody who was known before has been replaced.
\<close>

theorem registrations_interleave:
  assumes "tunnel_table (db_io E) rows" and "user_table (db_io E) users" and "users_apart (db_io E) users"
    and "mirrors rows (fst s)" and "\<forall>pid. player_contain pid (fst s) \<longleftrightarrow> users (sv_db (fst s)) pid \<noteq> None"
    and "T \<in> {AddDetect t, DelRow tun, UpdDetect t}"
    and "run_schedule E sched (T # map (\<lambda>(samples, now, name, pass). RegCheck samples now name pass) regs, s) = (Ts', s')"
    and "\<forall>i \<le> length regs. 10004 \<le> count_list sched i"
  shows "(\<exists>r rs. Ts' = TunDone r # map RegDone rs \<and> r \<notin> {Panic, Pending} \<and> (\<forall>q \<in> set rs. q \<notin> {Panic, Pending}))
    \<and> mirrors rows (fst s')
    \<and> (\<forall>pid. player_contain pid (fst s') \<longleftrightarrow> users (sv_db (fst s')) pid \<noteq> None)
    \<and> (\<forall>pid r. get_player pid (fst s) = Some r \<longrightarrow> get_player pid (fst s') = Some r)"
proof -
  let ?Ts = "T # map (\<lambda>(samples, now, name, pass). RegCheck samples now name pass) regs"
  have regs: "\<exists>samples now name pass. ?Ts ! i = RegCheck samples now name pass" if "0 < i" "i < length ?Ts" for i
    using that by (cases i) (simp_all add: case_prod_beta)
  have "one_admin rows users (?Ts, s)"
    unfolding one_admin_def prod.case
  proof (intro conjI allI impI)
    show "\<not> is_reg (?Ts ! 0)" "tun_ok rows (?Ts ! 0) (fst s)" using assms(4,6) by auto
    show "is_reg (?Ts ! i)" if "i < length ?Ts" "0 < i" for i using regs [OF that(2,1)] by (elim exE) simp
    have no: "?Ts ! i \<noteq> RegCreate pid" if "i < length ?Ts" for i pid
      using regs [of i] that assms(6) by (cases "i = 0") force+
    show "reg_ok users ?Ts (fst s)"
      by (rule reg_okI) (use assms(5) no in blast)+
  qed simp
  from one_admin_schedule [OF assms(1-3) this assms(7)]
  have ok: "one_admin rows users (Ts', s')" "\<forall>pid r. get_player pid (fst s) = Some r \<longrightarrow> get_player pid (fst s') = Some r" by auto
  have fine: "list_all task_fine ?Ts" using assms(6) by (auto simp: list_all_iff)
  from run_schedule_turns [OF assms(7) fine] have len: "length Ts' = Suc (length regs)" "list_all task_fine Ts'"
      "\<And>i. i < length Ts' \<Longrightarrow> turns (Ts' ! i) \<le> turns (?Ts ! i) - count_list sched i" by simp_all
  have ends: "turns (Ts' ! i) = 0" if "i < length Ts'" for i
  proof -
    have "turns (?Ts ! i) \<le> 10004" using fine that len(1) by (intro turns_bound) (simp add: list_all_length del: nth_Cons_0)
    moreover have "10004 \<le> count_list sched i" using assms(8) that len(1) by simp
    ultimately show ?thesis using len(3) [OF that] by linarith
  qed
  have ends': "(\<exists>r. Ts' ! i = TunDone r) \<or> (\<exists>r. Ts' ! i = RegDone r \<and> r \<notin> {Panic, Pending})" if "i < length Ts'" for i
    using no_turns_left [OF ends [OF that]] len(2) that by (simp add: list_all_length)
  obtain T0 Rs where Ts': "Ts' = T0 # Rs" using len(1) by (cases Ts') auto
  obtain r where r: "T0 = TunDone r" "r \<notin> {Panic, Pending}" "mirrors rows (fst s')"
    using ok(1) ends' [of 0] by (auto simp: one_admin_def Ts')
  have "\<exists>q. R = RegDone q \<and> q \<notin> {Panic, Pending}" if "R \<in> set Rs" for R
  proof -
    from that obtain j where j: "j < length Rs" "R = Rs ! j" by (metis in_set_conv_nth)
    then have "is_reg (Ts' ! Suc j)" "Ts' ! Suc j = R" using ok(1) by (auto simp: one_admin_def Ts')
    with ends' [of "Suc j"] j Ts' show ?thesis by auto
  qed
  then obtain f where f: "\<And>R. R \<in> set Rs \<Longrightarrow> R = RegDone (f R) \<and> f R \<notin> {Panic, Pending}" by metis
  then have "Rs = map RegDone (map f Rs)" by (simp add: map_idI)
  moreover have "\<forall>q \<in> set (map f Rs). q \<notin> {Panic, Pending}" using f by auto
  moreover have "player_contain pid (fst s') \<longleftrightarrow> users (sv_db (fst s')) pid \<noteq> None" for pid
  proof -
    have reg: "reg_ok users Ts' (fst s')" using ok(1) by (simp add: one_admin_def)
    have "Ts' ! i \<noteq> RegCreate pid" if "i < length Ts'" for i using ends' [OF that] by auto
    with reg_okD(1,2) [OF reg, of pid] show ?thesis by blast
  qed
  ultimately show ?thesis using r ok(2) Ts' by blast
qed

section \<open>Races\<close>

definition demo_racing :: "demo_db server" where
  "demo_racing = demo_server\<lparr>sv_tunnels := [demo_model 1 80, demo_model 2 81, demo_model 3 82],
     sv_db := ([demo_model 1 80, demo_model 2 81, demo_model 3 82], [])\<rparr>"

lemma demo_names_valid: "is_valid_username ''v''" "is_valid_password ''q''" "is_valid_password ''z''"
  by (simp_all add: is_valid_username_def is_valid_password_def is_ascii_nospace_def of_char_def)

text \<open>
  Two registrations of the same name can both succeed: if both have asked for the name before either
  has inserted its row, both are told that they were registered, and the table has two users of one name.
\<close>

theorem concurrent_registrations_share_name:
  "\<exists>sched s'. run_schedule demo_senv sched
      ([RegCheck (\<lambda>_. 10000000) 0 ''v'' ''q'', RegCheck (\<lambda>_. 10000001) 0 ''v'' ''z''], (demo_server, init_world)) =
      ([RegDone (Ok (0, [])), RegDone (Ok (0, []))], s')
    \<and> unique_names (demo_users (sv_db demo_server)) \<and> \<not> unique_names (demo_users (sv_db (fst s')))"
proof -
  let ?c = "([RegCheck (\<lambda>_. 10000000) 0 ''v'' ''q'', RegCheck (\<lambda>_. 10000001) 0 ''v'' ''z''], (demo_server, init_world))"
  have free: "\<not> player_contain 10000000 demo_server" "\<not> player_contain 10000001 demo_server"
    by (simp_all add: player_contain_def demo_server_def hm_contains_def)
  have free2: "user_find_name demo_db_ops ''v'' (sv_db demo_server) = Inr None"
    by (simp add: demo_db_ops_def demo_server_def new_server_def without_def)
  have users: "demo_users (sv_db demo_server) 10000000 = None" "demo_users (sv_db demo_server) 10000001 = None"
    by (simp_all add: demo_server_def new_server_def)
  obtain s' where s': "run_schedule demo_senv [0, 1, 0, 1, 0, 1, 0, 1] ?c = ([RegDone (Ok (0, [])), RegDone (Ok (0, []))], s')"
    and db: "snd (sv_db (fst s')) = \<lparr>um_id = 10000001, um_username = ''v'', um_password = ''z'', um_create_time = 0\<rparr>
      # \<lparr>um_id = 10000000, um_username = ''v'', um_password = ''q'', um_create_time = 0\<rparr> # snd (sv_db demo_server)"
    using free free2 users demo_names_valid
    by (simp add: reg_check_def reg_pick_def reg_insert_def reg_create_def io_result_def demo_db_ops_def create_player_def
        player_contain_def Let_def)
  let ?u = "\<lambda>pid pass. \<lparr>um_id = pid, um_username = ''v'', um_password = pass, um_create_time = 0\<rparr>"
  have "demo_users (sv_db (fst s')) 10000000 = Some (?u 10000000 ''q'')" "demo_users (sv_db (fst s')) 10000001 = Some (?u 10000001 ''z'')"
    by (simp_all add: db)
  then have "\<not> unique_names (demo_users (sv_db (fst s')))"
    unfolding unique_names_def by fastforce
  moreover have "unique_names (demo_users (sv_db demo_server))"
    by (simp add: unique_names_def demo_server_def new_server_def)
  ultimately show ?thesis using s' by blast
qed

lemma run_schedule_append: "run_schedule E (xs @ ys) c = run_schedule E ys (run_schedule E xs c)"
proof (induction xs arbitrary: c)
  case (Cons x xs)
  then show ?case by (cases c) (simp add: case_prod_beta)
qed simp

text \<open>A change of tunnel 2 that is overtaken, after it has found the tunnel at index 1, by the deletion of tunnel 1.\<close>

definition demo_change :: tunnel_model where
  "demo_change = (demo_model 2 81)\<lparr>tm_endpoint := show_socket_addr (V4 (Ipv4Addr 10 0 0 1) 80)\<rparr>"

lemma demo_detection: "tunnel_detection demo_senv demo_racing demo_change = Ok ()"
proof -
  have "parse_socket_addr (tm_source demo_change) \<noteq> None"
    using demo_model_simps(4) [of 2 81] by (simp add: demo_change_def)
  moreover have "parse_socket_addr (tm_endpoint demo_change) \<noteq> None"
  proof -
    have "tm_endpoint demo_change = show_socket_addr (V4 (Ipv4Addr 10 0 0 1) 80)" by (simp add: demo_change_def)
    then show ?thesis by (simp only: parse_show_socket_addr_v4 option.distinct not_False_eq_True)
  qed
  moreover have "get_tunnel_address_port (tm_source (demo_model i port)) = Some port" for i port
    using listening_demo [of i port] by (simp add: listening_def)
  ultimately show ?thesis
    by (simp add: tunnel_detection_def is_valid_tunnel_source_address_def is_valid_tunnel_endpoint_address_def
        player_id_detection_def port_conflict_detection_def demo_racing_def)
      (simp add: demo_change_def player_contain_def demo_server_def hm_contains_def)
qed


lemma demo_users_apart: "users_apart demo_db_ops demo_users"
  by (auto simp: users_apart_def demo_db_ops_def Let_def split: if_splits)

lemma count_list_replicate: "count_list (replicate n x) y = (if x = y then n else 0)"
  by (induction n) (auto split: if_splits)

theorem registrations_interleave_witness:
  "\<exists>Ts' s'. run_schedule demo_senv (replicate 10004 1 @ replicate 10004 0)
      ([DelRow 1, RegCheck (\<lambda>_. 10000000) 0 ''v'' ''q''], (demo_server, init_world)) = (Ts', s')
    \<and> (\<exists>r q. Ts' = [TunDone r, RegDone q]) \<and> mirrors demo_rows (fst s')"
proof -
  let ?sched = "replicate 10004 1 @ replicate 10004 0 :: nat list"
  let ?regs = "[(\<lambda>_ :: nat. 10000000 :: u32, 0 :: i64, ''v'', ''q'')]"
  obtain Ts' s' where run: "run_schedule demo_senv ?sched
      (DelRow 1 # map (\<lambda>(samples, now, name, pass). RegCheck samples now name pass) ?regs, (demo_server, init_world)) = (Ts', s')"
    by (metis prod.exhaust)
  have turns: "\<forall>i \<le> length ?regs. 10004 \<le> count_list ?sched i"
    by (auto simp: count_list_append count_list_replicate le_Suc_eq)
  have tables: "tunnel_table (db_io demo_senv) demo_rows" "user_table (db_io demo_senv) demo_users" "users_apart (db_io demo_senv) demo_users"
    by (simp_all add: demo_tunnel_table demo_user_table demo_users_apart)
  have known: "\<forall>pid. player_contain pid (fst (demo_server, init_world)) \<longleftrightarrow> demo_users (sv_db (fst (demo_server, init_world))) pid \<noteq> None"
    by (auto simp: player_contain_def demo_server_def new_server_def hm_contains_def)
  from registrations_interleave [OF tables _ known _ run turns, of demo_change 1] demo_server_ok(1)
  obtain r rs where "Ts' = TunDone r # map RegDone rs" "mirrors demo_rows (fst s')" by auto
  moreover have "length Ts' = 2"
    using run_schedule_turns [OF run] by simp
  ultimately have "\<exists>q. Ts' = [TunDone r, RegDone q]" by (cases rs) auto
  with run \<open>mirrors demo_rows (fst s')\<close> show ?thesis by auto
qed

end
