(* ===== verification/Server_Inv.thy ===== *)
theory Server_Inv
  imports Server_Run
begin

text \<open>
  Invariants of the running server. The interface \<open>server_invariant\<close> lists what a property of the
  server's state must survive: the operations of the managers as the administration and the peers call
  them, a login or logout of a player, and the start; the part about the connections alone is
  \<open>connection_invariant\<close>. Whatever satisfies it holds in every state that
  \<open>server_step\<close> reaches. It is interpreted three times: the tunnels in memory are the table of the
  database, the outlets and inlets match the tunnels, and the collections of players agree.
\<close>

lemma extraction_server:
  "server_of (snd (snd (peer_on_try_extract_frame E buf ((p, sv), w)))) = sv"
proof -
  have chan: "server_of (snd (create_traffic_forward_channel E s)) = server_of s" for s
    using forward_channel_effect [of E "peer_of s" "server_of s" "snd s"] by auto
  obtain r s where first: "(if length buf > 0 \<and> pr_forward (peer_of ((p, sv), w)) = None \<and> buf ! 0 \<noteq> 33 then
      (case create_traffic_forward_channel E ((p, sv), w) of
         (Ok _, s) \<Rightarrow> (Ok (), s)
       | (_, s) \<Rightarrow> reject E ''Bad flag'' s)
    else (Ok (), ((p, sv), w))) = (r, s)" (is "?first = _") by (rule prod.exhaust)
  obtain r' s' where c: "create_traffic_forward_channel E ((p, sv), w) = (r', s')" by (rule prod.exhaust)
  have "server_of (snd ?first) = sv"
    using chan [of "((p, sv), w)"] by (cases r') (simp_all add: c reject_effect)
  then have s: "server_of s = sv" unfolding first by simp
  obtain x rest where x: "try_extract_limit (1024 * 1024 * 2) buf = (x, rest)" by (rule prod.exhaust)
  show ?thesis
  proof (cases r)
    case (Ok u)
    show ?thesis
    proof (cases "pr_forward (peer_of s)")
      case None
      with Ok s x show ?thesis unfolding peer_on_try_extract_frame_def first
        by (cases x) (simp_all add: reject_effect)
    next
      case (Some sent)
      with Ok s show ?thesis unfolding peer_on_try_extract_frame_def first
        by (cases "forward_write E buf") simp_all
    qed
  qed (unfold peer_on_try_extract_frame_def first, simp_all add: s)
qed

locale connection_invariant =
  fixes E :: "'db peer_env" and I :: "'db server \<Rightarrow> bool"
  assumes player_registered: "I (fst s) \<Longrightarrow> I (fst (snd (add_player E samples now name pass s)))"
    and session_changed: "I sv \<Longrightarrow> I (upd_player r ((sv_pstore sv r)\<lparr>pl_session_id := sid, pl_tx := tx\<rparr>) sv)"
begin

lemma login_keeps:
  assumes "I sv"
  shows "I (server_of (snd (on_login_request E req ((p, sv), w))))"
proof (cases rule: login_cases [of E req p sv w])
  case (refused r)
  with assms show ?thesis by simp
next
  case (granted user r)
  define old where "old = (if is_online (sv_pstore sv r)
    then upd_player r ((sv_pstore sv r)\<lparr>pl_session_id := 0, pl_tx := None\<rparr>) sv else sv)"
  have old: "I old" using assms by (simp add: old_def session_changed)
  have "server_of (snd (on_login_request E req ((p, sv), w))) = (case pr_tx p of
      None \<Rightarrow> old
    | Some tx \<Rightarrow> upd_player r ((sv_pstore old r)\<lparr>pl_session_id := pr_session_id p, pl_tx := Some tx\<rparr>) old)"
    using granted
    by (simp add: on_login_request_def Let_def io_result_def on_connect_session_def old_def is_online_def
        on_terminate_old_session_def reset_session_info_def split: option.splits)
  with old session_changed [OF old] show ?thesis by (simp split: option.splits)
qed

lemma request_keeps:
  assumes "I sv"
  shows "I (server_of (snd (peer_handle_request E m ((p, sv), w))))"
proof -
  have "I (server_of (snd (on_register_request E req ((p, sv), w))))" for req
    using player_registered [of "(sv, w)"] assms
    by (simp add: on_register_request_def on_server_def snd_and_then case_prod_beta split: outcome.splits)
  then show ?thesis
    using assms login_keeps
    by (cases m) (auto simp: peer_handle_request_def split: option.splits)
qed

lemma push_keeps: "I sv \<Longrightarrow> I (server_of (snd (peer_handle_push E m ((p, sv), w))))"
  using peer_handle_push_effect [of E m p sv w] by auto

lemma frame_keeps:
  assumes "I sv"
  shows "I (server_of (snd (peer_on_recv_frame E f ((p, sv), w))))"
proof -
  have answered: "server_of (snd (peer_send_response E n x s)) = server_of s" for n x s
    by (simp add: peer_send_response_def)
  have "I (server_of (snd (peer_handle_message E serial m ((p, sv), w))))" for serial m
    using assms request_keeps push_keeps
    by (simp add: peer_handle_message_def peer_handle_response_def snd_and_then split: outcome.splits)
  then show ?thesis
    using assms
    by (auto simp: peer_on_recv_frame_def Let_def reject_effect answered case_prod_beta
        split: outcome.splits)
qed

lemma close_keeps: "I sv \<Longrightarrow> I (server_of (snd (peer_on_session_close ((p, sv), w))))"
  by (simp add: peer_on_session_close_def Let_def on_disconnect_session_def reset_session_info_def session_changed
      split: option.splits)

lemma connection_keeps: "connection_step E s t \<Longrightarrow> I (nd_server (fst s)) \<Longrightarrow> I (nd_server (fst t))"
proof (induction rule: connection_step.induct)
  case (accept stream_init tls n seed sid ch a w p sv w')
  then show ?case by (simp add: set_node_def peer_on_session_start_def)
next
  case (extraction n sid p buf w r rest p' sv w')
  then have "sv = nd_server n"
    using extraction_server [of E buf p "nd_server n" w] by simp
  with extraction show ?case by (simp add: set_node_def)
next
  case (frame n sid p f w r p' sv w')
  then show ?case using frame_keeps [of "nd_server n" f p w] by (simp add: set_node_def)
next
  case (close n sid p w r p' sv w')
  then show ?case using close_keeps [of "nd_server n" p w] by (simp add: set_node_def)
next
  case (outlet rt m n w sv w')
  then show ?case using output_fst(1) [of E rt m "(nd_server n, w)"] by simp
next
  case (inlet rt m n w sv w')
  then show ?case using output_fst(2) [of E rt m "(nd_server n, w)"] by simp
qed simp_all

end

locale server_invariant = connection_invariant E I
  for E :: "'db peer_env" and I :: "'db server \<Rightarrow> bool" +
  fixes F :: "'db web_env"
  assumes init: "init_managers E (new_server d, w) = (Ok (), (sv, w')) \<Longrightarrow> I sv"
    and tunnel_added: "I (fst s) \<Longrightarrow> I (fst (snd (add_tunnel F t s)))"
    and tunnel_deleted: "I (fst s) \<Longrightarrow> I (fst (snd (delete_tunnel F tun s)))"
    and tunnel_updated: "I (fst s) \<Longrightarrow> I (fst (snd (update_tunnel F t s)))"
    and player_added: "I (fst s) \<Longrightarrow> I (fst (snd (add_player F samples now name pass s)))"
    and player_updated: "I (fst s) \<Longrightarrow> I (fst (snd (update_player F pid name pass s)))"
    and player_deleted: "I (fst s) \<Longrightarrow> I (fst (snd (delete_player F pid s)))"
begin

lemma admin_keeps:
  assumes "I (fst s)"
  shows "I (fst (snd (snd (web_handle F cfg req (ident, s)))))"
proof -
  have guarded: "I (fst (snd (guarded ident body f s)))"
    if "\<And>b. I (fst (snd (f b s)))" for body and f :: "'r \<Rightarrow> _"
    using that assms by (simp add: guarded_def snd_and_then split: option.splits outcome.splits)
  have result: "snd (result_response c x) = snd x" for c and x :: "unit outcome \<times> _"
    by (simp add: result_response_def split: prod.splits outcome.splits)
  show ?thesis
    using assms
    by (cases req) (auto simp: web_handle_def Let_def result web_player_list_def web_remove_player_def
        web_add_player_def web_update_player_def web_tunnel_list_def web_remove_tunnel_def web_add_tunnel_def
        web_update_tunnel_def snd_and_then case_prod_beta tunnel_added tunnel_deleted tunnel_updated player_added
        player_updated player_deleted intro!: guarded split: sum.splits outcome.splits)
qed

lemma step_keeps: "server_step E F cfg s t \<Longrightarrow> I (nd_server (fst s)) \<Longrightarrow> I (nd_server (fst t))"
proof (induction rule: server_step.induct)
  case (connection s t)
  then show ?case by (rule connection_keeps)
next
  case (admin req ident n w answer ident' sv w')
  then show ?case using admin_keeps [of "(nd_server n, w)" cfg req ident] by simp
qed

lemma reach_keeps: "server_reach E F cfg s \<Longrightarrow> I (nd_server (fst s))"
  by (induction rule: server_reach.induct) (auto simp: node_new_def intro: init step_keeps)

end

section \<open>Memory and database\<close>

lemma user_ops_rows:
  assumes "tunnel_table (db_io E) rows"
  shows "rows (sv_db (fst (snd (add_player E samples now name pass s)))) = rows (sv_db (fst s))"
    and "rows (sv_db (fst (snd (update_player E pid name pass s)))) = rows (sv_db (fst s))"
proof -
  note [simp] = tunnel_tableD(7) [OF assms]
  have ins: "rows d = rows (sv_db (fst s))" if "user_insert (db_io E) u (sv_db (fst s)) = (r, d)" for u r d
    using tunnel_tableD(7) [OF assms, of u "sv_db (fst s)"] that by (metis snd_conv)
  show "rows (sv_db (fst (snd (add_player E samples now name pass s)))) = rows (sv_db (fst s))"
    by (simp add: add_player_def snd_and_then create_player_def Let_def io_result_def ins
        split: option.splits outcome.splits prod.splits sum.splits)
  show "rows (sv_db (fst (snd (update_player E pid name pass s)))) = rows (sv_db (fst s))"
    by (simp add: update_player_def snd_and_then Let_def io_result_def case_prod_beta
        split: option.splits outcome.splits sum.splits)
qed

lemma user_ops_tunnels:
  "sv_tunnels (fst (snd (add_player E samples now name pass s))) = sv_tunnels (fst s)"
  "sv_tunnels (fst (snd (update_player E pid name pass s))) = sv_tunnels (fst s)"
  by (cases rule: add_player_cases [of E samples now name pass s]) (simp_all add: create_player_def Let_def
      update_player_def snd_and_then case_prod_beta split: option.splits outcome.splits)

lemma delete_player_mirrors:
  assumes T: "tunnel_table (db_io E) rows" and m: "mirrors rows (fst s)"
  shows "mirrors rows (fst (snd (delete_player E pid s)))"
proof -
  obtain r s' where r: "run_all (delete_tunnel E)
      (map tm_id (filter (\<lambda>x. tm_sender x = pid \<or> tm_receiver x = pid) (sv_tunnels (fst s)))) s = (r, s')"
    by (rule prod.exhaust)
  have "mirrors rows (fst (snd (run_all (delete_tunnel E)
      (map tm_id (filter (\<lambda>x. tm_sender x = pid \<or> tm_receiver x = pid) (sv_tunnels (fst s)))) s)))"
    by (rule run_all_inv [where I = "\<lambda>s. mirrors rows (fst s)"]) (simp_all add: delete_tunnel_mirrors [OF T] m)
  with r delete_player_tunnels [OF T r] show ?thesis by (simp add: mirrors_def)
qed

lemma user_ops_mirrors:
  assumes "tunnel_table (db_io E) rows" and "mirrors rows (fst s)"
  shows "mirrors rows (fst (snd (add_player E samples now name pass s)))"
    and "mirrors rows (fst (snd (update_player E pid name pass s)))"
  using assms by (simp_all add: mirrors_def user_ops_rows user_ops_tunnels)

lemma mirrors_upd_player [simp]: "mirrors rows (upd_player r p sv) = mirrors rows sv"
  by (simp add: mirrors_def)

abbreviation both_tables :: "'db peer_env \<Rightarrow> 'db web_env \<Rightarrow> ('db \<Rightarrow> u32 \<Rightarrow> tunnel_model option) \<Rightarrow> bool" where
  "both_tables E F rows \<equiv> tunnel_table (db_io E) rows \<and> tunnel_table (db_io F) rows"

lemma fold_create_fields:
  "sv_tunnels (fold (\<lambda>u. create_player (f u)) us sv) = sv_tunnels sv"
  "sv_db (fold (\<lambda>u. create_player (f u)) us sv) = sv_db sv"
  "sv_outlets (fold (\<lambda>u. create_player (f u)) us sv) = sv_outlets sv"
  "sv_inlets (fold (\<lambda>u. create_player (f u)) us sv) = sv_inlets sv"
  by (induction us arbitrary: sv) (simp_all add: create_player_def Let_def)

lemma init_managers_cases:
  assumes "init_managers E (new_server d, w) = (Ok (), (sv, w'))"
  obtains ts and us :: "user_model list" where "tunnels_all (db_io E) d = Inr ts" "users_all (db_io E) d = Inr us"
    "sv = fst (server_sync_tunnels E (fold (\<lambda>u. create_player (um_id u)) us ((new_server d)\<lparr>sv_tunnels := ts\<rparr>), w))"
proof -
  obtain ts and us :: "user_model list" where "tunnels_all (db_io E) d = Inr ts" "users_all (db_io E) d = Inr us"
    "server_sync_tunnels E (fold (\<lambda>u. create_player (um_id u)) us ((new_server d)\<lparr>sv_tunnels := ts\<rparr>), w) = (sv, w')"
    using assms
    by (auto simp: init_managers_def load_all_tunnel_def load_all_player_def and_then_Ok_iff io_result_def new_server_def
        split: sum.splits)
  with that show thesis by (metis fst_conv)
qed

interpretation tables: server_invariant E "\<lambda>sv. both_tables E F rows \<longrightarrow> mirrors rows sv" F
  for E :: "'db peer_env" and F :: "'db web_env" and rows
proof (unfold_locales, goal_cases)
  case (3 d w sv w')
  show ?case
  proof
    assume T: "both_tables E F rows"
    from 3 show "mirrors rows sv"
    proof (cases rule: init_managers_cases)
      case (1 ts us)
      with tunnel_tableD(1) [of "db_io E" rows d ts] T show ?thesis
        by (simp add: mirrors_def fold_create_fields new_server_def)
    qed
  qed
qed (auto simp: add_tunnel_mirrors delete_tunnel_mirrors update_tunnel_mirrors delete_player_mirrors
    user_ops_mirrors)

section \<open>Endpoints\<close>

text \<open>
  The outlets and inlets match the tunnels: each belongs to an enabled tunnel that names the server and
  has its description, and each such tunnel has its outlet. (An inlet may be missing: its address may
  not be free.)
\<close>

definition endpoints_match :: "'db server \<Rightarrow> bool" where
  "endpoints_match sv \<longleftrightarrow> hm_wf (sv_outlets sv) \<and> hm_wf (sv_inlets sv)
     \<and> (\<forall>k ob. hm_get (sv_outlets sv) k = Some ob \<longrightarrow>
          (\<exists>t \<in> set (sv_tunnels sv). k = tm_id t \<and> server_wants_outlet t \<and> model_outlet_description t = outlet_descr ob))
     \<and> (\<forall>k i. hm_get (sv_inlets sv) k = Some i \<longrightarrow>
          (\<exists>t \<in> set (sv_tunnels sv). k = tm_id t \<and> server_wants_inlet t \<and> model_inlet_description t = inlet_descr i))
     \<and> (\<forall>t \<in> set (sv_tunnels sv). server_wants_outlet t \<longrightarrow> hm_contains (sv_outlets sv) (tm_id t))"

lemma endpoints_match_fields [simp]:
  "endpoints_match (sv\<lparr>sv_db := d\<rparr>) = endpoints_match sv"
  "endpoints_match (sv\<lparr>sv_players := rs\<rparr>) = endpoints_match sv"
  "endpoints_match (sv\<lparr>sv_pstore := st\<rparr>) = endpoints_match sv"
  "endpoints_match (create_player pid sv) = endpoints_match sv"
  by (simp_all add: endpoints_match_def create_player_def Let_def)

lemma sync_endpoints_match:
  assumes "hm_wf (sv_outlets (fst s))" and "hm_wf (sv_inlets (fst s))"
  shows "endpoints_match (fst (server_sync_tunnels E s))"
proof -
  obtain s1 s2 s3 s4 where
    os: "sv_outlets (fst (server_sync_tunnels E s)) =
       synced server_wants_outlet tm_id model_outlet_description outlet_descr (server_create_outlet E) stop_outlet (sv_tunnels (fst s)) (sv_outlets (fst s)) s1 s2"
    and ios: "sv_inlets (fst (server_sync_tunnels E s)) =
       synced server_wants_inlet tm_id model_inlet_description inlet_descr (server_create_inlet E) stop_inlet (sv_tunnels (fst s)) (sv_inlets (fst s)) s3 s4"
    by (rule server_sync_eq)
  have "hm_wf (sv_outlets (fst (server_sync_tunnels E s)))" "hm_wf (sv_inlets (fst (server_sync_tunnels E s)))"
    unfolding os ios by (rule server_outlets.after_wf [OF assms(1)] server_inlets.after_wf [OF assms(2)])+
  with server_sync_reconciles [OF assms, of E] show ?thesis
    unfolding endpoints_match_def sync_fields(1) by blast
qed

lemma endpoints_matchD: "endpoints_match sv \<Longrightarrow> hm_wf (sv_outlets sv)" "endpoints_match sv \<Longrightarrow> hm_wf (sv_inlets sv)"
  by (simp_all add: endpoints_match_def)

lemma tunnel_ops_endpoints:
  assumes "endpoints_match (fst s)"
  shows "endpoints_match (fst (snd (add_tunnel E t s)))"
    and "endpoints_match (fst (snd (delete_tunnel E tun s)))"
    and "endpoints_match (fst (snd (update_tunnel E t s)))"
proof -
  note wf = endpoints_matchD [OF assms]
  show "endpoints_match (fst (snd (add_tunnel E t s)))"
    by (cases rule: add_tunnel_cases [of E t s])
      (simp_all add: sync_endpoints_match wf assms)
  show "endpoints_match (fst (snd (delete_tunnel E tun s)))"
    by (cases rule: delete_tunnel_cases [of E tun s])
      (simp_all add: sync_endpoints_match wf assms)
  show "endpoints_match (fst (snd (update_tunnel E t s)))"
    by (cases rule: update_tunnel_cases [of E t s])
      (simp_all add: sync_endpoints_match wf assms)
qed

lemma player_ops_endpoints:
  assumes "endpoints_match (fst s)"
  shows "endpoints_match (fst (snd (add_player E samples now name pass s)))"
    and "endpoints_match (fst (snd (update_player E pid name pass s)))"
    and "endpoints_match (fst (snd (delete_player E pid s)))"
proof -
  show "endpoints_match (fst (snd (add_player E samples now name pass s)))"
    using assms by (cases rule: add_player_cases [of E samples now name pass s])
      simp_all
  show "endpoints_match (fst (snd (update_player E pid name pass s)))"
    using assms by (simp add: update_player_def snd_and_then Let_def case_prod_beta
        split: option.splits outcome.splits)
  let ?tuns = "map tm_id (filter (\<lambda>x. tm_sender x = pid \<or> tm_receiver x = pid) (sv_tunnels (fst s)))"
  obtain r t where r: "run_all (delete_tunnel E) ?tuns s = (r, t)" by (rule prod.exhaust)
  have "endpoints_match (fst (snd (run_all (delete_tunnel E) ?tuns s)))"
    by (rule run_all_inv [where I = "\<lambda>u. endpoints_match (fst u)"]) (simp_all add: tunnel_ops_endpoints assms)
  with r have "endpoints_match (fst t)" by simp
  then show "endpoints_match (fst (snd (delete_player E pid s)))"
    by (cases r) (simp_all add: delete_player_def r Let_def snd_and_then
        case_prod_beta split: outcome.splits option.splits)
qed

interpretation endpoints: server_invariant E endpoints_match F
  for E :: "'db peer_env" and F :: "'db web_env"
proof (unfold_locales, goal_cases)
  case (3 d w sv w')
  then show ?case
    by (cases rule: init_managers_cases)
      (simp add: sync_endpoints_match fold_create_fields new_server_def hm_wf_def)
qed (simp_all add: tunnel_ops_endpoints player_ops_endpoints)

section \<open>Players\<close>

text \<open>Each id leads to the player that has it, and the vector of players lists players once each.\<close>

definition players_wf :: "'db server \<Rightarrow> bool" where
  "players_wf sv \<longleftrightarrow> hm_wf (sv_player_map sv) \<and> distinct (sv_players sv) \<and> (\<forall>r \<in> set (sv_players sv). r < sv_next sv)
     \<and> (\<forall>pid r. get_player pid sv = Some r \<longrightarrow> r < sv_next sv \<and> pl_player_id (sv_pstore sv r) = pid)"

lemma players_wf_fields [simp]:
  "players_wf (sv\<lparr>sv_db := d\<rparr>) = players_wf sv"
  "players_wf (sv\<lparr>sv_tunnels := ts\<rparr>) = players_wf sv"
  "players_wf (sv\<lparr>sv_outlets := os\<rparr>) = players_wf sv"
  "players_wf (sv\<lparr>sv_inlets := ios\<rparr>) = players_wf sv"
  by (simp_all add: players_wf_def get_player_def)

lemma players_wf_sync [simp]: "players_wf (fst (server_sync_tunnels E s)) = players_wf (fst s)"
  by (simp add: server_sync_tunnels_def Let_def split: prod.splits)

lemma players_wf_create: "players_wf sv \<Longrightarrow> players_wf (create_player pid sv)"
  by (auto simp: players_wf_def create_player_def get_player_def player_new_def hm.wf_ins Let_def less_Suc_eq
      split: if_splits)

lemma tunnel_ops_players_wf:
  assumes "players_wf (fst s)"
  shows "players_wf (fst (snd (add_tunnel E t s)))"
    and "players_wf (fst (snd (delete_tunnel E tun s)))"
    and "players_wf (fst (snd (update_tunnel E t s)))"
proof -
  show "players_wf (fst (snd (add_tunnel E t s)))"
    by (cases rule: add_tunnel_cases [of E t s]) (simp_all add: assms)
  show "players_wf (fst (snd (delete_tunnel E tun s)))"
    by (cases rule: delete_tunnel_cases [of E tun s]) (simp_all add: assms)
  show "players_wf (fst (snd (update_tunnel E t s)))"
    by (cases rule: update_tunnel_cases [of E t s]) (simp_all add: assms)
qed

lemma players_wf_remove: "players_wf sv \<Longrightarrow> players_wf (sv\<lparr>sv_players := remove_at i (sv_players sv)\<rparr>)"
  using distinct_map_remove_at [of id "sv_players sv" i]
  by (auto simp: players_wf_def get_player_def remove_at_def dest: in_set_takeD in_set_dropD)

lemma player_ops_players_wf:
  assumes "players_wf (fst s)"
  shows "players_wf (fst (snd (add_player E samples now name pass s)))"
    and "players_wf (fst (snd (update_player E pid name pass s)))"
    and "players_wf (fst (snd (delete_player E pid s)))"
proof -
  show "players_wf (fst (snd (add_player E samples now name pass s)))"
    by (cases rule: add_player_cases [of E samples now name pass s])
      (simp_all add: players_wf_create assms)
  show "players_wf (fst (snd (update_player E pid name pass s)))"
    using assms by (simp add: update_player_def snd_and_then Let_def case_prod_beta
        split: option.splits outcome.splits)
  let ?tuns = "map tm_id (filter (\<lambda>x. tm_sender x = pid \<or> tm_receiver x = pid) (sv_tunnels (fst s)))"
  obtain r t where r: "run_all (delete_tunnel E) ?tuns s = (r, t)" by (rule prod.exhaust)
  have "players_wf (fst (snd (run_all (delete_tunnel E) ?tuns s)))"
    by (rule run_all_inv [where I = "\<lambda>u. players_wf (fst u)"]) (simp_all add: tunnel_ops_players_wf assms)
  with r have "players_wf (fst t)" by simp
  then have "players_wf ((fst t)\<lparr>sv_db := d\<rparr>)" "players_wf ((fst t)\<lparr>sv_db := d, sv_players := remove_at i (sv_players (fst t))\<rparr>)"
    for d i
    using players_wf_remove [of "(fst t)\<lparr>sv_db := d\<rparr>" i] by simp_all
  with \<open>players_wf (fst t)\<close> show "players_wf (fst (snd (delete_player E pid s)))"
    by (cases r) (simp_all add: delete_player_def r Let_def snd_and_then case_prod_beta split: outcome.splits option.splits)
qed

interpretation known_players: server_invariant E players_wf F
  for E :: "'db peer_env" and F :: "'db web_env"
proof (unfold_locales, goal_cases)
  case (3 d w sv w')
  have fold: "players_wf (fold (\<lambda>u. create_player (um_id u)) us sv0)" if "players_wf sv0" for us :: "user_model list" and sv0 :: "'db server"
    using that by (induction us arbitrary: sv0) (simp_all add: players_wf_create)
  have "players_wf ((new_server d)\<lparr>sv_tunnels := ts\<rparr>)" for ts
    by (simp add: players_wf_def new_server_def get_player_def hm_wf_def)
  with 3 fold show ?case by (cases rule: init_managers_cases) simp
next
  case (2 sv r tx sid)
  then show ?case by (auto simp: players_wf_def get_player_def)
qed (simp_all add: tunnel_ops_players_wf player_ops_players_wf)

section \<open>Every reachable state\<close>



section \<open>A concrete server\<close>

definition demo_started :: "demo_db server" where
  "demo_started = fst (server_sync_tunnels demo_penv ((new_server ([demo_model 1 80], []))\<lparr>sv_tunnels := [demo_model 1 80]\<rparr>, init_world))"

lemma demo_init:
  "init_managers demo_penv (new_server ([demo_model 1 80], []), init_world) =
      (Ok (), server_sync_tunnels demo_penv ((new_server ([demo_model 1 80], []))\<lparr>sv_tunnels := [demo_model 1 80]\<rparr>, init_world))"
proof -
  have "tunnels_all (db_io demo_penv) ([demo_model 1 80], []) = Inr [demo_model 1 80]"
    "users_all (db_io demo_penv) ([demo_model 1 80], []) = Inr []"
    by (simp_all add: demo_penv_def demo_db_ops_def without_def)
  then show ?thesis
    by (simp add: init_managers_def load_all_tunnel_def load_all_player_def io_result_def new_server_def)
qed

lemma demo_started_reach: "\<exists>w. server_reach demo_penv demo_wenv demo_config (node_new demo_started, w)"
  using demo_init unfolding demo_started_def by (metis prod.collapse server_reach.start)

lemma demo_tables: "tunnel_table (db_io demo_penv) demo_rows" "tunnel_table (db_io demo_wenv) demo_rows"
  by (simp_all add: demo_penv_def demo_wenv_def demo_tunnel_table)



end
