(* ===== verification/Shutdown.thy ===== *)
theory Shutdown
  imports Tcp_Session
begin

text \<open>
  The servers of np\_base/src/net as wholes: \<open>Builder::build_with_listener\<close> with \<open>Server::start_server\<close>
  (tcp\_server.rs) and \<open>run_server\<close> (udp\_server.rs). Both accept until they are told to stop, then tell
  their sessions to stop by dropping a sender and wait until every session has dropped its own, at
  most ten minutes. What their sessions and the clock do is \<open>conn_step\<close>, a session being the life of
  \<open>Tcp_Session\<close>. The interface \<open>server_life\<close> asks how a server may move; the TCP and the UDP server are
  interpretations. Shown: a server returns only after all sessions have ended or the ten minutes are
  over, and once told to stop it does return.
\<close>

text \<open>
  A connection: in its TLS handshake since a time, in a session, ended, or refused. The first two hold
  a clone of \<open>shutdown_complete_tx\<close>. Times are milliseconds.
\<close>

datatype conn =
    Handshake nat
  | Session "phase \<times> nat \<times> nat"
  | Ended "phase \<times> nat \<times> nat"
  | Refused

fun holds_sender :: "conn \<Rightarrow> bool" where
  "holds_sender (Handshake _) = True"
| "holds_sender (Session _) = True"
| "holds_sender _ = False"

text \<open>Accepting; waiting since a time for the sessions to end; returned, and whether all had ended.\<close>

datatype mode = Serving | Draining nat | Returned bool

record srv =
  srv_mode :: mode
  srv_conns :: "conn list"
  srv_clock :: nat

definition tls_timeout :: nat where "tls_timeout = 15 * 1000"
definition exit_timeout :: nat where "exit_timeout = 600 * 1000"

definition srv_new :: srv where
  "srv_new = \<lparr>srv_mode = Serving, srv_conns = [], srv_clock = 0\<rparr>"

abbreviation set_conn :: "nat \<Rightarrow> conn \<Rightarrow> srv \<Rightarrow> srv" where
  "set_conn i c s \<equiv> s\<lparr>srv_conns := (srv_conns s)[i := c]\<rparr>"

text \<open>
  The tasks of the connections, the waiting at the end, and time, which does not pass a deadline:
  \<open>try_tls\<close> gives up after its timeout, the waiting after its own.
\<close>

inductive conn_step :: "srv \<Rightarrow> srv \<Rightarrow> bool" where
    tls_ok: "i < length (srv_conns s) \<Longrightarrow> srv_conns s ! i = Handshake t0 \<Longrightarrow> (\<And>b. srv_mode s \<noteq> Returned b) \<Longrightarrow>
      conn_step s (set_conn i (Session (Starting, 0, 0)) s)"
  | tls_failed: "i < length (srv_conns s) \<Longrightarrow> srv_conns s ! i = Handshake t0 \<Longrightarrow> (\<And>b. srv_mode s \<noteq> Returned b) \<Longrightarrow>
      conn_step s (set_conn i Refused s)"
  | session: "i < length (srv_conns s) \<Longrightarrow> srv_conns s ! i = Session x \<Longrightarrow> life_step x y \<Longrightarrow> x \<noteq> y \<Longrightarrow>
      (\<And>b. srv_mode s \<noteq> Returned b) \<Longrightarrow> conn_step s (set_conn i (Session y) s)"
  | ended: "i < length (srv_conns s) \<Longrightarrow> srv_conns s ! i = Session (p, n, m) \<Longrightarrow> p \<in> {Finished, Unwound} \<Longrightarrow>
      (\<And>b. srv_mode s \<noteq> Returned b) \<Longrightarrow> conn_step s (set_conn i (Ended (p, n, m)) s)"
  | drained: "srv_mode s = Draining t0 \<Longrightarrow> \<not> list_ex holds_sender (srv_conns s) \<Longrightarrow>
      conn_step s (s\<lparr>srv_mode := Returned True\<rparr>)"
  | forced: "srv_mode s = Draining t0 \<Longrightarrow> srv_clock s \<ge> t0 + exit_timeout \<Longrightarrow>
      conn_step s (s\<lparr>srv_mode := Returned False\<rparr>)"
  | tick: "(\<And>b. srv_mode s \<noteq> Returned b) \<Longrightarrow> (\<And>t0. Handshake t0 \<in> set (srv_conns s) \<Longrightarrow> srv_clock s < t0 + tls_timeout) \<Longrightarrow>
      (\<And>t0. srv_mode s = Draining t0 \<Longrightarrow> srv_clock s < t0 + exit_timeout) \<Longrightarrow>
      conn_step s (s\<lparr>srv_clock := srv_clock s + 1\<rparr>)"

text \<open>
  TLS (tls.rs and the beginning of \<open>start_server\<close>): the certificates and the key are read from PEM files;
  entries that cannot be read are skipped. The files and \<open>rustls\<close> are parameters.
\<close>

record tls_io =
  pem_certs :: "string \<Rightarrow> string + (string + bytes) list"
  pem_key :: "string \<Rightarrow> string + bytes option"
  with_single_cert :: "bytes list \<Rightarrow> bytes \<Rightarrow> string + unit"

definition load_certs :: "tls_io \<Rightarrow> string \<Rightarrow> bytes list outcome" where
  "load_certs io path =
     bind_ok (io_result (pem_certs io path)) (\<lambda>xs. Ok (map projr (filter (\<lambda>x. \<not> isl x) xs)))"

definition load_private_key :: "tls_io \<Rightarrow> string \<Rightarrow> bytes outcome" where
  "load_private_key io path =
     bind_ok (io_result (pem_key io path)) (\<lambda>k.
       case k of
         Some der \<Rightarrow> Ok der
       | None \<Rightarrow> Err (''The private key file ('' @ path @ '') format is incorrect''))"

record tls_configuration =
  tls_certificate :: string
  tls_key :: string

definition tls_acceptor :: "tls_io \<Rightarrow> tls_configuration option \<Rightarrow> bool outcome" where
  "tls_acceptor io conf =
     (case conf of
        Some c \<Rightarrow>
          bind_ok (load_certs io (tls_certificate c)) (\<lambda>certs.
          bind_ok (load_private_key io (tls_key c)) (\<lambda>key.
          bind_ok (io_result (with_single_cert io certs key)) (\<lambda>_. Ok True)))
      | None \<Rightarrow> Ok False)"

text \<open>
  The TCP server: the accept loop with an optional initialisation of the stream and optional TLS; \<open>acc\<close> is
  the result of \<open>tls_acceptor\<close>. A failed \<open>accept\<close> ends the loop like the shutdown condition does, and so
  does TLS that cannot be set up, before anything is accepted.
\<close>

inductive tcp_server_step :: "bool outcome \<Rightarrow> srv \<Rightarrow> srv \<Rightarrow> bool" for acc where
    tcp_accept: "srv_mode s = Serving \<Longrightarrow> acc = Ok tls \<Longrightarrow> (stream_init :: (string + unit) option) \<in> {None, Some (Inr ())} \<Longrightarrow>
      tcp_server_step acc s (s\<lparr>srv_conns := srv_conns s @ [if tls then Handshake (srv_clock s) else Session (Starting, 0, 0)]\<rparr>)"
  | tcp_no_tls: "srv_mode s = Serving \<Longrightarrow> acc = Err e \<Longrightarrow> tcp_server_step acc s (s\<lparr>srv_mode := Draining (srv_clock s)\<rparr>)"
  | tcp_init_failed: "srv_mode s = Serving \<Longrightarrow> acc = Ok tls \<Longrightarrow> stream_init = Some (Inl (e :: string) :: string + unit) \<Longrightarrow> tcp_server_step acc s s"
  | tcp_accept_failed: "srv_mode s = Serving \<Longrightarrow> acc = Ok tls \<Longrightarrow> tcp_server_step acc s (s\<lparr>srv_mode := Draining (srv_clock s)\<rparr>)"
  | tcp_shutdown: "srv_mode s = Serving \<Longrightarrow> tcp_server_step acc s (s\<lparr>srv_mode := Draining (srv_clock s)\<rparr>)"
  | tcp_conn: "conn_step s t \<Longrightarrow> tcp_server_step acc s t"

text \<open>The UDP server: a datagram from a new address starts a session; a failed receive is ignored.\<close>

inductive udp_server_step :: "srv \<Rightarrow> srv \<Rightarrow> bool" where
    udp_new_address: "srv_mode s = Serving \<Longrightarrow> udp_server_step s (s\<lparr>srv_conns := srv_conns s @ [Session (Starting, 0, 0)]\<rparr>)"
  | udp_recv_failed: "srv_mode s = Serving \<Longrightarrow> udp_server_step s s"
  | udp_shutdown: "srv_mode s = Serving \<Longrightarrow> udp_server_step s (s\<lparr>srv_mode := Draining (srv_clock s)\<rparr>)"
  | udp_conn: "conn_step s t \<Longrightarrow> udp_server_step s t"

inductive_cases conn_stepE: "conn_step s t"
inductive_cases tcp_server_stepE: "tcp_server_step acc s t"
inductive_cases udp_server_stepE: "udp_server_step s t"

section \<open>What every server does\<close>

text \<open>Every session is in a possible state of its life; an ended one finished or unwound.\<close>

fun conn_ok :: "conn \<Rightarrow> bool" where
  "conn_ok (Session x) = life_ok x"
| "conn_ok (Ended (p, n, m)) = (life_ok (p, n, m) \<and> p \<in> {Finished, Unwound})"
| "conn_ok _ = True"

definition srv_ok :: "srv \<Rightarrow> bool" where
  "srv_ok s \<longleftrightarrow> list_all conn_ok (srv_conns s)
     \<and> (\<forall>t0. srv_mode s = Draining t0 \<longrightarrow> t0 \<le> srv_clock s)
     \<and> (srv_mode s = Returned True \<longrightarrow> \<not> list_ex holds_sender (srv_conns s))
     \<and> (srv_mode s = Returned False \<longrightarrow> exit_timeout \<le> srv_clock s)"

text \<open>How many moves a connection can still make, and a server that is waiting.\<close>

fun conn_left :: "conn \<Rightarrow> nat" where
  "conn_left (Handshake _) = 5"
| "conn_left (Session (Starting, _)) = 4"
| "conn_left (Session (Running, _)) = 3"
| "conn_left (Session (Closing, _)) = 2"
| "conn_left (Session _) = 1"
| "conn_left _ = 0"

definition moves_left :: "srv \<Rightarrow> nat" where
  "moves_left s = (case srv_mode s of
     Draining t0 \<Rightarrow> Suc (sum_list (map conn_left (srv_conns s)) + (t0 + exit_timeout - srv_clock s))
   | _ \<Rightarrow> 0)"

lemma conn_left_life: "life_step x y \<Longrightarrow> x \<noteq> y \<Longrightarrow> conn_left (Session y) < conn_left (Session x)"
  by (cases x; cases y; cases "fst x"; cases "fst y") auto

lemma conn_left_set:
  "i < length (srv_conns s) \<Longrightarrow> conn_left c < conn_left (srv_conns s ! i) \<Longrightarrow> srv_mode s = Draining t0 \<Longrightarrow>
   moves_left (set_conn i c s) < moves_left s"
proof -
  assume i: "i < length (srv_conns s)" and c: "conn_left c < conn_left (srv_conns s ! i)" and m: "srv_mode s = Draining t0"
  have "sum_list (map conn_left ((srv_conns s)[i := c])) < sum_list (map conn_left (srv_conns s))"
    using i c elem_le_sum_list [of i "map conn_left (srv_conns s)"] by (simp add: map_update sum_list_update)
  with m show ?thesis by (simp add: moves_left_def)
qed

lemma conn_step_moves:
  assumes "conn_step s t" and "srv_mode s = Draining t0"
  shows "moves_left t < moves_left s \<and> (srv_mode t = Draining t0 \<or> (\<exists>b. srv_mode t = Returned b))
    \<and> length (srv_conns t) = length (srv_conns s)"
  using assms
proof (cases rule: conn_step.cases)
  case (session i x y)
  with conn_left_set [of i s "Session y"] conn_left_life assms(2) show ?thesis by simp
next
  case (ended i p n m)
  have "conn_left (Ended (p, n, m)) < conn_left (Session (p, n, m))" by (cases p) simp_all
  with ended conn_left_set [of i s "Ended (p, n, m)"] assms(2) show ?thesis by simp
qed (use conn_left_set assms(2) in \<open>auto simp: moves_left_def\<close>)

lemma conn_step_mode:
  assumes "conn_step s t"
  shows "\<not> (\<exists>b. srv_mode s = Returned b)" and "srv_mode s = Serving \<Longrightarrow> srv_mode t = Serving"
  using assms by (auto elim: conn_stepE)

lemma conn_ok_set: "list_all conn_ok cs \<Longrightarrow> conn_ok c \<Longrightarrow> list_all conn_ok (cs[i := c])"
  using set_update_subset_insert [of cs i c] by (auto simp: list_all_iff)

lemma conn_step_ok:
  assumes "srv_ok s" and "conn_step s t"
  shows "srv_ok t"
proof -
  note cs = assms(1) [unfolded srv_ok_def, THEN conjunct1]
  have nth: "conn_ok (srv_conns s ! i)" if "i < length (srv_conns s)" for i
    using cs that by (simp add: list_all_length)
  have not_ret: "srv_ok (set_conn i c s)" if "conn_ok c" "\<And>b. srv_mode s \<noteq> Returned b" for i c
    using assms(1) that by (simp add: srv_ok_def conn_ok_set)
  show ?thesis
    using assms(2)
  proof (cases rule: conn_step.cases)
    case (session i x y)
    with nth [of i] have "conn_ok (Session y)" using life_ok_step by simp
    with session not_ret show ?thesis by simp
  next
    case (ended i p n m)
    with nth [of i] have "conn_ok (Ended (p, n, m))" by simp
    with ended not_ret show ?thesis by simp
  next
    case (forced t0)
    with assms(1) show ?thesis by (auto simp: srv_ok_def)
  next
    case tick
    with assms(1) show ?thesis by (fastforce simp: srv_ok_def)
  qed (use not_ret assms(1) in \<open>simp_all add: srv_ok_def\<close>)
qed

text \<open>A waiting server is never stuck: time passes, or a deadline is over.\<close>

lemma draining_moves:
  assumes "srv_mode s = Draining t0"
  shows "\<exists>t. conn_step s t"
proof (cases "srv_clock s \<ge> t0 + exit_timeout")
  case True
  with assms forced show ?thesis by blast
next
  case False
  show ?thesis
  proof (cases "\<exists>u. Handshake u \<in> set (srv_conns s)")
    case True
    then obtain i u where "i < length (srv_conns s)" "srv_conns s ! i = Handshake u" by (metis in_set_conv_nth)
    with assms tls_failed [of i s u] show ?thesis by auto
  next
    case False': False
    have "conn_step s (s\<lparr>srv_clock := srv_clock s + 1\<rparr>)"
      by (rule tick) (use False False' assms in auto)
    then show ?thesis by blast
  qed
qed

locale server_life =
  fixes step :: "srv \<Rightarrow> srv \<Rightarrow> bool"
  assumes conns_go_on: "conn_step s t \<Longrightarrow> step s t"
    and moves: "step s t \<Longrightarrow> conn_step s t
      \<or> srv_mode s = Serving \<and> srv_clock t = srv_clock s
        \<and> (srv_mode t = Draining (srv_clock s) \<and> srv_conns t = srv_conns s
          \<or> srv_mode t = Serving \<and> (\<exists>cs. srv_conns t = srv_conns s @ cs \<and> set cs \<subseteq> {Handshake (srv_clock s), Session (Starting, 0, 0)}))"
begin

lemma step_ok:
  assumes "srv_ok s" and "step s t"
  shows "srv_ok t"
  using moves [OF assms(2)]
proof (elim disjE conjE exE)
  fix cs assume "set cs \<subseteq> {Handshake (srv_clock s), Session (Starting, 0, 0)}"
  then have "list_all conn_ok cs" by (auto simp: list_all_iff)
  moreover assume "srv_mode t = Serving" "srv_conns t = srv_conns s @ cs"
  ultimately show ?thesis using assms(1) by (simp add: srv_ok_def)
next
  assume "conn_step s t"
  with assms(1) show ?thesis by (rule conn_step_ok)
next
  assume "srv_clock t = srv_clock s" "srv_mode t = Draining (srv_clock s)" "srv_conns t = srv_conns s"
  with assms(1) show ?thesis by (simp add: srv_ok_def)
qed

lemma reach_ok: "step\<^sup>*\<^sup>* srv_new s \<Longrightarrow> srv_ok s"
  by (induction rule: rtranclp_induct) (auto simp: step_ok, simp add: srv_ok_def srv_new_def)

lemma draining_step:
  assumes "step s t" and "srv_mode s = Draining t0"
  shows "moves_left t < moves_left s \<and> (srv_mode t = Draining t0 \<or> (\<exists>b. srv_mode t = Returned b))
    \<and> length (srv_conns t) = length (srv_conns s)"
  using moves [OF assms(1)] conn_step_moves [OF _ assms(2)] assms(2) by auto

lemma returned_stays: "srv_mode s = Returned b \<Longrightarrow> \<not> step s t"
  using moves [of s t] conn_step_mode(1) [of s t] by auto

text \<open>The number of steps from a waiting server on is bounded.\<close>

lemma draining_bounded:
  "(step ^^ n) s t \<Longrightarrow> srv_mode s = Draining t0 \<Longrightarrow>
   n + moves_left t \<le> moves_left s \<and> (srv_mode t = Draining t0 \<or> (\<exists>b. srv_mode t = Returned b))
    \<and> length (srv_conns t) = length (srv_conns s)"
proof (induction n arbitrary: t)
  case (Suc n)
  then obtain u where u: "(step ^^ n) s u" "step u t" by auto
  with Suc have IH: "n + moves_left u \<le> moves_left s" "srv_mode u = Draining t0 \<or> (\<exists>b. srv_mode u = Returned b)"
    "length (srv_conns u) = length (srv_conns s)" by blast+
  with u(2) returned_stays have "srv_mode u = Draining t0" by blast
  with draining_step [OF u(2)] IH(1,3) show ?case by fastforce
qed simp

lemma draining_returns:
  assumes "srv_mode s = Draining t0"
  shows "\<exists>t b. step\<^sup>*\<^sup>* s t \<and> srv_mode t = Returned b"
  using assms
proof (induction "moves_left s" arbitrary: s rule: less_induct)
  case less
  obtain u where u: "step s u" using draining_moves [OF less.prems] conns_go_on by blast
  from draining_step [OF this less.prems] show ?case
  proof (elim conjE disjE exE)
    assume "moves_left u < moves_left s" "srv_mode u = Draining t0"
    from less.hyps [OF this] obtain t b where "step\<^sup>*\<^sup>* u t" "srv_mode t = Returned b" by blast
    with u show ?case by (meson converse_rtranclp_into_rtranclp)
  next
    fix b assume "srv_mode u = Returned b"
    with u show ?case by blast
  qed
qed

end

interpretation tcp: server_life "tcp_server_step acc" for acc
  by unfold_locales (auto intro: tcp_conn elim!: tcp_server_stepE split: if_splits)

interpretation udp: server_life udp_server_step
  by unfold_locales (auto intro: udp_conn elim!: udp_server_stepE)

section \<open>Shutdown\<close>

text \<open>A connection that is over: refused, unwound by a panic, or closed as often as it was started.\<close>

fun over :: "conn \<Rightarrow> bool" where
  "over Refused = True"
| "over (Ended (p, n, m)) = (p = Unwound \<or> p = Finished \<and> m = n)"
| "over _ = False"

lemma srv_ok_over:
  assumes "srv_ok s" and "srv_mode s = Returned b"
  shows "if b then list_all over (srv_conns s) else exit_timeout \<le> srv_clock s"
proof (cases b)
  case True
  have "over c" if "conn_ok c" "\<not> holds_sender c" for c
    using that by (cases c rule: over.cases) auto
  with True assms show ?thesis by (auto simp: srv_ok_def list_all_iff list_ex_iff)
qed (use assms in \<open>simp add: srv_ok_def\<close>)


text \<open>
  C21: A server that has been told to stop accepts nothing more and does return: from then on it can
  always move, it makes at most six hundred thousand steps of the clock and five moves per
  connection, and after them it has returned.
\<close>

theorem stopped_server_returns:
  assumes "srv_mode s = Draining t0" and "t0 \<le> srv_clock s" and "step \<in> {tcp_server_step acc, udp_server_step}"
  shows "(\<forall>n t. (step ^^ n) s t \<longrightarrow> n \<le> 600 * 1000 + 5 * length (srv_conns s) + 1
        \<and> length (srv_conns t) = length (srv_conns s) \<and> (srv_mode t = Draining t0 \<and> (\<exists>u. step t u) \<or> (\<exists>b. srv_mode t = Returned b)))
    \<and> (\<exists>t b. step\<^sup>*\<^sup>* s t \<and> srv_mode t = Returned b)"
proof -
  have life: "server_life step" using assms(3) tcp.server_life_axioms udp.server_life_axioms by auto
  have "conn_left c \<le> 5" for c by (cases c rule: conn_left.cases) simp_all
  then have "sum_list (map conn_left (srv_conns s)) \<le> sum_list (map (\<lambda>_. 5) (srv_conns s))"
    by (intro sum_list_mono) simp
  then have left: "moves_left s \<le> 600 * 1000 + 5 * length (srv_conns s) + 1"
    using assms(1,2) by (simp add: moves_left_def exit_timeout_def sum_list_triv)
  show ?thesis
  proof (intro conjI allI impI)
    fix n t assume n: "(step ^^ n) s t"
    note b = server_life.draining_bounded [OF life n assms(1)]
    show "n \<le> 600 * 1000 + 5 * length (srv_conns s) + 1" "length (srv_conns t) = length (srv_conns s)" using b left by simp_all
    show "srv_mode t = Draining t0 \<and> (\<exists>u. step t u) \<or> (\<exists>b. srv_mode t = Returned b)"
      using b draining_moves [of t t0] server_life.conns_go_on [OF life] by blast
  qed (rule server_life.draining_returns [OF life assms(1)])
qed

text \<open>A TCP server whose certificate or key cannot be used never accepts a connection, and ends by itself.\<close>

theorem unusable_tls_ends_server:
  assumes "(tcp_server_step (Err e))\<^sup>*\<^sup>* srv_new s"
  shows "srv_conns s = [] \<and> (srv_mode s = Serving \<longrightarrow> tcp_server_step (Err e) s (s\<lparr>srv_mode := Draining (srv_clock s)\<rparr>))"
proof -
  have "srv_conns s = []"
    using assms
  proof (induction rule: rtranclp_induct)
    case (step t u)
    then show ?case by (auto elim!: tcp_server_stepE conn_stepE)
  qed (simp add: srv_new_def)
  then show ?thesis by (simp add: tcp_no_tls)
qed

text \<open>A server without TLS that has one connection, which is running when the stop comes.\<close>

definition demo_stopping :: srv where
  "demo_stopping = \<lparr>srv_mode = Draining 0, srv_conns = [Session (Running, 1, 0)], srv_clock = 0\<rparr>"


theorem stopped_server_returns_witness:
  "\<exists>t b. (tcp_server_step (Ok False))\<^sup>*\<^sup>* demo_stopping t \<and> srv_mode t = Returned b"
  using stopped_server_returns [of demo_stopping 0 "tcp_server_step (Ok False)" "Ok False"] by (simp add: demo_stopping_def)

end
