(* ===== verification/Server_Main.thy ===== *)
theory Server_Main
  imports Server_Inv Shutdown
begin

text \<open>
  The server program: np\_server/src/main.rs, the configuration and the options, \<open>init_global\<close> and the
  logger (np\_server/src/global). The program reads its configuration, prepares the database and the
  managers, and then waits for the first of the TCP server and, if an administrator is configured, the
  web server. Shown: the program comes up under exactly which answers from outside; as long as it is up
  it is the server of \<open>Server_Run\<close>; and without an administrator its tunnels never change.
\<close>

section \<open>Configuration\<close>

record server_opts =
  opt_backtrace :: bool
  config_file :: string
  opt_log_level :: string
  opt_base_log_level :: string

record config = web_config +
  database_url :: string
  listen_addr :: string
  config_enable_tls :: bool
  tls_cert_file :: string
  tls_key_file :: string
  web_addr :: string
  web_base_dir :: string
  config_illegal_traffic_forward :: string

text \<open>What \<open>serde_json\<close> reads; \<open>None\<close> is a field that is missing and has a default.\<close>

record config_json = web_config +
  js_database_url :: string
  js_listen_addr :: string
  js_enable_tls :: bool
  js_tls_cert :: string
  js_tls_key :: string
  js_web_addr :: string
  js_web_base_dir :: string
  js_illegal_traffic_forward :: "string option"

definition default_illegal_traffic_forward :: string where
  "default_illegal_traffic_forward = ''''"

definition deserialize_config :: "config_json \<Rightarrow> config" where
  "deserialize_config j =
     \<lparr>web_username = web_username j, web_password = web_password j, database_url = js_database_url j,
      listen_addr = js_listen_addr j, config_enable_tls = js_enable_tls j, tls_cert_file = js_tls_cert j,
      tls_key_file = js_tls_key j, web_addr = js_web_addr j, web_base_dir = js_web_base_dir j,
      config_illegal_traffic_forward =
        (case js_illegal_traffic_forward j of Some a \<Rightarrow> a | None \<Rightarrow> default_illegal_traffic_forward)\<rparr>"

section \<open>The start\<close>

record connect_options =
  co_url :: string
  co_max_connections :: nat
  co_min_connections :: nat
  co_connect_timeout :: nat
  co_acquire_timeout :: nat
  co_idle_timeout :: nat
  co_max_lifetime :: nat

definition pool_options :: "string \<Rightarrow> connect_options" where
  "pool_options url =
     \<lparr>co_url = url, co_max_connections = 100, co_min_connections = 5, co_connect_timeout = 8, co_acquire_timeout = 8,
      co_idle_timeout = 8, co_max_lifetime = 8\<rparr>"

datatype db_backend = MySql | Postgres | Sqlite
datatype query_builder = MysqlQueryBuilder | PostgresQueryBuilder | SqliteQueryBuilder
datatype entity = UserEntity | TunnelEntity

record 'db boot_env = tls_io +
  open_config :: "string \<Rightarrow> string + string"
  parse_config :: "string \<Rightarrow> string + config_json"
  log_io :: log_env
  set_log_handler :: "string + unit"
  db_connect :: "connect_options \<Rightarrow> string + db_backend \<times> 'db"
  create_if_missing :: "db_backend \<Rightarrow> query_builder \<Rightarrow> entity \<Rightarrow> 'db \<Rightarrow> (string + unit) \<times> 'db"
  tcp_bind :: "string \<Rightarrow> string + unit"
  http_bind :: "socket_addr \<Rightarrow> string + unit"

text \<open>\<open>GLOBAL_CONFIG\<close>; \<open>None\<close> is the exit of the process with status 1.\<close>

definition load_config :: "'db boot_env \<Rightarrow> server_opts \<Rightarrow> config option" where
  "load_config B opts =
     (case open_config B (config_file opts) of
        Inl e \<Rightarrow> None
      | Inr file \<Rightarrow>
          (case parse_config B file of
             Inl e \<Rightarrow> None
           | Inr j \<Rightarrow> Some (deserialize_config j)))"

definition server_init_logger :: "'db boot_env \<Rightarrow> server_opts \<Rightarrow> unit outcome" where
  "server_init_logger B opts =
     bind_ok (io_result (log_spec (log_io B)
         (opt_log_level opts @ '', sqlx=error, actix=error, mio=error, sea_orm=error, np_base='' @ opt_base_log_level opts))) (\<lambda>_.
     bind_ok (io_result (log_start (log_io B))) (\<lambda>_.
       (case set_log_handler B of
          Inl e \<Rightarrow> Err (''logger set error: '' @ e)
        | Inr _ \<Rightarrow> Ok ())))"

definition create_table :: "'db boot_env \<Rightarrow> db_backend \<Rightarrow> query_builder \<Rightarrow> entity \<Rightarrow> 'db \<Rightarrow> unit outcome \<times> 'db" where
  "create_table B b q e d = (case create_if_missing B b q e d of (r, d) \<Rightarrow> (io_result r, d))"

definition create_tables :: "'db boot_env \<Rightarrow> db_backend \<Rightarrow> 'db \<Rightarrow> unit outcome \<times> 'db" where
  "create_tables B b d =
     (case b of
        MySql \<Rightarrow>
          and_then (create_table B b MysqlQueryBuilder UserEntity d) (\<lambda>_ d.
          create_table B b MysqlQueryBuilder TunnelEntity d)
      | Postgres \<Rightarrow>
          and_then (create_table B b PostgresQueryBuilder UserEntity d) (\<lambda>_ d.
          create_table B b PostgresQueryBuilder TunnelEntity d)
      | Sqlite \<Rightarrow>
          and_then (create_table B b SqliteQueryBuilder UserEntity d) (\<lambda>_ d.
          create_table B b SqliteQueryBuilder TunnelEntity d))"

text \<open>\<open>None\<close>: there is no server yet.\<close>

definition init_global ::
  "'db boot_env \<Rightarrow> 'db peer_env \<Rightarrow> server_opts \<Rightarrow> config \<Rightarrow> world \<Rightarrow> unit outcome \<times> 'db server_state option" where
  "init_global B E opts cfg w =
     (case server_init_logger B opts of
        Ok _ \<Rightarrow>
          (case db_connect B (pool_options (database_url cfg)) of
             Inl e \<Rightarrow> (Panic, None)
           | Inr (backend, d) \<Rightarrow>
               (case create_tables B backend d of
                  (Ok _, d) \<Rightarrow> (case init_managers E (new_server d, w) of (r, s) \<Rightarrow> (r, Some s))
                | (r, d) \<Rightarrow> (r, None)))
      | r \<Rightarrow> (r, None))"

text \<open>
  The first poll of the two servers. An error of the TCP server after binding ends it without an error
  (\<open>build_with_listener\<close>): with no session to wait for it returns at once.
\<close>

definition run_tcp_server :: "'db boot_env \<Rightarrow> config \<Rightarrow> unit outcome" where
  "run_tcp_server B cfg =
     bind_ok (io_result (tcp_bind B (listen_addr cfg))) (\<lambda>_.
       (case tls_acceptor (tls_io.truncate B)
               (if config_enable_tls cfg
                then Some \<lparr>tls_certificate = tls_cert_file cfg, tls_key = tls_key_file cfg\<rparr> else None) of
          Err e \<Rightarrow> Ok ()
        | _ \<Rightarrow> Pending))"

definition run_http_server :: "'db boot_env \<Rightarrow> socket_addr \<Rightarrow> unit outcome" where
  "run_http_server B a = bind_ok (io_result (http_bind B a)) (\<lambda>_. Pending)"

definition run_web_server :: "'db boot_env \<Rightarrow> config \<Rightarrow> unit outcome" where
  "run_web_server B cfg =
     (case parse_socket_addr (web_addr cfg) of
        Some a \<Rightarrow> run_http_server B a
      | None \<Rightarrow> Err ''invalid socket address syntax'')"

definition administered :: "config \<Rightarrow> bool" where
  "administered cfg = (\<not> (web_username cfg = [] \<or> web_password cfg = [] \<or> web_addr cfg = []))"

text \<open>One poll of \<open>select!\<close>, which begins with a branch chosen at random.\<close>

definition select_poll :: "bool \<Rightarrow> 'a outcome \<Rightarrow> 'a outcome \<Rightarrow> 'a outcome" where
  "select_poll tcp_first r1 r2 =
     (if tcp_first then (if r1 \<noteq> Pending then r1 else r2) else (if r2 \<noteq> Pending then r2 else r1))"

datatype 'db program = Up "'db node \<times> world" | Over "unit outcome" | Exit nat

definition server_main ::
  "'db boot_env \<Rightarrow> 'db peer_env \<Rightarrow> bool \<Rightarrow> server_opts \<Rightarrow> world \<Rightarrow> 'db program" where
  "server_main B E tcp_first opts w =
     (case load_config B opts of
        None \<Rightarrow> Exit 1
      | Some cfg \<Rightarrow>
          (case init_global B E opts cfg w of
             (Ok _, Some (sv, w)) \<Rightarrow>
               (case (if administered cfg then select_poll tcp_first (run_tcp_server B cfg) (run_web_server B cfg)
                      else run_tcp_server B cfg) of
                  Pending \<Rightarrow> Up (node_new sv, w)
                | r \<Rightarrow> Over r)
           | (r, _) \<Rightarrow> Over r))"

text \<open>
  The program from then on, with the configured address for traffic that is not of the protocol. There
  are administrators only where the web server runs; the program ends with the first of the two.
\<close>

definition configured :: "config \<Rightarrow> 'db peer_env \<Rightarrow> 'db peer_env" where
  "configured cfg E = E\<lparr>illegal_traffic_forward := config_illegal_traffic_forward cfg\<rparr>"

inductive program_step :: "'db peer_env \<Rightarrow> 'db web_env \<Rightarrow> config \<Rightarrow> 'db program \<Rightarrow> 'db program \<Rightarrow> bool"
  for E F cfg where
    program_connection: "connection_step (configured cfg E) s t \<Longrightarrow> program_step E F cfg (Up s) (Up t)"
  | program_admin: "administered cfg \<Longrightarrow>
      web_handle F (web_config.truncate cfg) req (ident, (nd_server n, w)) = (answer, (ident', (sv, w'))) \<Longrightarrow>
      program_step E F cfg (Up (n, w)) (Up (n\<lparr>nd_server := sv\<rparr>, w'))"
  | tcp_returned: "program_step E F cfg (Up s) (Over (Ok ()))"
  | web_returned: "administered cfg \<Longrightarrow> program_step E F cfg (Up s) (Over r)"

definition program_reach ::
  "'db boot_env \<Rightarrow> 'db peer_env \<Rightarrow> 'db web_env \<Rightarrow> server_opts \<Rightarrow> config \<Rightarrow> 'db program \<Rightarrow> bool" where
  "program_reach B E F opts cfg p \<longleftrightarrow>
     load_config B opts = Some cfg
     \<and> (\<exists>tcp_first w. (program_step E F cfg)\<^sup>*\<^sup>* (server_main B (configured cfg E) tcp_first opts w) p)"

inductive_cases program_stepE: "program_step E F cfg p q"

section \<open>Coming up\<close>

lemma tls_acceptor_returns: "tls_acceptor io conf \<noteq> Panic" "tls_acceptor io conf \<noteq> Pending"
  by (auto simp: tls_acceptor_def load_certs_def load_private_key_def io_result_def split: option.splits sum.splits)

abbreviation tls_usable :: "'db boot_env \<Rightarrow> config \<Rightarrow> bool" where
  "tls_usable B cfg \<equiv> config_enable_tls cfg \<longrightarrow>
     is_Ok (tls_acceptor (tls_io.truncate B) (Some \<lparr>tls_certificate = tls_cert_file cfg, tls_key = tls_key_file cfg\<rparr>))"

lemma run_tcp_server_cases:
  "run_tcp_server B cfg =
     (case tcp_bind B (listen_addr cfg) of Inl e \<Rightarrow> Err e | Inr _ \<Rightarrow> if tls_usable B cfg then Pending else Ok ())"
  using tls_acceptor_returns [of "tls_io.truncate B" "Some \<lparr>tls_certificate = tls_cert_file cfg, tls_key = tls_key_file cfg\<rparr>"]
  by (auto simp: run_tcp_server_def io_result_def is_Ok_def tls_acceptor_def [of _ None] split: sum.splits outcome.splits)

lemma run_web_server_cases:
  "run_web_server B cfg =
     (case parse_socket_addr (web_addr cfg) of
        None \<Rightarrow> Err ''invalid socket address syntax''
      | Some a \<Rightarrow> (case http_bind B a of Inl e \<Rightarrow> Err e | Inr _ \<Rightarrow> Pending))"
  by (auto simp: run_web_server_def run_http_server_def io_result_def split: option.splits sum.splits)

lemma select_poll_Pending_iff: "select_poll f r1 r2 = Pending \<longleftrightarrow> r1 = Pending \<and> r2 = Pending"
  by (auto simp: select_poll_def)


section \<open>While it is up\<close>

lemma server_main_Up:
  assumes "server_main B E tcp_first opts w = Up s"
  obtains d sv w' where "init_managers E (new_server d, w) = (Ok (), (sv, w'))" "s = (node_new sv, w')"
  using assms
  by (auto simp: server_main_def init_global_def split: option.splits prod.splits outcome.splits sum.splits)

lemma program_step_Up: "program_step E F cfg p (Up t) \<Longrightarrow> \<exists>s. p = Up s"
  by (auto elim: program_stepE)

lemma program_reach_induct [consumes 1, case_names start step]:
  assumes "program_reach B E F opts cfg (Up s)"
    and "\<And>d w sv w'. init_managers (configured cfg E) (new_server d, w) = (Ok (), (sv, w')) \<Longrightarrow> P (node_new sv, w')"
    and "\<And>s t. P s \<Longrightarrow> program_step E F cfg (Up s) (Up t) \<Longrightarrow> P t"
  shows "P s"
proof -
  obtain tcp_first w where "(program_step E F cfg)\<^sup>*\<^sup>* (server_main B (configured cfg E) tcp_first opts w) (Up s)"
    using assms(1) by (auto simp: program_reach_def)
  then have "\<forall>s'. Up s = Up s' \<longrightarrow> P s'"
  proof (induction rule: rtranclp_induct)
    case base
    show ?case using assms(2) by (auto elim: server_main_Up)
  next
    case (step p q)
    show ?case
    proof (intro allI impI)
      fix t assume q: "q = Up t"
      with step(2) program_step_Up obtain s where "p = Up s" by blast
      with step q show "P t" using assms(3) by blast
    qed
  qed
  then show ?thesis by blast
qed


text \<open>What connections cannot touch.\<close>

interpretation frozen: connection_invariant E
  "\<lambda>sv. sv_tunnels sv = ts \<and> sv_outlets sv = os \<and> sv_inlets sv = ios"
  for E :: "'db peer_env" and ts os ios
proof (unfold_locales, goal_cases)
  case (1 s samples now name pass)
  then show ?case
    by (cases rule: add_player_cases [of E samples now name pass s]) (simp_all add: create_player_def Let_def)
qed simp

lemma unadministered_frozen:
  assumes "program_reach B E F opts cfg (Up s)" and "\<not> administered cfg"
  shows "\<exists>d w0 sv w1. init_managers (configured cfg E) (new_server d, w0) = (Ok (), (sv, w1))
    \<and> sv_tunnels (nd_server (fst s)) = sv_tunnels sv
    \<and> sv_outlets (nd_server (fst s)) = sv_outlets sv \<and> sv_inlets (nd_server (fst s)) = sv_inlets sv"
  using assms(1)
proof (induction s rule: program_reach_induct)
  case (start d w sv w')
  then show ?case by (auto simp: node_new_def)
next
  case (step s t)
  from step(2) assms(2) have "connection_step (configured cfg E) s t" by (auto elim: program_stepE)
  from frozen.connection_keeps [OF this] step(1) show ?case by (metis (no_types, lifting))
qed


section \<open>A concrete program\<close>

definition demo_json :: "string \<Rightarrow> config_json" where
  "demo_json user =
     \<lparr>web_username = user, web_password = ''secret'', js_database_url = ''sqlite://data.db'', js_listen_addr = ''0.0.0.0:8118'',
      js_enable_tls = False, js_tls_cert = [], js_tls_key = [], js_web_addr = ''0.0.0.0'', js_web_base_dir = ''dist'',
      js_illegal_traffic_forward = None\<rparr>"

definition demo_boot :: "string \<Rightarrow> demo_db boot_env" where
  "demo_boot user =
     \<lparr>pem_certs = (\<lambda>_. Inr []), pem_key = (\<lambda>_. Inr None), with_single_cert = (\<lambda>_ _. Inr ()),
      open_config = (\<lambda>f. Inr f), parse_config = (\<lambda>_. Inr (demo_json user)),
      log_io = \<lparr>log_spec = (\<lambda>_. Inr ()), log_start = Inr ()\<rparr>, set_log_handler = Inr (),
      db_connect = (\<lambda>_. Inr (Sqlite, ([demo_model 1 80], []))), create_if_missing = (\<lambda>_ _ _ d. (Inr (), d)),
      tcp_bind = (\<lambda>_. Inr ()), http_bind = (\<lambda>_. Inr ())\<rparr>"

definition demo_opts :: server_opts where
  "demo_opts = \<lparr>opt_backtrace = False, config_file = ''config.json'', opt_log_level = ''info'', opt_base_log_level = ''error''\<rparr>"

abbreviation demo_cfg :: "string \<Rightarrow> config" where
  "demo_cfg user \<equiv> deserialize_config (demo_json user)"

lemma demo_cfg:
  "load_config (demo_boot user) demo_opts = Some (demo_cfg user)"
  "administered (demo_cfg user) \<longleftrightarrow> user \<noteq> []"
  "configured (demo_cfg user) demo_penv = demo_penv"
  by (simp_all add: load_config_def demo_boot_def administered_def configured_def demo_penv_def deserialize_config_def
      demo_json_def default_illegal_traffic_forward_def)

lemma demo_boots: "\<exists>w. init_global (demo_boot user) demo_penv demo_opts (demo_cfg user) init_world = (Ok (), Some (demo_started, w))"
proof -
  have "server_init_logger (demo_boot user) demo_opts = Ok ()"
    by (simp add: server_init_logger_def demo_boot_def io_result_def)
  moreover have "create_tables (demo_boot user) Sqlite d = (Ok (), d)" for d
    by (simp add: create_tables_def create_table_def demo_boot_def io_result_def)
  moreover have "db_connect (demo_boot user) o' = Inr (Sqlite, ([demo_model 1 80], []))" for o'
    by (simp add: demo_boot_def)
  ultimately show ?thesis
    by (simp add: init_global_def demo_init demo_started_def) (metis prod.collapse)
qed


lemma demo_program: "\<exists>w. program_reach (demo_boot []) demo_penv F demo_opts (demo_cfg []) (Up (node_new demo_started, w))"
proof -
  obtain w where "init_global (demo_boot []) demo_penv demo_opts (demo_cfg []) init_world = (Ok (), Some (demo_started, w))"
    using demo_boots by blast
  moreover have "run_tcp_server (demo_boot []) (demo_cfg []) = Pending"
    by (simp add: run_tcp_server_cases demo_boot_def deserialize_config_def demo_json_def)
  ultimately have "server_main (demo_boot []) demo_penv True demo_opts init_world = Up (node_new demo_started, w)"
    by (simp add: server_main_def demo_cfg(1,2))
  then show ?thesis by (metis program_reach_def demo_cfg(1,3) rtranclp.rtrancl_refl)
qed



end
