(* ===== verification/Client_Main.thy ===== *)
theory Client_Main
  imports Client_Props Shutdown
begin

text \<open>
  The start of the client: \<open>run\<close> of np\_client/src/client.rs, which connects and sets up TLS, and
  np\_client/src/main.rs with the commands and the loop that reconnects for ever. Connecting, the
  certificates and the handshake are the parameter \<open>connect_env\<close>, logging is \<open>log_env\<close>.
\<close>

record common_args =
  backtrace :: bool
  server_addr :: string
  username_arg :: string
  password_arg :: string
  enable_tls :: bool
  insecure :: bool
  ca_cert :: string
  log_level :: string
  base_log_level :: string

text \<open>Whom a TLS client believes: the built-in roots with an optional further one, or everybody.\<close>

datatype trust = Roots "bytes option" | Anybody

record connect_env = tls_io +
  tcp_connect :: "string \<Rightarrow> string + unit"
  set_tcp_keepalive :: "string + unit"
  add_root :: "bytes \<Rightarrow> string + unit"
  server_name :: "string \<Rightarrow> string + string"
  tls_connect :: "trust \<Rightarrow> string \<Rightarrow> string + unit"

definition extra_root :: "connect_env \<Rightarrow> common_args \<Rightarrow> bytes option outcome" where
  "extra_root C args =
     (if ca_cert args \<noteq> [] then
        bind_ok (load_certs (tls_io.truncate C) (ca_cert args)) (\<lambda>certs.
          if certs = [] then Err (''invalid cert file: '' @ ca_cert args)
          else bind_ok (io_result (add_root C (hd certs))) (\<lambda>_. Ok (Some (hd certs))))
      else Ok None)"

text \<open>The name that is looked for in the certificate: the text before the first colon.\<close>

definition tls_server_name :: "string \<Rightarrow> string" where
  "tls_server_name a = split_on (CHR '':'') a ! 0"

definition tls_upgrade :: "connect_env \<Rightarrow> common_args \<Rightarrow> unit outcome" where
  "tls_upgrade C args =
     bind_ok (extra_root C args) (\<lambda>root.
       let trust = (if insecure args then Anybody else Roots root) in
       if split_on (CHR '':'') (server_addr args) = [] then Err (''invalid addr: '' @ server_addr args)
       else
         bind_ok (io_result (server_name C (tls_server_name (server_addr args)))) (\<lambda>name.
           io_result (tls_connect C trust name)))"

definition connect_to_server :: "connect_env \<Rightarrow> common_args \<Rightarrow> unit outcome" where
  "connect_to_server C args =
     bind_ok (io_result (tcp_connect C (server_addr args))) (\<lambda>_.
     bind_ok (io_result (set_tcp_keepalive C)) (\<lambda>_.
       if enable_tls args then tls_upgrade C args else Ok ()))"

text \<open>One attempt: connect, then the client until it returns; \<open>None\<close> if it would not return for ever.\<close>

definition client_attempt ::
  "connect_env \<Rightarrow> client_env \<Rightarrow> prost \<Rightarrow> common_args \<Rightarrow> client_event list \<Rightarrow> world \<Rightarrow> (unit outcome \<times> client_state) option" where
  "client_attempt C E P args es w =
     (case connect_to_server C args of
        Ok _ \<Rightarrow> run_client E P (username_arg args) (password_arg args) es w
      | r \<Rightarrow> Some (r, (new_client (username_arg args) (password_arg args), w)))"

text \<open>
  The loop of \<open>run_with_args\<close> over the attempts whose events are given, with what each returned, its
  client as it left it, and the pause after it in milliseconds. An attempt that is still waiting is the
  last so far, and so is one that panicked.
\<close>

fun run_with_args ::
  "connect_env \<Rightarrow> client_env \<Rightarrow> prost \<Rightarrow> common_args \<Rightarrow> client_event list list \<Rightarrow> world \<Rightarrow>
   (unit outcome \<times> client \<times> nat) list option" where
  "run_with_args C E P args [] w = Some []"
| "run_with_args C E P args (es # attempts) w =
     (case client_attempt C E P args es w of
        None \<Rightarrow> None
      | Some (Err e, (c, w)) \<Rightarrow> map_option (Cons (Err e, c, 5 * 1000)) (run_with_args C E P args attempts w)
      | Some (Ok _, (c, w)) \<Rightarrow> map_option (Cons (Ok (), c, 100)) (run_with_args C E P args attempts w)
      | Some (r, (c, w)) \<Rightarrow> Some [(r, c, 0)])"

text \<open>\<open>init_logger\<close>: whether a logger was set before is \<open>set_before\<close>.\<close>

definition init_logger :: "log_env \<Rightarrow> common_args \<Rightarrow> bool \<Rightarrow> unit outcome" where
  "init_logger L args set_before =
     bind_ok (io_result (log_spec L (log_level args @ '', mio=error, np_base='' @ base_log_level args))) (\<lambda>_.
     bind_ok (io_result (log_start L)) (\<lambda>_. if set_before then Panic else Ok ()))"

datatype command = Install common_args | Uninstall | RunService common_args | RunCmd common_args

text \<open>\<open>main\<close>: which part of the program a command line leads to. The first three exist on Windows only.\<close>

datatype started = StartInstall common_args | StartUninstall | StartService common_args | StartClient common_args | StartError string | StartPanic

definition client_main :: "log_env \<Rightarrow> bool \<Rightarrow> command option \<Rightarrow> started" where
  "client_main L windows cmd =
     (case cmd of
        Some (Install args) \<Rightarrow> if windows then StartInstall args else StartPanic
      | Some Uninstall \<Rightarrow> if windows then StartUninstall else StartPanic
      | Some (RunService args) \<Rightarrow> if windows then StartService args else StartPanic
      | Some (RunCmd args) \<Rightarrow>
          (case init_logger L args False of
             Ok _ \<Rightarrow> StartClient args
           | Err e \<Rightarrow> StartError e
           | _ \<Rightarrow> StartPanic)
      | None \<Rightarrow> StartPanic)"

section \<open>Reconnecting\<close>

lemma connect_to_server_returns: "connect_to_server C args \<noteq> Panic" "connect_to_server C args \<noteq> Pending"
  by (auto simp: connect_to_server_def tls_upgrade_def extra_root_def load_certs_def io_result_def Let_def
      split: sum.splits if_splits)

lemma client_attempt_returns:
  "\<exists>r c w'. client_attempt C E P args es w = Some (r, (c, w')) \<and> r \<noteq> Panic
    \<and> (r = Pending \<or> cl_outlets c = [] \<and> cl_inlets c = [])"
proof (cases "connect_to_server C args")
  case (Ok u)
  then show ?thesis
    using run_client_returns [of E P "username_arg args" "password_arg args" es w]
    by (auto simp: client_attempt_def)
qed (use connect_to_server_returns in \<open>auto simp: client_attempt_def new_client_def\<close>)


section \<open>TLS\<close>

text \<open>
  C26: With TLS enabled and certificates not declared insecure, a client that has written anything to its
  connection, its user name and password first of all, has completed a handshake in which the
  certificate was checked for the name in the server's address, against the built-in roots and the first
  certificate of the given file.
\<close>

theorem password_only_over_verified_tls:
  assumes "enable_tls args" and "\<not> insecure args"
    and "client_attempt C E P args es w = Some (r, (c, w'))" and "cl_wire c \<noteq> []"
  shows "\<exists>root name. extra_root C args = Ok root \<and> (root = None \<longleftrightarrow> ca_cert args = [])
    \<and> server_name C (tls_server_name (server_addr args)) = Inr name \<and> tls_connect C (Roots root) name = Inr ()"
proof -
  have "connect_to_server C args = Ok ()"
    using assms(3,4) connect_to_server_returns [of C args]
    by (cases "connect_to_server C args") (auto simp: client_attempt_def new_client_def)
  with assms(1) have "tls_upgrade C args = Ok ()"
    by (auto simp: connect_to_server_def bind_ok_Ok_iff)
  with assms(2) obtain root name where "extra_root C args = Ok root"
      "server_name C (tls_server_name (server_addr args)) = Inr name" "tls_connect C (Roots root) name = Inr ()"
    by (auto simp: tls_upgrade_def bind_ok_Ok_iff Let_def io_result_Ok_iff split: if_splits)
  moreover from this(1) have "root = None \<longleftrightarrow> ca_cert args = []"
    by (auto simp: extra_root_def bind_ok_Ok_iff split: if_splits)
  ultimately show ?thesis by blast
qed

text \<open>
  A server given by an IPv6 address cannot be reached over TLS: the text before the first colon is
  not its name but an opening bracket and the first digits, which is no name a certificate can have.
\<close>

theorem no_tls_to_ipv6:
  assumes "enable_tls args" and "server_addr args = show_socket_addr (V6 ip p fl sc)"
    and "\<forall>n. isl (server_name C (CHR ''['' # n))"
  shows "\<exists>e. connect_to_server C args = Err e"
proof -
  obtain rest where "server_addr args = CHR ''['' # rest" using assms(2) by (cases "sc = 0") simp_all
  then obtain n where n: "tls_server_name (server_addr args) = CHR ''['' # n"
    by (cases "split_on (CHR '':'') rest") (auto simp: tls_server_name_def)
  obtain e where "server_name C (CHR ''['' # n) = Inl e" using assms(3) by (metis isl_def)
  then have "tls_upgrade C args \<noteq> Ok ()"
    by (auto simp: tls_upgrade_def bind_ok_Ok_iff Let_def n io_result_def)
  with assms(1) connect_to_server_returns [of C args] show ?thesis
    by (cases "connect_to_server C args") (auto simp: connect_to_server_def bind_ok_Ok_iff)
qed

section \<open>A concrete client\<close>

definition demo_connect :: connect_env where
  "demo_connect =
     \<lparr>pem_certs = (\<lambda>_. Inr []), pem_key = (\<lambda>_. Inr None), with_single_cert = (\<lambda>_ _. Inr ()), tcp_connect = (\<lambda>_. Inr ()),
      set_tcp_keepalive = Inr (), add_root = (\<lambda>_. Inr ()),
      server_name = (\<lambda>n. if n \<noteq> [] \<and> hd n = CHR ''['' then Inl ''invalid dns name'' else Inr n),
      tls_connect = (\<lambda>_ _. Inr ())\<rparr>"

definition demo_args :: "string \<Rightarrow> common_args" where
  "demo_args a =
     \<lparr>backtrace = False, server_addr = a, username_arg = ''u'', password_arg = ''p'', enable_tls = True, insecure = False,
      ca_cert = [], log_level = ''info'', base_log_level = ''error''\<rparr>"

definition demo_cenv :: client_env where
  "demo_cenv = \<lparr>bind_io = (\<lambda>_ _. Inr ()), outlet_refs = (\<lambda>_. (1, 2)), inlet_refs = (\<lambda>_. (3, 4)), write_io = (\<lambda>_. Inr ())\<rparr>"

theorem password_only_over_verified_tls_witness:
  "\<exists>r c w'. client_attempt demo_connect demo_cenv demo_prost (demo_args ''example.org:8118'') [] init_world = Some (r, (c, w'))
    \<and> cl_wire c \<noteq> [] \<and> tls_connect demo_connect (Roots None) ''example.org'' = Inr ()"
proof -
  let ?args = "demo_args ''example.org:8118''"
  have "connect_to_server demo_connect ?args = Ok ()"
    by (simp add: connect_to_server_def tls_upgrade_def extra_root_def demo_connect_def demo_args_def io_result_def tls_server_name_def Let_def)
  then obtain r c w' where a: "client_attempt demo_connect demo_cenv demo_prost ?args [] init_world = Some (r, (c, w'))" "cl_wire c \<noteq> []"
    by (simp add: client_attempt_def run_client_def send_login_def client_package_and_send_message_def package_def demo_cenv_def
        io_result_def new_client_def)
  have "enable_tls ?args" "\<not> insecure ?args" by (simp_all add: demo_args_def)
  from password_only_over_verified_tls [OF this a] obtain root name where
      "extra_root demo_connect ?args = Ok root" "server_name demo_connect (tls_server_name (server_addr ?args)) = Inr name"
      "tls_connect demo_connect (Roots root) name = Inr ()" by blast
  moreover have "extra_root demo_connect ?args = Ok None" "server_name demo_connect (tls_server_name (server_addr ?args)) = Inr ''example.org''"
    by (simp_all add: extra_root_def demo_args_def tls_server_name_def demo_connect_def)
  ultimately show ?thesis using a by auto
qed

theorem no_tls_to_ipv6_witness:
  "\<exists>e. connect_to_server demo_connect (demo_args (show_socket_addr (V6 (Ipv6Addr 0 0 0 0 0 0 0 1) 8118 0 0))) = Err e"
  by (rule no_tls_to_ipv6 [of _ "Ipv6Addr 0 0 0 0 0 0 0 1" 8118 0 0]) (simp_all add: demo_args_def demo_connect_def)


end
