(* ===== verification/Win_Service.thy ===== *)
theory Win_Service
  imports Client_Main
begin

text \<open>
  np\_client/src/winservice.rs: the client as a service of Windows. The service control manager is the
  parameter \<open>service_env\<close>; what it asks of the service are the control events.
\<close>

definition service_name :: string where "service_name = ''np_client''"
definition service_exe :: string where "service_exe = ''np_client.exe''"
definition service_desc :: string where "service_desc = ''net pipe client''"
definition service_display_name :: string where "service_display_name = ''npipe client''"

datatype service_state = SvcRunning | SvcStopPending | SvcStopped | SvcOther

record service_status =
  current_state :: service_state
  checkpoint :: u32
  wait_hint :: nat

text \<open>The other fields of a status are constant: own process, accepts stop, no error, no process id.\<close>

record service_env =
  register_handler :: "string + unit"
  report_status :: "service_status \<Rightarrow> string + unit"

definition set_service_state :: "service_env \<Rightarrow> service_state \<Rightarrow> u32 \<Rightarrow> nat \<Rightarrow> service_status list \<Rightarrow> unit outcome \<times> service_status list" where
  "set_service_state V st cp hint reported =
     (let status = \<lparr>current_state = st, checkpoint = cp, wait_hint = hint\<rparr> in
      (io_result (report_status V status), reported @ [status]))"

datatype control = Interrogate | Stop | OtherControl
datatype handler_result = NoError | NotImplemented

text \<open>The handler owns the sender until the first stop; the result tells whether the signal was sent.\<close>

definition event_handler :: "control \<Rightarrow> bool \<Rightarrow> handler_result \<times> bool \<times> bool" where
  "event_handler ev has_sender =
     (case ev of
        Interrogate \<Rightarrow> (NoError, has_sender, False)
      | Stop \<Rightarrow> (NoError, False, has_sender)
      | OtherControl \<Rightarrow> (NotImplemented, has_sender, False))"

fun handle_events :: "control list \<Rightarrow> bool \<Rightarrow> handler_result list \<times> nat" where
  "handle_events [] has_sender = ([], 0)"
| "handle_events (ev # evs) has_sender =
     (case event_handler ev has_sender of (r, has_sender, sent) \<Rightarrow>
      case handle_events evs has_sender of (rs, n) \<Rightarrow> (r # rs, (if sent then Suc n else n)))"

text \<open>
  \<open>run_service\<close> for the control events so far; \<open>run_with_args\<close> does not return, so the \<open>select!\<close> waits
  for the stop signal. With the statuses reported.
\<close>

definition run_service :: "service_env \<Rightarrow> command option \<Rightarrow> control list \<Rightarrow> unit outcome \<times> service_status list" where
  "run_service V cmd evs =
     and_then (io_result (register_handler V), []) (\<lambda>_ reported.
     and_then (set_service_state V SvcRunning 1 0 reported) (\<lambda>_ reported.
     and_then
       (case cmd of
          Some (RunService args) \<Rightarrow>
            (if snd (handle_events evs True) = 0 then (Pending, reported)
             else (Ok (), snd (set_service_state V SvcStopPending 2 (3 * 1000) reported)))
        | _ \<Rightarrow> (Ok (), reported)) (\<lambda>_ reported.
     set_service_state V SvcStopped 3 (3 * 1000) reported)))"

text \<open>
  The entry points: an error of the service is logged and dropped, and the dispatcher, which blocks until
  the service has stopped, is started only after the directory of the program has been entered and the
  log has been opened.
\<close>

definition custom_service_main :: "service_env \<Rightarrow> command option \<Rightarrow> control list \<Rightarrow> unit outcome \<times> service_status list" where
  "custom_service_main V cmd evs =
     (case run_service V cmd evs of (Err e, reported) \<Rightarrow> (Ok (), reported) | r \<Rightarrow> r)"

record dispatch_env = log_env +
  current_exe :: "string + string"
  set_current_dir :: "string \<Rightarrow> string + unit"
  dispatch :: "string \<Rightarrow> string + unit"

definition run_server_as_service :: "dispatch_env \<Rightarrow> common_args \<Rightarrow> bool \<Rightarrow> unit outcome" where
  "run_server_as_service D args set_before =
     (case current_exe D of
        Inl _ \<Rightarrow> Panic
      | Inr dir \<Rightarrow>
          (case set_current_dir D dir of
             Inl _ \<Rightarrow> Panic
           | Inr _ \<Rightarrow>
               bind_ok (init_logger (log_env.truncate D) args set_before) (\<lambda>_.
               (case dispatch D service_name of
                  Inl _ \<Rightarrow> Err ''error registering generated `ffi_service_main` with the system''
                | Inr _ \<Rightarrow> Ok ()))))"

section \<open>Installation\<close>

record service_info =
  si_name :: string
  si_display_name :: string
  si_executable :: string
  si_arguments :: "string list"

definition launch_arguments :: "common_args \<Rightarrow> string list" where
  "launch_arguments args =
     [''run-service'',
      if backtrace args then ''--backtrace=true'' else ''--backtrace=false'',
      ''--server='' @ server_addr args,
      ''--username='' @ username_arg args,
      ''--password='' @ password_arg args,
      ''--log-level='' @ log_level args,
      ''--base-log-level='' @ base_log_level args,
      ''--ca-cert='' @ ca_cert args]
     @ (if enable_tls args then [''--enable-tls''] else [])
     @ (if insecure args then [''--insecure''] else [])"

record manager_env =
  open_manager :: "string + unit"
  create_service :: "service_info \<Rightarrow> string + unit"
  set_description :: "string \<Rightarrow> string + unit"
  open_service :: "string \<Rightarrow> string + unit"
  query_status :: "string + service_state"
  stop_service :: "string + unit"
  delete_service :: "string + unit"

text \<open>\<open>exe_dir\<close> is the directory of the running program; a service is always its own process, starts automatically
  and runs as the system.\<close>

definition install_service :: "manager_env \<Rightarrow> string + string \<Rightarrow> common_args \<Rightarrow> unit outcome" where
  "install_service M exe_dir args =
     bind_ok (io_result (open_manager M)) (\<lambda>_.
       (case exe_dir of
          Inl _ \<Rightarrow> Panic
        | Inr dir \<Rightarrow>
            bind_ok (io_result (create_service M
                \<lparr>si_name = service_name, si_display_name = service_display_name, si_executable = dir @ service_exe,
                 si_arguments = launch_arguments args\<rparr>)) (\<lambda>_.
            io_result (set_description M service_desc))))"

text \<open>With the calls made, in order.\<close>

datatype manager_call = CallStop | CallSleep nat | CallDelete

definition uninstall_service :: "manager_env \<Rightarrow> unit outcome \<times> manager_call list" where
  "uninstall_service M =
     and_then (io_result (open_manager M), []) (\<lambda>_ calls.
     and_then (io_result (open_service M service_name), calls) (\<lambda>_ calls.
     and_then (io_result (query_status M), calls) (\<lambda>st calls.
     and_then
       (if st \<noteq> SvcStopped
        then and_then (io_result (stop_service M), calls @ [CallStop]) (\<lambda>_ calls. (Ok (), calls @ [CallSleep 1000]))
        else (Ok (), calls)) (\<lambda>_ calls.
     (io_result (delete_service M), calls @ [CallDelete])))))"

section \<open>Properties\<close>

lemma handle_events_signals: "snd (handle_events evs b) = (if b \<and> Stop \<in> set evs then 1 else 0)"
  by (induction evs arbitrary: b) (auto simp: event_handler_def case_prod_beta split: control.splits)

lemma handle_events_answers:
  "fst (handle_events evs b) = map (\<lambda>ev. if ev = OtherControl then NotImplemented else NoError) evs"
  by (induction evs arbitrary: b) (auto simp: event_handler_def case_prod_beta split: control.splits)

text \<open>
  The service goes through its states in order. Every control is answered; the first stop, and only
  the first, ends the client; before a stop the manager has been told only that the service runs,
  after it that it is stopping and that it has stopped. A report of stopping that fails does not
  keep the service from reporting that it has stopped.
\<close>

theorem service_stops_in_order:
  assumes "register_handler V = Inr ()" and "\<And>st. current_state st \<noteq> SvcStopPending \<Longrightarrow> report_status V st = Inr ()"
  shows "fst (handle_events evs True) = map (\<lambda>ev. if ev = OtherControl then NotImplemented else NoError) evs
    \<and> snd (handle_events evs True) = (if Stop \<in> set evs then 1 else 0)
    \<and> (Stop \<notin> set evs \<longrightarrow> fst (run_service V (Some (RunService args)) evs) = Pending
        \<and> map current_state (snd (run_service V (Some (RunService args)) evs)) = [SvcRunning])
    \<and> (Stop \<in> set evs \<longrightarrow> fst (run_service V (Some (RunService args)) evs) = Ok ()
        \<and> map current_state (snd (run_service V (Some (RunService args)) evs)) = [SvcRunning, SvcStopPending, SvcStopped])"
  using assms by (auto simp: handle_events_signals handle_events_answers run_service_def set_service_state_def io_result_def Let_def
      split: sum.splits)

text \<open>Statuses of states that are not pending carry a checkpoint that is not zero.\<close>

theorem running_has_checkpoint:
  "register_handler V = Inr () \<Longrightarrow> hd (snd (run_service V cmd evs)) = \<lparr>current_state = SvcRunning, checkpoint = 1, wait_hint = 0\<rparr>"
  by (auto simp: run_service_def set_service_state_def io_result_def Let_def snd_and_then
      split: sum.splits outcome.splits option.splits command.splits)

text \<open>
  Installing loses nothing: two configurations that are installed with the same arguments are the
  same, and the arguments begin with the command that runs the service. Uninstalling deletes the service
  only when it is stopped or a stop has been requested.
\<close>

theorem installation_keeps_configuration:
  "(launch_arguments args = launch_arguments args' \<longrightarrow> args = args') \<and> hd (launch_arguments args) = ''run-service''
    \<and> (CallDelete \<in> set (snd (uninstall_service M)) \<longrightarrow>
        query_status M = Inr SvcStopped \<or> stop_service M = Inr () \<and> CallStop \<in> set (snd (uninstall_service M)))"
proof (intro conjI impI)
  assume "launch_arguments args = launch_arguments args'"
  then show "args = args'"
    by (cases args; cases args') (auto simp: launch_arguments_def split: if_splits)
next
  assume "CallDelete \<in> set (snd (uninstall_service M))"
  then show "query_status M = Inr SvcStopped \<or> stop_service M = Inr () \<and> CallStop \<in> set (snd (uninstall_service M))"
    by (auto simp: uninstall_service_def snd_and_then io_result_def split: sum.splits outcome.splits if_splits)
qed (simp add: launch_arguments_def)

section \<open>A concrete service\<close>

definition demo_service :: service_env where
  "demo_service =
     \<lparr>register_handler = Inr (),
      report_status = (\<lambda>st. if current_state st = SvcStopPending then Inl ''rejected'' else Inr ())\<rparr>"

theorem service_stops_in_order_witness:
  "map current_state (snd (run_service demo_service (Some (RunService (demo_args ''a:1''))) [Interrogate, Stop, Stop]))
    = [SvcRunning, SvcStopPending, SvcStopped]"
  using service_stops_in_order [of demo_service "[Interrogate, Stop, Stop]" "demo_args ''a:1''"]
  by (simp add: demo_service_def)

definition demo_manager :: manager_env where
  "demo_manager =
     \<lparr>open_manager = Inr (), create_service = (\<lambda>_. Inr ()), set_description = (\<lambda>_. Inr ()), open_service = (\<lambda>_. Inr ()),
      query_status = Inr SvcRunning, stop_service = Inr (), delete_service = Inr ()\<rparr>"

theorem installation_keeps_configuration_witness:
  "launch_arguments (demo_args ''a:1'') \<noteq> launch_arguments (demo_args ''b:1'')
    \<and> CallStop \<in> set (snd (uninstall_service demo_manager))"
proof -
  have "demo_args ''a:1'' \<noteq> demo_args ''b:1''" by (simp add: demo_args_def)
  moreover have "CallDelete \<in> set (snd (uninstall_service demo_manager))"
    by (simp add: uninstall_service_def demo_manager_def io_result_def)
  moreover have "query_status demo_manager \<noteq> Inr SvcStopped" by (simp add: demo_manager_def)
  ultimately show ?thesis
    using installation_keeps_configuration [of "demo_args ''a:1''" "demo_args ''b:1''" demo_manager] by blast
qed

end
