(* ===== verification/Build_Script.thy ===== *)
theory Build_Script
  imports Rust_Std
begin

text \<open>
  The build script np\_proto/build.rs, which generates message\_map.rs from the protocol files. It reads the
  files line by line, collects the messages with their ids, comments the id lines out so that the
  protobuf compiler does not see them, writes the generated code, runs the compiler and restores the
  files. The regular expressions, the changes of case of \<open>heck\<close>, the compiler and the file system are
  parameters. Strings are UTF-8 bytes.
\<close>

section \<open>What is used of the standard library\<close>

definition nl :: char where "nl = CHR 0x0A"
definition cr :: char where "cr = CHR 0x0D"

text \<open>\<open>str::lines\<close>: a line ends at a line feed, with the carriage return before it; the rest after the last one counts if not empty.\<close>

definition strip_cr :: "string \<Rightarrow> string" where
  "strip_cr l = (if l \<noteq> [] \<and> last l = cr then butlast l else l)"

definition str_lines :: "string \<Rightarrow> string list" where
  "str_lines s =
     (let ps = split_on nl s in map strip_cr (butlast ps) @ (if last ps = [] then [] else [last ps]))"

fun join :: "char \<Rightarrow> string list \<Rightarrow> string" where
  "join sep [] = []"
| "join sep [l] = l"
| "join sep (l # ls) = l @ sep # join sep ls"

definition starts_with :: "string \<Rightarrow> string \<Rightarrow> bool" where
  "starts_with p s = (take (length p) s = p)"

text \<open>\<open>str::trim\<close>: white space of Unicode, in UTF-8.\<close>

definition white_space :: "string list" where
  "white_space =
     map (\<lambda>c. [c]) [CHR 0x09, CHR 0x0A, CHR 0x0B, CHR 0x0C, CHR 0x0D, CHR 0x20]
     @ [[CHR 0xC2, CHR 0x85], [CHR 0xC2, CHR 0xA0], [CHR 0xE1, CHR 0x9A, CHR 0x80]]
     @ map (\<lambda>c. [CHR 0xE2, CHR 0x80, c]) [CHR 0x80, CHR 0x81, CHR 0x82, CHR 0x83, CHR 0x84, CHR 0x85, CHR 0x86, CHR 0x87,
          CHR 0x88, CHR 0x89, CHR 0x8A, CHR 0xA8, CHR 0xA9, CHR 0xAF]
     @ [[CHR 0xE2, CHR 0x81, CHR 0x9F], [CHR 0xE3, CHR 0x80, CHR 0x80]]"

function strip_all :: "string list \<Rightarrow> string \<Rightarrow> string" where
  "strip_all ws s =
     (case find (\<lambda>w. w \<noteq> [] \<and> starts_with w s) ws of
        Some w \<Rightarrow> strip_all ws (drop (length w) s)
      | None \<Rightarrow> s)"
  by pat_completeness auto
termination
proof (relation "measure (\<lambda>(ws, s). length s)", goal_cases)
  case (2 ws s w)
  then have "w \<noteq> []" "take (length w) s = w" by (auto simp: find_Some_iff starts_with_def)
  then show ?case by (cases s) auto
qed simp

declare strip_all.simps [simp del]

definition trim :: "string \<Rightarrow> string" where
  "trim s = rev (strip_all (map rev white_space) (rev (strip_all white_space s)))"

text \<open>\<open>str::replace\<close> and \<open>u32::from_str\<close>\<close>

function replace :: "string \<Rightarrow> string \<Rightarrow> string \<Rightarrow> string" where
  "replace p r [] = []"
| "replace p r (c # cs) =
     (if p \<noteq> [] \<and> starts_with p (c # cs) then r @ replace p r (drop (length p) (c # cs)) else c # replace p r cs)"
  by pat_completeness auto
termination
proof (relation "measure (\<lambda>(p, r, s). length s)", goal_cases)
  case (2 p r c cs)
  then show ?case by (cases p) auto
qed simp_all

definition parse_u32 :: "string \<Rightarrow> u32 option" where
  "parse_u32 s =
     (case s of
        [] \<Rightarrow> None
      | [c] \<Rightarrow> map_option of_nat (parse_digits 4294967295 0 [c])
      | c # cs \<Rightarrow> map_option of_nat (parse_digits 4294967295 0 (if c = CHR ''+'' then cs else s)))"

section \<open>Names\<close>

record message_info =
  mi_name :: string
  mi_package :: string
  mi_id :: u32

record heck =
  to_snake_case :: "string \<Rightarrow> string"
  to_upper_camel_case :: "string \<Rightarrow> string"

definition raw_keywords :: "string list" where
  "raw_keywords =
     [''as'', ''break'', ''const'', ''continue'', ''else'', ''enum'', ''false'',
      ''fn'', ''for'', ''if'', ''impl'', ''in'', ''let'', ''loop'', ''match'', ''mod'', ''move'', ''mut'',
      ''pub'', ''ref'', ''return'', ''static'', ''struct'', ''trait'', ''true'',
      ''type'', ''unsafe'', ''use'', ''where'', ''while'',
      ''dyn'',
      ''abstract'', ''become'', ''box'', ''do'', ''final'', ''macro'', ''override'', ''priv'', ''typeof'',
      ''unsized'', ''virtual'', ''yield'',
      ''async'', ''await'', ''try'']"

definition suffixed_keywords :: "string list" where
  "suffixed_keywords = [''self'', ''super'', ''extern'', ''crate'']"

definition to_snake :: "heck \<Rightarrow> string \<Rightarrow> string" where
  "to_snake H s =
     (let ident = to_snake_case H s in
      if ident \<in> set raw_keywords then ''r#'' @ ident
      else if ident \<in> set suffixed_keywords then ident @ ''_''
      else ident)"

definition to_upper_camel :: "heck \<Rightarrow> string \<Rightarrow> string" where
  "to_upper_camel H s =
     (let ident = to_upper_camel_case H s in if ident = ''Self'' then ident @ ''_'' else ident)"

definition format_package_name :: "heck \<Rightarrow> message_info \<Rightarrow> string" where
  "format_package_name H mi = to_snake H (replace ''PB.'' [] (mi_package mi))"

definition format_message_full_type :: "heck \<Rightarrow> message_info \<Rightarrow> string" where
  "format_message_full_type H mi = ''super::'' @ format_package_name H mi @ ''::'' @ to_upper_camel H (mi_name mi)"

definition format_message_type_name :: "heck \<Rightarrow> message_info \<Rightarrow> string" where
  "format_message_type_name H mi = to_upper_camel H (format_package_name H mi) @ to_upper_camel H (mi_name mi)"

section \<open>The generated code\<close>

definition code_message :: "heck \<Rightarrow> message_info \<Rightarrow> string" where
  "code_message H mi = ''    '' @ format_message_type_name H mi @ ''('' @ format_message_full_type H mi @ ''),''"

definition code_get_message_id :: "heck \<Rightarrow> message_info \<Rightarrow> string" where
  "code_get_message_id H mi =
     ''        MessageType::'' @ format_message_type_name H mi @ ''(_) => Some('' @ show_nat (unat (mi_id mi)) @ ''u32),''"

definition code_decode_message :: "heck \<Rightarrow> message_info \<Rightarrow> string" where
  "code_decode_message H mi = join nl
     [''        '' @ show_nat (unat (mi_id mi)) @ ''u32 => match '' @ format_message_full_type H mi @ ''::decode(bytes) {'',
      ''            Ok(message) => Ok(MessageType::'' @ format_message_type_name H mi @ ''(message)),'',
      ''            Err(err) => Err(err),'',
      ''        },'']"

definition code_encode_message :: "heck \<Rightarrow> message_info \<Rightarrow> string" where
  "code_encode_message H mi =
     ''        MessageType::'' @ format_message_type_name H mi @ ''(msg) => Some(('' @ show_nat (unat (mi_id mi))
     @ ''u32, msg.encode_to_vec())),''"

definition code_get_message_size :: "heck \<Rightarrow> message_info \<Rightarrow> string" where
  "code_get_message_size H mi =
     ''        MessageType::'' @ format_message_type_name H mi @ ''(msg) => msg.encoded_len(),''"

definition code_encode_raw_message :: "heck \<Rightarrow> message_info \<Rightarrow> string" where
  "code_encode_raw_message H mi =
     ''        MessageType::'' @ format_message_type_name H mi @ ''(msg) => msg.encode_raw(buf),''"

definition code_serialize_to_json :: "heck \<Rightarrow> message_info \<Rightarrow> string" where
  "code_serialize_to_json H mi =
     ''        MessageType::'' @ format_message_type_name H mi @ ''(msg) => serde_json::to_string(&msg),''"

text \<open>The template, line by line; the text ends with a line feed.\<close>

definition quote :: string where "quote = [CHR 0x22]"

definition build_code :: "heck \<Rightarrow> message_info list \<Rightarrow> string" where
  "build_code H messages = join nl
     [''use bytes::BufMut;'',
      ''use prost::{DecodeError, Message};'',
      '''',
      ''#[derive(Clone)]'',
      ''pub enum MessageType {'',
      ''    None,'',
      join nl (map (code_message H) messages),
      ''}'',
      '''',
      ''impl MessageType {'',
      ''    pub fn is_none(&self) -> bool {'',
      ''        match self {'',
      ''            MessageType::None => true,'',
      ''            _ => false,'',
      ''        }'',
      ''    }'',
      ''}'',
      '''',
      ''pub fn get_message_id(message: &MessageType) -> Option<u32> {'',
      ''    match message {'',
      join nl (map (code_get_message_id H) messages),
      ''        _ => None,'',
      ''    }'',
      ''}'',
      '''',
      ''pub fn decode_message(message_id: u32, bytes: &[u8]) -> Result<MessageType, DecodeError> {'',
      ''    match message_id {'',
      join nl (map (code_decode_message H) messages),
      ''        _ => Err(DecodeError::new('' @ quote @ ''unknown message id'' @ quote @ '')),'',
      ''    }'',
      ''}'',
      '''',
      ''pub fn encode_message(message: &MessageType) -> Option<(u32, Vec<u8>)> {'',
      ''    match message {'',
      join nl (map (code_encode_message H) messages),
      ''        _ => None,'',
      ''    }'',
      ''}'',
      '''',
      ''pub fn get_message_size(message: &MessageType) -> usize {'',
      ''    match message {'',
      join nl (map (code_get_message_size H) messages),
      ''        _ => 0,'',
      ''    }'',
      ''}'',
      '''',
      ''pub fn encode_raw_message(message: &MessageType, buf: &mut impl BufMut) {'',
      ''    match message {'',
      join nl (map (code_encode_raw_message H) messages),
      ''        _ => {}'',
      ''    }'',
      ''}'',
      '''',
      ''#[cfg(feature = '' @ quote @ ''serde-serialize'' @ quote @ '')]'',
      ''pub fn serialize_to_json(message: &MessageType) -> serde_json::Result<String> {'',
      ''    match message {'',
      join nl (map (code_serialize_to_json H) messages),
      ''        _ => Ok('' @ quote @ ''null'' @ quote @ ''.into()),'',
      ''    }'',
      ''}'',
      '''']"

section \<open>Scanning the protocol files\<close>

definition annotation_prefix :: string where
  "annotation_prefix = ''//@build_automatically_generate_message_id@''"

text \<open>The first group of every match of the three expressions with a group, and whether the other one matches.\<close>

record regexes =
  package_re :: "string \<Rightarrow> string list"
  msg_re :: "string \<Rightarrow> string list"
  id_match_re :: "string \<Rightarrow> bool"
  id_re :: "string \<Rightarrow> string list"

record scan =
  sc_package :: string
  sc_name :: string
  sc_id :: u32
  sc_lines :: "string list"
  sc_messages :: "message_info list"

definition id_line :: "regexes \<Rightarrow> string \<Rightarrow> bool" where
  "id_line R line \<longleftrightarrow>
     (starts_with annotation_prefix line \<or> starts_with ''enum'' line) \<and> id_match_re R line"

text \<open>The ids of a line are parsed in turn, the last one counts; one that is no \<open>u32\<close> panics.\<close>

fun parse_ids :: "string list \<Rightarrow> u32 \<Rightarrow> u32 outcome" where
  "parse_ids [] i = Ok i"
| "parse_ids (c # cs) i = (case parse_u32 c of Some j \<Rightarrow> parse_ids cs j | None \<Rightarrow> Panic)"

definition scan_line :: "regexes \<Rightarrow> string \<Rightarrow> scan \<Rightarrow> scan outcome" where
  "scan_line R raw st =
     (let st = st\<lparr>sc_lines := sc_lines st @ [raw]\<rparr>; line = trim raw in
      if starts_with ''package'' line then Ok (st\<lparr>sc_package := last (sc_package st # package_re R line)\<rparr>)
      else if starts_with ''message '' line then Ok (st\<lparr>sc_name := last (sc_name st # msg_re R line)\<rparr>)
      else if id_line R line then
        bind_ok (parse_ids (id_re R line) (sc_id st)) (\<lambda>i.
          let st = st\<lparr>sc_id := i\<rparr> in
          if id_re R line = [] then Ok st
          else
            (let st = (if starts_with annotation_prefix line then st
                       else st\<lparr>sc_lines := butlast (sc_lines st) @ [annotation_prefix @ last (sc_lines st)]\<rparr>)
             in Ok (st\<lparr>sc_messages := sc_messages st @ [\<lparr>mi_name = sc_name st, mi_package = sc_package st, mi_id = i\<rparr>]\<rparr>)))
      else Ok st)"

fun scan_lines :: "regexes \<Rightarrow> string list \<Rightarrow> scan \<Rightarrow> scan outcome" where
  "scan_lines R [] st = Ok st"
| "scan_lines R (l # ls) st = bind_ok (scan_line R l st) (scan_lines R ls)"

definition scan_file :: "regexes \<Rightarrow> string \<Rightarrow> message_info list \<Rightarrow> scan outcome" where
  "scan_file R contents messages =
     scan_lines R (str_lines contents)
       \<lparr>sc_package = [], sc_name = [], sc_id = 0, sc_lines = [], sc_messages = messages\<rparr>"

section \<open>The file system and the whole script\<close>

type_synonym files = "string \<Rightarrow> string option"

record build_env =
  regexes_of :: regexes
  heck_of :: heck
  read_error :: "string \<Rightarrow> string"
  write_io :: "string \<Rightarrow> string + unit"
  current_dir :: "string + unit"
  compile_protos :: "string list \<Rightarrow> files \<Rightarrow> (string + unit) \<times> files"
  read_dir :: "files \<Rightarrow> string + (string + string) list"
  rename_io :: "string \<Rightarrow> string \<Rightarrow> files \<Rightarrow> (string + unit) \<times> files"

definition read_to_string :: "build_env \<Rightarrow> string \<Rightarrow> files \<Rightarrow> string outcome" where
  "read_to_string E name fs = (case fs name of Some c \<Rightarrow> Ok c | None \<Rightarrow> Err (read_error E name))"

definition write_file :: "build_env \<Rightarrow> string \<Rightarrow> string \<Rightarrow> files \<Rightarrow> unit outcome \<times> files" where
  "write_file E name c fs = (case write_io E name of Inr _ \<Rightarrow> (Ok (), fs(name \<mapsto> c)) | Inl e \<Rightarrow> (Err e, fs))"

fun annotate_files :: "build_env \<Rightarrow> string list \<Rightarrow> message_info list \<Rightarrow> files \<Rightarrow> message_info list outcome \<times> files" where
  "annotate_files E [] messages fs = (Ok messages, fs)"
| "annotate_files E (f # ns) messages fs =
     and_then (read_to_string E f fs, fs) (\<lambda>contents fs.
     and_then (scan_file (regexes_of E) contents messages, fs) (\<lambda>st fs.
     and_then (write_file E f (join nl (sc_lines st)) fs) (\<lambda>_ fs.
       annotate_files E ns (sc_messages st) fs)))"

text \<open>\<open>Path::file_stem\<close> of a name without directory: all before the last dot, unless that is the first character.\<close>

definition file_stem :: "string \<Rightarrow> string" where
  "file_stem name =
     (let parts = split_on (CHR ''.'') name in
      if length parts = 1 \<or> join (CHR ''.'') (butlast parts) = [] then name else join (CHR ''.'') (butlast parts))"

definition in_out_dir :: "string \<Rightarrow> string" where
  "in_out_dir name = ''src/'' @ name"

fun rename_generated :: "build_env \<Rightarrow> (string + string) list \<Rightarrow> files \<Rightarrow> unit outcome \<times> files" where
  "rename_generated E [] fs = (Ok (), fs)"
| "rename_generated E (Inl e # ns) fs = (Err e, fs)"
| "rename_generated E (Inr name # ns) fs =
     (if starts_with ''pb.'' (file_stem name) then
        (case rename_io E (in_out_dir name) (in_out_dir (replace ''pb.'' [] (file_stem name) @ ''.rs'')) fs of
           (r, fs) \<Rightarrow> and_then (io_result r, fs) (\<lambda>_ fs. rename_generated E ns fs))
      else rename_generated E ns fs)"

definition build :: "build_env \<Rightarrow> string list \<Rightarrow> files \<Rightarrow> message_info list outcome \<times> files" where
  "build E ns fs =
     and_then (annotate_files E ns [] fs) (\<lambda>messages fs.
     and_then (write_file E (in_out_dir ''message_map.rs'') (build_code (heck_of E) messages) fs) (\<lambda>_ fs.
     case compile_protos E ns fs of (r, fs) \<Rightarrow>
     and_then (io_result r, fs) (\<lambda>_ fs.
     and_then (io_result (read_dir E fs), fs) (\<lambda>entries fs.
     and_then (rename_generated E entries fs) (\<lambda>_ fs. (Ok messages, fs))))))"

definition proto_file_list :: "string list" where
  "proto_file_list =
     [''src/pb/Client_Server.proto'', ''src/pb/Server_Client.proto'', ''src/pb/ClassDef.proto'', ''src/pb/Generic.proto'']"

fun backup_files :: "build_env \<Rightarrow> string list \<Rightarrow> files \<Rightarrow> (string \<times> string) list outcome" where
  "backup_files E [] fs = Ok []"
| "backup_files E (f # ns) fs =
     bind_ok (read_to_string E f fs) (\<lambda>contents.
     bind_ok (io_result (current_dir E)) (\<lambda>_.
     bind_ok (backup_files E ns fs) (\<lambda>bs. Ok ((f, contents) # bs))))"

definition unannotate :: "string \<Rightarrow> string" where
  "unannotate line =
     (if starts_with annotation_prefix line then strip_all [annotation_prefix] line else line)"

definition restored :: "string \<Rightarrow> string" where
  "restored contents = join nl (map unannotate (str_lines contents))"

fun restore_files :: "build_env \<Rightarrow> (string \<times> string) list \<Rightarrow> string list \<Rightarrow> files \<Rightarrow> unit outcome \<times> files" where
  "restore_files E backups [] fs = (Ok (), fs)"
| "restore_files E backups (f # ns) fs =
     and_then (io_result (current_dir E), fs) (\<lambda>_ fs.
     case map_of backups f of
       None \<Rightarrow> (Panic, fs)
     | Some contents \<Rightarrow>
         and_then (write_file E f (restored contents) fs) (\<lambda>_ fs. restore_files E backups ns fs))"

definition build_main :: "build_env \<Rightarrow> string option \<Rightarrow> bool \<Rightarrow> files \<Rightarrow> unit outcome \<times> files" where
  "build_main E profile windows fs =
     (case profile of
        None \<Rightarrow> (Panic, fs)
      | Some p \<Rightarrow>
          if p = ''release'' \<or> \<not> windows then (Ok (), fs)
          else
            and_then (backup_files E proto_file_list fs, fs) (\<lambda>backups fs.
            case build E proto_file_list fs of
              (Panic, fs) \<Rightarrow> (Panic, fs)
            | (Pending, fs) \<Rightarrow> (Pending, fs)
            | (result, fs) \<Rightarrow>
                and_then (restore_files E backups proto_file_list fs) (\<lambda>_ fs.
                  case result of
                    Ok messages \<Rightarrow> (if distinct (map mi_id messages) then Ok () else Panic, fs)
                  | Err e \<Rightarrow> (Err e, fs)
                  | _ \<Rightarrow> (Ok (), fs))))"

end
