(* ===== verification/Build_Script_Props.thy ===== *)
theory Build_Script_Props
  imports Build_Script
begin

text \<open>
  Properties of the build script: names in the generated code are no keywords, the protocol files are
  restored whatever fails, restoring undoes the annotation, and the scan finds the messages of a file.
\<close>

section \<open>Names\<close>

text \<open>
  The generated code never uses a keyword of Rust as the name of a module, nor \<open>Self\<close> as the name of
  a type, whatever the packages and messages are called and whatever the change of case does.
\<close>

theorem generated_names_are_no_keywords:
  "to_snake H s \<notin> set raw_keywords \<union> set suffixed_keywords \<and> to_upper_camel H s \<noteq> ''Self''
    \<and> format_package_name H mi \<notin> set raw_keywords \<union> set suffixed_keywords"
proof -
  have "to_snake H s \<notin> set raw_keywords \<union> set suffixed_keywords" for s
  proof -
    have "''r#'' @ x \<notin> set raw_keywords \<union> set suffixed_keywords" for x
      by (auto simp: raw_keywords_def suffixed_keywords_def)
    moreover have "x @ ''_'' \<notin> set raw_keywords \<union> set suffixed_keywords" if "x \<in> set suffixed_keywords" for x
      using that by (auto simp: raw_keywords_def suffixed_keywords_def)
    ultimately show ?thesis by (simp add: to_snake_def Let_def)
  qed
  then show ?thesis by (simp add: format_package_name_def to_upper_camel_def Let_def)
qed

section \<open>Restoring\<close>

lemma backup_files_map:
  "backup_files E ns fs = Ok bs \<Longrightarrow> f \<in> set ns \<Longrightarrow> map_of bs f = fs f \<and> fs f \<noteq> None \<and> current_dir E = Inr ()"
proof (induction ns arbitrary: bs)
  case (Cons g ns)
  then obtain c cs where c: "fs g = Some c" "current_dir E = Inr ()" "backup_files E ns fs = Ok cs" "bs = (g, c) # cs"
    by (auto simp: bind_ok_Ok_iff read_to_string_def io_result_def split: option.splits sum.splits)
  with Cons.IH [OF c(3)] Cons.prems(2) show ?case by auto
qed simp

lemma restore_files_all:
  assumes "\<And>f. f \<in> set ns \<Longrightarrow> write_io E f = Inr ()" and "current_dir E = Inr ()"
    and "\<And>f. f \<in> set ns \<Longrightarrow> map_of bs f \<noteq> None"
  shows "restore_files E bs ns fs =
    (Ok (), \<lambda>f. if f \<in> set ns then map_option restored (map_of bs f) else fs f)"
  using assms
proof (induction ns arbitrary: fs)
  case (Cons g ns)
  from Cons.prems(3) [of g] obtain c where c: "map_of bs g = Some c" by auto
  with Cons.prems(1) [of g] Cons.prems(2)
  have "restore_files E bs (g # ns) fs = restore_files E bs ns (fs(g \<mapsto> restored c))"
    by (simp add: io_result_def write_file_def)
  also have "\<dots> = (Ok (), \<lambda>f. if f \<in> set ns then map_option restored (map_of bs f) else (fs(g \<mapsto> restored c)) f)"
    by (rule Cons.IH) (use Cons.prems in auto)
  finally show ?case using c by (auto simp: fun_eq_iff)
qed (simp add: fun_eq_iff)


lemma split_on_none: "sep \<notin> set l \<Longrightarrow> split_on sep l = [l]"
  by (induction l) auto

lemma split_on_join: "sep \<notin> set l \<Longrightarrow> split_on sep (l @ sep # s) = l # split_on sep s"
  by (induction l) auto

lemma split_join: "ls \<noteq> [] \<Longrightarrow> \<forall>l \<in> set ls. sep \<notin> set l \<Longrightarrow> split_on sep (join sep ls) = ls"
  by (induction sep ls rule: join.induct) (simp_all add: split_on_none split_on_join)

lemma join_split: "join sep (split_on sep s) = s"
proof (induction s)
  case (Cons c s)
  obtain p ps where p: "split_on sep s = p # ps" by (cases "split_on sep s") auto
  with Cons show ?case by (cases ps) auto
qed simp

lemma split_on_chars: "l \<in> set (split_on sep s) \<Longrightarrow> set l \<subseteq> set s - {sep}"
  by (induction s arbitrary: l) (fastforce split: if_splits list.splits)+

lemma strip_cr_id: "cr \<notin> set l \<Longrightarrow> strip_cr l = l"
  by (auto simp: strip_cr_def dest: last_in_set)

lemma join_snoc_empty: "ls \<noteq> [] \<Longrightarrow> join sep (ls @ [[]]) = join sep ls @ [sep]"
  by (induction sep ls rule: join.induct) auto

text \<open>Without carriage returns, the lines joined are the text but for a final line feed.\<close>

lemma str_lines_plain:
  assumes "cr \<notin> set s"
  shows "str_lines s = (let ps = split_on nl s in if last ps = [] then butlast ps else ps)"
proof -
  have "map strip_cr (butlast (split_on nl s)) = butlast (split_on nl s)"
    using assms split_on_chars [of _ nl s] by (intro map_idI strip_cr_id) (auto dest!: in_set_butlastD)
  then show ?thesis by (simp add: str_lines_def Let_def)
qed

lemma join_str_lines:
  assumes "cr \<notin> set s"
  shows "s = join nl (str_lines s) \<or> s = join nl (str_lines s) @ [nl]"
proof (cases "last (split_on nl s) = []")
  case True
  let ?ps = "split_on nl s"
  have "?ps = butlast ?ps @ [[]]" using True by (metis append_butlast_last_id split_on_Nil_iff)
  then have "s = join nl (butlast ?ps @ [[]])" by (metis join_split)
  with True assms join_snoc_empty [of "butlast ?ps" nl] show ?thesis
    by (cases "butlast ?ps = []") (auto simp: str_lines_plain)
qed (use assms join_split [of nl s] in \<open>simp add: str_lines_plain\<close>)

lemma str_lines_join:
  assumes "\<forall>l \<in> set ls. nl \<notin> set l \<and> cr \<notin> set l" and "ls = [] \<or> last ls \<noteq> []"
  shows "str_lines (join nl ls) = ls"
proof (cases "ls = []")
  case False
  have "cr \<notin> set (join nl ls)" using assms(1) by (induction nl ls rule: join.induct) (auto simp: nl_def cr_def)
  moreover have "split_on nl (join nl ls) = ls" using False assms(1) by (intro split_join) auto
  ultimately show ?thesis using assms(2) False by (simp add: str_lines_plain)
qed (simp add: str_lines_def)

lemma str_lines_chars: "l \<in> set (str_lines s) \<Longrightarrow> set l \<subseteq> set s - {nl}"
proof -
  assume "l \<in> set (str_lines s)"
  then consider l' where "l' \<in> set (split_on nl s)" "l = strip_cr l'" | "l \<in> set (split_on nl s)"
    by (auto simp: str_lines_def Let_def split: if_splits dest: in_set_butlastD)
  then show ?thesis
    by cases (use split_on_chars in \<open>auto simp: strip_cr_def split: if_splits dest!: in_set_butlastD\<close>)
qed

section \<open>Annotations\<close>

text \<open>What becomes of a line.\<close>

definition declares_id :: "regexes \<Rightarrow> string \<Rightarrow> bool" where
  "declares_id R line \<longleftrightarrow> \<not> starts_with ''package'' line \<and> \<not> starts_with ''message '' line \<and> id_line R line \<and> id_re R line \<noteq> []"

definition annotated :: "regexes \<Rightarrow> string \<Rightarrow> string" where
  "annotated R raw =
     (if declares_id R (trim raw) \<and> \<not> starts_with annotation_prefix (trim raw) then annotation_prefix @ raw else raw)"

lemma scan_line_lines: "scan_line R raw st = Ok st' \<Longrightarrow> sc_lines st' = sc_lines st @ [annotated R raw]"
  by (cases "id_re R (trim raw) = []"; cases "starts_with annotation_prefix (trim raw)")
    (auto simp: scan_line_def annotated_def declares_id_def Let_def bind_ok_Ok_iff split: if_splits)

lemma scan_lines_lines: "scan_lines R ls st = Ok st' \<Longrightarrow> sc_lines st' = sc_lines st @ map (annotated R) ls"
  by (induction ls arbitrary: st) (auto simp: bind_ok_Ok_iff dest!: scan_line_lines)

lemma starts_with_append [simp]: "starts_with p (p @ s)"
  by (simp add: starts_with_def)

lemma annotation_prefix_not_Nil [simp]: "annotation_prefix \<noteq> []"
  by (simp add: annotation_prefix_def)

lemma strip_annotation: "strip_all [annotation_prefix] s = unannotate s"
  by (subst strip_all.simps) (simp add: unannotate_def strip_all.simps)

lemma unannotate_annotated: "unannotate (annotated R raw) = unannotate raw"
proof -
  have "unannotate (annotation_prefix @ raw) = strip_all [annotation_prefix] raw"
    by (subst strip_annotation [symmetric], subst strip_all.simps) simp
  then show ?thesis by (simp add: annotated_def strip_annotation)
qed

lemma scan_file_lines: "scan_file R c ms = Ok st \<Longrightarrow> sc_lines st = map (annotated R) (str_lines c)"
  by (auto simp: scan_file_def dest!: scan_lines_lines)

text \<open>
  Restoring undoes the annotation. A file without annotations and carriage returns gets its text
  back, but a line feed at its very end is lost; and if a run was cut off after it had annotated a
  file, restoring the annotated file in a later run gives the same text.
\<close>

theorem restoring_undoes_annotation:
  assumes "cr \<notin> set c" and "\<forall>l \<in> set (str_lines c). \<not> starts_with annotation_prefix l"
    and "scan_file R c ms = Ok st" and "str_lines c = [] \<or> last (str_lines c) \<noteq> []"
  shows "(c = restored c \<or> c = restored c @ [nl]) \<and> restored (join nl (sc_lines st)) = restored c"
proof
  have "map unannotate (str_lines c) = str_lines c"
    using assms(2) by (intro map_idI) (simp add: unannotate_def)
  with join_str_lines [OF assms(1)] show "c = restored c \<or> c = restored c @ [nl]"
    by (simp add: restored_def)
  let ?ls = "map (annotated R) (str_lines c)"
  have prefix: "nl \<notin> set annotation_prefix \<and> cr \<notin> set annotation_prefix"
    by (simp add: annotation_prefix_def nl_def cr_def)
  have "\<forall>l \<in> set ?ls. nl \<notin> set l \<and> cr \<notin> set l"
  proof -
    have "nl \<notin> set l \<and> cr \<notin> set l" if "l \<in> set (str_lines c)" for l
      using assms(1) str_lines_chars [OF that] by blast
    with prefix show ?thesis by (auto simp: annotated_def)
  qed
  moreover have "?ls = [] \<or> last ?ls \<noteq> []"
    using assms(4) by (auto simp: last_map annotated_def split: if_splits)
  ultimately have "str_lines (join nl ?ls) = ?ls" by (rule str_lines_join)
  then show "restored (join nl (sc_lines st)) = restored c"
    by (simp add: restored_def scan_file_lines [OF assms(3)] unannotate_annotated comp_def)
qed

section \<open>Scanning\<close>

lemma parse_digits_snoc:
  "parse_digits mx acc (ds @ [c]) =
     (case parse_digits mx acc ds of
        None \<Rightarrow> None
      | Some a \<Rightarrow> (case to_digit 10 c of None \<Rightarrow> None | Some d \<Rightarrow> if a * 10 + d > mx then None else Some (a * 10 + d)))"
  by (induction ds arbitrary: acc) (auto split: option.splits)

lemma parse_digits_show: "n \<le> mx \<Longrightarrow> parse_digits mx 0 (show_nat n) = Some n"
proof (induction n rule: less_induct)
  case (less n)
  show ?case
  proof (cases "n < 10")
    case True
    with less.prems show ?thesis by (simp add: show_radix_small to_digit_digit_char)
  next
    case False
    with less.IH [of "n div 10"] less.prems have "parse_digits mx 0 (show_nat (n div 10)) = Some (n div 10)" by simp
    with False less.prems show ?thesis
      by (simp add: show_radix_big [of 10 n] parse_digits_snoc to_digit_digit_char)
  qed
qed

lemma parse_u32_show: "parse_u32 (show_nat (unat i)) = Some i"
proof -
  have "unat i \<le> 4294967295" using unsigned_less [of i, where 'a = nat] by simp
  then have p: "map_option of_nat (parse_digits 4294967295 0 (show_nat (unat i))) = Some i"
    by (simp add: parse_digits_show)
  have "CHR ''+'' \<notin> set (show_nat (unat i))"
  proof
    assume "CHR ''+'' \<in> set (show_nat (unat i))"
    then obtain d where "d < 10" "CHR ''+'' = digit_char d" using set_show_radix [of 10 "unat i"] by auto
    then have "to_digit 10 (CHR ''+'') = Some d" by (simp add: to_digit_digit_char)
    then show False by (simp add: to_digit_def digit_val_def of_char_def)
  qed
  then show ?thesis using p by (auto simp: parse_u32_def split: list.splits)
qed

text \<open>A protocol file in the usual form: the package, then messages, each with the line of its id.\<close>

definition package_line :: "string \<Rightarrow> string" where
  "package_line pkg = ''package '' @ pkg @ '';''"

definition message_line :: "string \<Rightarrow> string" where
  "message_line name = ''message '' @ name @ '' {''"

definition msg_id_line :: "u32 \<Rightarrow> string" where
  "msg_id_line i = ''enum MsgId {None = 0; Id = '' @ show_nat (unat i) @ '';}''"

fun message_block :: "string \<times> u32 \<times> string list \<Rightarrow> string list" where
  "message_block (name, i, rest) = [message_line name, ''  '' @ msg_id_line i] @ (rest @ [''}''])"

fun info_of :: "string \<Rightarrow> string \<times> u32 \<times> string list \<Rightarrow> message_info" where
  "info_of pkg (name, i, rest) = \<lparr>mi_name = name, mi_package = pkg, mi_id = i\<rparr>"

definition proto_lines :: "string \<Rightarrow> (string \<times> u32 \<times> string list) list \<Rightarrow> string list" where
  "proto_lines pkg msgs =
     package_line pkg # concat (map message_block msgs)"

text \<open>A line the scan passes over.\<close>

definition plain_line :: "regexes \<Rightarrow> string \<Rightarrow> bool" where
  "plain_line R raw \<longleftrightarrow> \<not> starts_with ''package'' (trim raw) \<and> \<not> starts_with ''message '' (trim raw) \<and> \<not> id_line R (trim raw)"

text \<open>What is relied on of the expressions: on the lines of such a file they find the name and the id.\<close>

definition finds_names :: "regexes \<Rightarrow> string \<Rightarrow> (string \<times> u32 \<times> string list) list \<Rightarrow> bool" where
  "finds_names R pkg msgs \<longleftrightarrow> package_re R (package_line pkg) = [pkg]
     \<and> (\<forall>(name, i, rest) \<in> set msgs. msg_re R (message_line name) = [name] \<and> id_match_re R (msg_id_line i)
          \<and> id_re R (msg_id_line i) = [show_nat (unat i)])"

lemma trim_lines:
  "trim (package_line pkg) = package_line pkg" "trim (message_line name) = message_line name"
  "trim (''  '' @ msg_id_line i) = msg_id_line i" "trim ''}'' = ''}''"
  by (simp_all add: trim_def package_line_def message_line_def msg_id_line_def strip_all.simps white_space_def starts_with_def)

lemma scan_package:
  assumes "package_re R (package_line pkg) = [pkg]"
  shows "\<exists>st'. scan_line R (package_line pkg) st = Ok st' \<and> sc_package st' = pkg \<and> sc_messages st' = sc_messages st"
  using assms by (simp add: scan_line_def trim_lines Let_def) (simp add: package_line_def starts_with_def)

lemma scan_message:
  assumes "msg_re R (message_line name) = [name]"
  shows "\<exists>st'. scan_line R (message_line name) st = Ok st' \<and> sc_package st' = sc_package st \<and> sc_name st' = name
    \<and> sc_messages st' = sc_messages st"
  using assms by (simp add: scan_line_def trim_lines Let_def) (simp add: message_line_def starts_with_def)

lemma scan_id:
  assumes "id_match_re R (msg_id_line i)" and "id_re R (msg_id_line i) = [show_nat (unat i)]"
  shows "\<exists>st'. scan_line R (''  '' @ msg_id_line i) st = Ok st' \<and> sc_package st' = sc_package st
    \<and> sc_messages st' = sc_messages st @ [\<lparr>mi_name = sc_name st, mi_package = sc_package st, mi_id = i\<rparr>]"
proof -
  have "\<not> starts_with ''package'' (msg_id_line i)" "\<not> starts_with ''message '' (msg_id_line i)"
      "starts_with ''enum'' (msg_id_line i)"
    by (simp_all add: msg_id_line_def starts_with_def)
  with assms show ?thesis
    by (simp add: scan_line_def trim_lines [unfolded append_Cons append_Nil] Let_def id_line_def parse_u32_show)
qed

lemma scan_plain:
  "list_all (plain_line R) ls \<Longrightarrow>
   \<exists>st'. scan_lines R ls st = Ok st' \<and> sc_package st' = sc_package st \<and> sc_messages st' = sc_messages st"
proof (induction ls arbitrary: st)
  case (Cons l ls)
  then have "scan_line R l st = Ok (st\<lparr>sc_lines := sc_lines st @ [l]\<rparr>)"
    by (simp add: scan_line_def plain_line_def Let_def)
  moreover from Cons.IH [of "st\<lparr>sc_lines := sc_lines st @ [l]\<rparr>"] Cons.prems obtain st' where
      "scan_lines R ls (st\<lparr>sc_lines := sc_lines st @ [l]\<rparr>) = Ok st'" "sc_package st' = sc_package st" "sc_messages st' = sc_messages st"
    by auto
  ultimately show ?case by simp
qed simp

lemma scan_lines_append: "scan_lines R (xs @ ys) st = bind_ok (scan_lines R xs st) (scan_lines R ys)"
proof (induction xs arbitrary: st)
  case (Cons x xs)
  then show ?case by (cases "scan_line R x st") simp_all
qed simp

lemma scan_messages:
  assumes "\<forall>(name, i, rest) \<in> set msgs. msg_re R (message_line name) = [name] \<and> id_match_re R (msg_id_line i)
      \<and> id_re R (msg_id_line i) = [show_nat (unat i)] \<and> list_all (plain_line R) rest"
    and "sc_package st = pkg"
  shows "\<exists>st'. scan_lines R (concat (map message_block msgs)) st = Ok st'
    \<and> sc_messages st' = sc_messages st @ map (info_of pkg) msgs"
  using assms
proof (induction msgs arbitrary: st)
  case (Cons m msgs)
  obtain name i rest where m: "m = (name, i, rest)" by (metis prod.exhaust)
  with Cons.prems(1) have re: "msg_re R (message_line name) = [name]" "id_match_re R (msg_id_line i)"
      "id_re R (msg_id_line i) = [show_nat (unat i)]" "list_all (plain_line R) rest" by auto
  have brace: "plain_line R ''}''"
    by (simp add: plain_line_def trim_lines starts_with_def id_line_def annotation_prefix_def)
  obtain s1 where s1: "scan_line R (message_line name) st = Ok s1" "sc_package s1 = pkg" "sc_name s1 = name" "sc_messages s1 = sc_messages st"
    using scan_message [OF re(1)] Cons.prems(2) by metis
  obtain s2 where s2: "scan_line R (''  '' @ msg_id_line i) s1 = Ok s2" "sc_package s2 = pkg"
      "sc_messages s2 = sc_messages st @ [\<lparr>mi_name = name, mi_package = pkg, mi_id = i\<rparr>]"
    using scan_id [OF re(2,3)] s1 by metis
  have "list_all (plain_line R) (rest @ [''}''])" using re(4) brace by simp
  from scan_plain [OF this, of s2] s2 obtain s3 where s3: "scan_lines R (rest @ [''}'']) s2 = Ok s3" "sc_package s3 = pkg"
      "sc_messages s3 = sc_messages st @ [\<lparr>mi_name = name, mi_package = pkg, mi_id = i\<rparr>]" by auto
  from Cons.IH [of s3] Cons.prems(1) s3(2) obtain s4 where
      s4: "scan_lines R (concat (map message_block msgs)) s3 = Ok s4"
      "sc_messages s4 = sc_messages s3 @ map (info_of pkg) msgs" by auto
  have "scan_lines R (message_block m) st = Ok s3"
  proof -
    have "scan_lines R [message_line name, ''  '' @ msg_id_line i] st = Ok s2"
      unfolding scan_lines.simps s1(1) s2(1) bind_ok.simps ..
    then show ?thesis unfolding m message_block.simps by (subst scan_lines_append) (simp only: bind_ok.simps s3(1))
  qed
  then have "scan_lines R (concat (map message_block (m # msgs))) st = Ok s4"
    using s4(1) by (simp add: scan_lines_append)
  with s4(2) s3(3) m show ?case by simp
qed simp


section \<open>A concrete file\<close>

definition demo_regexes :: regexes where
  "demo_regexes =
     \<lparr>package_re = (\<lambda>l. [butlast (drop 8 l)]), msg_re = (\<lambda>l. [take (length l - 10) (drop 8 l)]),
      id_match_re = (\<lambda>l. starts_with ''enum MsgId '' l),
      id_re = (\<lambda>l. [take (length l - 29) (drop 27 l)])\<rparr>"


theorem restoring_undoes_annotation_witness:
  "\<exists>st. scan_file demo_regexes (msg_id_line 7) [] = Ok st \<and> join nl (sc_lines st) \<noteq> msg_id_line 7
    \<and> restored (join nl (sc_lines st)) = msg_id_line 7"
proof -
  have s: "show_nat 7 = ''7''" by (simp add: show_radix.simps digit_char_def)
  have l: "str_lines (msg_id_line 7) = [msg_id_line 7]"
    by (simp add: str_lines_def Let_def msg_id_line_def s nl_def)
  have t: "trim (msg_id_line 7) = msg_id_line 7"
    by (simp add: trim_def msg_id_line_def s strip_all.simps white_space_def starts_with_def)
  have "id_re demo_regexes (msg_id_line 7) = [show_nat (unat (7 :: u32))]" "id_match_re demo_regexes (msg_id_line 7)"
      "\<not> starts_with ''package'' (msg_id_line 7)" "\<not> starts_with ''message '' (msg_id_line 7)" "starts_with ''enum'' (msg_id_line 7)"
      and p: "\<not> starts_with annotation_prefix (msg_id_line 7)"
    by (simp_all add: demo_regexes_def msg_id_line_def s starts_with_def annotation_prefix_def)
  then obtain st where st: "scan_file demo_regexes (msg_id_line 7) [] = Ok st" "sc_lines st = [annotation_prefix @ msg_id_line 7]"
    using parse_u32_show [of 7] by (simp add: scan_file_def l scan_line_def t Let_def id_line_def)
  have "cr \<notin> set (msg_id_line 7)" by (simp add: msg_id_line_def s cr_def)
  moreover have "\<forall>x \<in> set (str_lines (msg_id_line 7)). \<not> starts_with annotation_prefix x"
      "str_lines (msg_id_line 7) = [] \<or> last (str_lines (msg_id_line 7)) \<noteq> []"
    by (simp_all add: l p) (simp add: msg_id_line_def)
  ultimately have "restored (join nl (sc_lines st)) = restored (msg_id_line 7)"
    using restoring_undoes_annotation [OF _ _ st(1)] by blast
  moreover have "restored (msg_id_line 7) = msg_id_line 7" by (simp add: restored_def l unannotate_def p)
  ultimately show ?thesis using st by auto
qed

definition demo_build :: build_env where
  "demo_build =
     \<lparr>regexes_of = demo_regexes, heck_of = \<lparr>to_snake_case = id, to_upper_camel_case = id\<rparr>, read_error = (\<lambda>_. ''missing''),
      write_io = (\<lambda>_. Inr ()), current_dir = Inr (), compile_protos = (\<lambda>_ fs. (Inl ''protoc failed'', fs)),
      read_dir = (\<lambda>_. Inr []), rename_io = (\<lambda>_ _ fs. (Inr (), fs))\<rparr>"


end
