(* ===== verification/Spec2Isabelle.thy ===== *)
theory Spec2Isabelle
  imports Tunnel_Control Web_Props Interleaving_Props Server_Main Win_Service Build_Script_Props
begin

text \<open>
  A model of npipe, a tool that tunnels TCP, UDP and SOCKS5 connections between machines, with the
  theorems that make its core correct.

  \<^bold>\<open>The program.\<close> A tunnel has an \<^emph>\<open>inlet\<close>, which listens for applications
  (np\_base/src/proxy/inlet.rs), and an \<^emph>\<open>outlet\<close>, which connects to targets
  (np\_base/src/proxy/outlet.rs). Each accepted connection is a session with an id; the two ends
  exchange proxy messages about it (np\_base/src/proxy/mod.rs). Data is compressed and encrypted on one
  end and restored on the other, and a counter of unacknowledged bytes throttles the sender
  (np\_base/src/proxy/common.rs, crypto.rs). A SOCKS5 inlet negotiates the target with the application
  (np\_base/src/proxy/socks5). The sessions run on the small network layer of np\_base/src/net: a delegate
  per session, a read loop that cuts the stream into frames, a write loop fed by a channel. When inlet and
  outlet are on different machines the proxy messages travel as protobuf messages over the connection of
  a client to the server (np\_proto, np\_client/src/client.rs, np\_server/src/peer). The server keeps the
  tunnels and the players in a database and in memory (np\_server/src/global/manager), tells the clients which
  tunnels concern them, relays their messages, runs the tunnel ends assigned to itself, and is
  administered through a web interface (np\_server/src/web).

  \<^bold>\<open>Theories.\<close>
  \<^item> \<open>Prelude\<close>: words and bytes; \<open>outcome\<close>, the result of a call (a value, an error, a panic, or an
    \<open>await\<close> that has not completed); slicing with its panics; big-endian numbers; hash maps and channels
    with their interfaces \<open>table\<close> and \<open>fifo\<close>.
  \<^item> \<open>Rust_Std\<close>, \<open>Sock_Addr\<close>: what the sources use of the standard library: printing and parsing numbers,
    UTF-8, socket addresses.
  \<^item> \<open>Proxy_Core\<close>: \<open>WriterMessage\<close>, \<open>ProxyMessage\<close>, \<open>InletProxyType\<close>, and \<open>world\<close>, the store that shared
    senders and counters point into, so that clones of a handle alias.
  \<^item> \<open>Crypto\<close> (crypto.rs): key generation, the XOR cipher, encryption and decryption; interface \<open>cipher\<close>.
  \<^item> \<open>Session_Common\<close> (common.rs): the codec of a session and its flow control.
  \<^item> \<open>Target_Addr\<close> (socks5/target\_addr.rs): the SOCKS5 address block.
  \<^item> \<open>Socks5\<close>, \<open>Socks5_Props\<close> (socks5/mod.rs): the SOCKS5 session, its transitions, authentication,
    fragmented requests, panics and UDP associations.
  \<^item> \<open>Frame_Loop\<close>, \<open>Framing\<close>: the loop over a receive buffer with the contracts \<open>consuming_extractor\<close> and
    \<open>frame_extractor\<close>, and the frames between client and server (client.rs).
  \<^item> \<open>Messages\<close>, \<open>Message_Bridge\<close> (np\_proto): the protobuf messages, their numbering, and the conversion of
    proxy messages.
  \<^item> \<open>Tcp_Session\<close>, \<open>Udp_Net\<close> (np\_base/src/net): the read and write loops, the life of a session as a step
    relation with the interface \<open>session_life\<close>, the idle timeout, the routing of datagrams.
  \<^item> \<open>Inlet\<close>, \<open>Outlet\<close>: the two ends, as operations on their shared object and as delegates of a session.
  \<^item> \<open>Tunnel\<close>, \<open>Tunnel_Props\<close>, \<open>Tunnel_Control\<close>: both ends together. The interface \<open>transfer\<close> states what one
    direction of data needs; it is interpreted for both directions.
  \<^item> \<open>Reconcile\<close>, \<open>Endpoints\<close>: the pattern of \<open>sync_tunnels\<close>, which client and server share, with the interface
    \<open>sync\<close>; it is interpreted for the outlets and the inlets of both.
  \<^item> \<open>Client\<close>, \<open>Client_Props\<close> (np\_client/src/client.rs): login, pings, the receive loop, pushes and the
    synchronisation of tunnels.
  \<^item> \<open>Addr_Check\<close> (np\_server/src/utils/str.rs): the checks of names and addresses.
  \<^item> \<open>Server_State\<close> (np\_server/src/orm\_entity, player): rows, players and the state of the server;
    \<open>Managers\<close>, \<open>Manager_Props\<close> (global/manager): the operations on tunnels, players and the server's own
    outlets and inlets; \<open>Demo_Db\<close>: a concrete database for examples.
  \<^item> \<open>Peer\<close>, \<open>Peer_Props\<close> (np\_server/src/peer): the delegate of a connection to the server, relaying and logins.
  \<^item> \<open>Web\<close>, \<open>Web_Props\<close> (np\_server/src/web): the administration interface.
  \<^item> \<open>Server_Run\<close>: the running server as a step relation over connections, frames, closes, administrators and
    the traffic of its own tunnel ends, with the invariant of players and their sessions; \<open>Server_Inv\<close>: the
    interfaces \<open>connection_invariant\<close> and \<open>server_invariant\<close> of properties that every step keeps, interpreted for
    the table of tunnels, the outlets and inlets, and the collections of players.
  \<^item> \<open>Interleaving\<close>, \<open>Interleaving_Props\<close> (global/manager): the operations on players and tunnels split at
    their queries and locks, with schedules that interleave them.
  \<^item> \<open>Shutdown\<close> (net/tcp\_server.rs, udp\_server.rs, tls.rs): the servers as wholes, from accepting to the waiting
    at the end, with the interface \<open>server_life\<close>, interpreted for both; setting up TLS.
  \<^item> \<open>Server_Main\<close> (np\_server/src/main.rs, global): options, configuration, the start and the whole program.
  \<^item> \<open>Client_Main\<close> (np\_client/src/main.rs, client.rs): connecting, TLS and the loop that reconnects;
    \<open>Win_Service\<close> (winservice.rs): the client as a service of Windows.
  \<^item> \<open>Build_Script\<close>, \<open>Build_Script_Props\<close> (np\_proto/build.rs): the script that finds the messages in the
    protocol files, gives them their ids and writes message\_map.rs.

  \<^bold>\<open>What is shown.\<close> Ciphers and codecs are inverse; the flow counter is the number of bytes in flight
  and a waiting sender is released. Address blocks, messages, frames and proxy messages survive encoding
  and decoding, in any fragmentation of the stream, and the receive loops return. A SOCKS5 inlet with
  credentials never acts for an application that has not presented them. The write loop writes in order
  and acknowledges after flushing; a delegate is closed once. A session that comes up has the same codec
  on both ends, and data then arrives unchanged and in order in both directions, end to end from the
  frames of the application to the bytes written at the target; failures to connect and disconnects
  reach the other side; sessions do not disturb each other. A message of a tunnel between two clients
  passes the server byte for byte and comes out at the other end. After a synchronisation exactly the
  wanted outlets and inlets run, and unchanged ones are the same objects. The tunnels in memory are the
  table of the database whatever fails, and no two tunnels of a receiver share an IPv4 port. A connected
  player is served by exactly the peer that logged in as it, no handler of a peer panics, and every
  request is answered once. A browser session without the configured credentials changes nothing, and
  before its login the requests of a connection change nothing but by registering; messages it pushes
  for a tunnel are relayed even then, as the code checks no login there.

  In every reachable state the server runs the outlets and inlets that its table asks for, and its
  collections are well formed; the server program, from reading its configuration on, refines that
  server, and without a configured administrator its tunnels never change. Under which answers from
  outside the program comes up is characterised exactly. Registrations interleaved with one operation on
  a tunnel keep memory and tables equal; two operations on tunnels may not, and two registrations may
  share a name. A server that is told to stop returns, in order or after ten minutes. The client tries
  for ever, with nothing of it running between attempts, and with TLS it writes nothing before the
  certificate has been verified. The build script finds the messages of a protocol file, generates no
  names that are keywords, and restores the files up to their final line feed.

  \<^bold>\<open>Loops and bounds.\<close> \<open>drain_loop\<close> is a partial function whose value is \<open>None\<close> where it would not
  return; that it returns is proved from the contract of the extractor. The write loop is a total function
  by the length of the queue. Loops over input that arrives from outside recurse over the list of what
  arrives. A call that waits (the flow-control loop, \<open>stop\<close>) is the outcome \<open>Pending\<close> in states where it
  cannot go on.

  \<^bold>\<open>Parameters.\<close> Other packages are arguments: lz4, AES and base64 are the record \<open>libs\<close> with the promises
  \<open>libs_ok\<close>, random numbers are \<open>gen_range\<close>, protobuf encodings are \<open>prost\<close> with \<open>prost_ok\<close> for one message, the
  buffered writer is \<open>writer\<close> with \<open>reliable\<close>. Answers of the operating system are \<open>udp_env\<close>, \<open>udp_socket\<close>,
  \<open>outlet_env\<close> and \<open>bind\<close>.

  The queries of \<open>sea_orm\<close> are \<open>db_ops\<close> over a database state of any type, with the promises \<open>tunnel_table\<close> and
  \<open>user_table\<close>; further answers from outside are the records \<open>endpoint_env\<close>, \<open>client_env\<close>, \<open>server_env\<close>, \<open>peer_env\<close>
  and \<open>web_env\<close> (binding, writing, JSON, the clock, random ids, identities of browser sessions).

  The start of the programs adds \<open>tls_io\<close> (PEM files and \<open>rustls\<close>), \<open>connect_env\<close> (connecting and the handshake of
  a client), \<open>log_env\<close>, \<open>boot_env\<close> (configuration file, database, binding), \<open>service_env\<close>, \<open>dispatch_env\<close> and
  \<open>manager_env\<close> (the service manager of Windows); the build script \<open>heck\<close>, \<open>regexes\<close> and \<open>build_env\<close> (file system
  and \<open>protoc\<close>).

  \<^bold>\<open>Atomicity.\<close> In the running server a handler of a peer or of the administration is one step, as is a handler
  of the client; between steps anything may happen to the channels. What can happen between the
  queries and locks of registrations and operations on tunnels is the subject of \<open>Interleaving\<close>, where a task
  may be interrupted at each \<open>await\<close>; that an uninterrupted task is the operation of \<open>Managers\<close> is proved.

  \<^bold>\<open>Not modelled.\<close> What libraries do inside: sockets, the TLS handshake, PEM and JSON parsing, SQL, the log
  files, static files of the web server, the parsing of the command line. The environment
  variable for backtraces and console output have no effect on the rest. The unit tests and the demonstration program
  np\_test are no part of npipe.
\<close>

end
